(* ===== verification/Prelude.thy ===== *)
theory Prelude
  imports Complex_Main "HOL-Library.List_Lexorder" "HOL-Library.Char_ord"
    "HOL-Library.Multiset"
begin

text \<open>
  Shared vocabulary of the dashboard model (\<open>src/dashboard/dashboard.py\<close>): the
  pandas primitives the dashboard calls, written as executable list functions with the
  semantics pandas gives them on the columns the dashboard uses.
  \<^item> A nullable column is an \<open>'a option list\<close>; \<open>None\<close> is pandas' NaN/NaT.
  \<^item> \<open>dropna\<close>, \<open>nunique\<close>, \<open>sum_skipna\<close>, \<open>mean_skipna\<close> are the reductions
    \<open>Series.dropna\<close>, \<open>Series.nunique\<close>, \<open>Series.sum\<close> and \<open>Series.mean\<close>
    (NaN skipped, the empty sum is 0, the empty mean is NaN, here \<open>None\<close>).
  \<^item> \<open>sort_values_desc\<close>/\<open>sort_values_asc\<close> are \<open>sort_values\<close> on one column; pandas
    leaves the order of ties to its sort kind, the model fixes the stable order.
  \<^item> \<open>groupby_agg\<close> is \<open>df.groupby(by=key).col.agg()\<close>: one row per non-NaN key, keys
    in ascending order (pandas' default \<open>sort=True\<close>), each group in row order.
  The generic lemmas about them are collected in \<open>pandas_simps\<close>.
\<close>

named_theorems pandas_simps "facts about the pandas primitives"

type_synonym timestamp = int \<comment> \<open>seconds since the epoch (pandas datetime64)\<close>
type_synonym money = rat \<comment> \<open>a float64 monetary amount, read exactly\<close>

text \<open>
  The Python exceptions the dashboard can raise, as values. TypeError is what pandas
  raises when it compares a datetime column with a string it cannot read as a date.
\<close>

datatype py_error = ValueError | KeyError | TypeError

section \<open>Nullable columns\<close>

primrec dropna :: "'a option list \<Rightarrow> 'a list" where
  "dropna [] = []"
| "dropna (x # xs) = (case x of None \<Rightarrow> dropna xs | Some v \<Rightarrow> v # dropna xs)"

definition nunique :: "'a list \<Rightarrow> nat" where
  "nunique xs = length (remdups xs)"

definition sum_skipna :: "'a::comm_monoid_add option list \<Rightarrow> 'a" where
  "sum_skipna xs = sum_list (dropna xs)"

definition col_min :: "'a::linorder option list \<Rightarrow> 'a option" where
  "col_min xs = (let ys = dropna xs in if ys = [] then None else Some (Min (set ys)))"

definition col_max :: "'a::linorder option list \<Rightarrow> 'a option" where
  "col_max xs = (let ys = dropna xs in if ys = [] then None else Some (Max (set ys)))"

definition mean_skipna :: "rat option list \<Rightarrow> rat option" where
  "mean_skipna xs =
     (let ys = dropna xs in
      if ys = [] then None else Some (sum_list ys / of_nat (length ys)))"

section \<open>Sorting by one column\<close>

definition sort_values_desc :: "('a \<Rightarrow> 'b::linorder) \<Rightarrow> 'a list \<Rightarrow> 'a list" where
  "sort_values_desc f xs = rev (sort_key f (rev xs))"

definition sort_values_asc :: "('a \<Rightarrow> 'b::linorder) \<Rightarrow> 'a list \<Rightarrow> 'a list" where
  "sort_values_asc f xs = sort_key f xs"

abbreviation sorted_desc :: "('a \<Rightarrow> 'b::linorder) \<Rightarrow> 'a list \<Rightarrow> bool" where
  "sorted_desc f xs \<equiv> sorted_wrt (\<lambda>x y. f y \<le> f x) xs"

section \<open>Group-by\<close>

definition group_keys :: "('r \<Rightarrow> 'k::linorder option) \<Rightarrow> 'r list \<Rightarrow> 'k list" where
  "group_keys key rs = sort (remdups (dropna (map key rs)))"

definition group_of :: "('r \<Rightarrow> 'k option) \<Rightarrow> 'k \<Rightarrow> 'r list \<Rightarrow> 'r list" where
  "group_of key k rs = filter (\<lambda>r. key r = Some k) rs"

definition groupby_agg ::
  "('r \<Rightarrow> 'k::linorder option) \<Rightarrow> ('r list \<Rightarrow> 'v) \<Rightarrow> 'r list \<Rightarrow> ('k \<times> 'v) list" where
  "groupby_agg key agg rs = map (\<lambda>k. (k, agg (group_of key k rs))) (group_keys key rs)"

text \<open>
  A list comprehension that indexes a dict, \<open>[d[k] for k in ks]\<close>: the first missing
  key raises KeyError.
\<close>

fun lookup_all :: "('k \<rightharpoonup> 'v) \<Rightarrow> 'k list \<Rightarrow> py_error + 'v list" where
  "lookup_all d [] = Inr []"
| "lookup_all d (k # ks) =
     (case d k of
        None \<Rightarrow> Inl KeyError
      | Some v \<Rightarrow> (case lookup_all d ks of Inl e \<Rightarrow> Inl e | Inr vs \<Rightarrow> Inr (v # vs)))"

section \<open>Lemmas on the primitives\<close>

lemma set_dropna [pandas_simps, simp]: "set (dropna xs) = {v. Some v \<in> set xs}"
  by (induction xs) (auto split: option.splits)

lemma dropna_append [simp]: "dropna (xs @ ys) = dropna xs @ dropna ys"
  by (induction xs) (auto split: option.splits)

lemma dropna_map_Some [simp]: "dropna (map (\<lambda>x. Some (f x)) xs) = map f xs"
  by (induction xs) auto

lemma length_dropna_le: "length (dropna xs) \<le> length xs"
  by (induction xs) (auto split: option.splits)

lemma dropna_Nil_iff: "dropna xs = [] \<longleftrightarrow> (\<forall>x\<in>set xs. x = None)"
  by (induction xs) (auto split: option.splits)

lemma col_max_Some [pandas_simps]:
  assumes "col_max xs = Some m"
  shows "Some m \<in> set xs \<and> (\<forall>t. Some t \<in> set xs \<longrightarrow> t \<le> m)"
proof -
  from assms have ne: "set (dropna xs) \<noteq> {}" and m: "m = Max (set (dropna xs))"
    by (auto simp: col_max_def Let_def simp del: set_dropna split: if_splits)
  from ne m have "m \<in> set (dropna xs)" by (metis Max_in finite_set)
  moreover from m have "\<forall>t\<in>set (dropna xs). t \<le> m" using Max_ge [OF finite_set] by blast
  ultimately show ?thesis by simp
qed

lemma col_min_Some [pandas_simps]:
  assumes "col_min xs = Some m"
  shows "Some m \<in> set xs \<and> (\<forall>t. Some t \<in> set xs \<longrightarrow> m \<le> t)"
proof -
  from assms have ne: "set (dropna xs) \<noteq> {}" and m: "m = Min (set (dropna xs))"
    by (auto simp: col_min_def Let_def simp del: set_dropna split: if_splits)
  from ne m have "m \<in> set (dropna xs)" by (metis Min_in finite_set)
  moreover from m have "\<forall>t\<in>set (dropna xs). m \<le> t" using Min_le [OF finite_set] by blast
  ultimately show ?thesis by simp
qed

lemma nunique_card [pandas_simps]: "nunique xs = card (set xs)"
  by (simp add: nunique_def length_remdups_card_conv)

lemma nunique_Nil [simp]: "nunique [] = 0"
  by (simp add: nunique_def)

lemma sum_skipna_Nil [simp]: "sum_skipna [] = 0"
  by (simp add: sum_skipna_def)

lemma mean_skipna_None_iff [pandas_simps]: "mean_skipna xs = None \<longleftrightarrow> (\<forall>x\<in>set xs. x = None)"
  by (simp add: mean_skipna_def Let_def dropna_Nil_iff)

lemma mset_sort_values_desc [pandas_simps, simp]: "mset (sort_values_desc f xs) = mset xs"
  by (simp add: sort_values_desc_def)

lemma set_sort_values_desc [simp]: "set (sort_values_desc f xs) = set xs"
  by (simp add: sort_values_desc_def)

lemma length_sort_values_desc [simp]: "length (sort_values_desc f xs) = length xs"
  by (simp add: sort_values_desc_def)

lemma sorted_desc_sort_values_desc [pandas_simps]: "sorted_desc f (sort_values_desc f xs)"
proof -
  have "sorted (map f (sort_key f (rev xs)))" by simp
  then have "sorted_wrt (\<le>) (map f (sort_key f (rev xs)))" by (simp add: sorted_wrt_iff_nth_less)
  then show ?thesis
    by (simp add: sort_values_desc_def sorted_wrt_rev sorted_wrt_map)
qed

lemma sort_values_desc_id [pandas_simps]:
  "sorted_desc f xs \<Longrightarrow> sort_values_desc f xs = xs"
proof -
  assume "sorted_desc f xs"
  then have "sorted (map f (rev xs))"
    by (simp add: sorted_wrt_rev sorted_wrt_map rev_map[symmetric])
  then show ?thesis by (simp add: sort_values_desc_def sort_key_id_if_sorted)
qed

lemma mset_sort_values_asc [simp]: "mset (sort_values_asc f xs) = mset xs"
  by (simp add: sort_values_asc_def)

lemma set_sort_values_asc [simp]: "set (sort_values_asc f xs) = set xs"
  by (simp add: sort_values_asc_def)

lemma sorted_sort_values_asc [pandas_simps]: "sorted (map f (sort_values_asc f xs))"
  by (simp add: sort_values_asc_def)

text \<open>The first \<open>k\<close> rows of a sorted table dominate the rest (\<open>head(k)\<close>).\<close>

lemma sorted_desc_take_dominates [pandas_simps]:
  "sorted_desc f xs \<Longrightarrow> x \<in> set (take k xs) \<Longrightarrow> y \<in> set (drop k xs) \<Longrightarrow> f y \<le> f x"
  by (metis append_take_drop_id sorted_wrt_append)

lemma sorted_take_dominated [pandas_simps]:
  "sorted (map f xs) \<Longrightarrow> x \<in> set (take k xs) \<Longrightarrow> y \<in> set (drop k xs) \<Longrightarrow> f x \<le> f y"
proof -
  assume s: "sorted (map f xs)" and x: "x \<in> set (take k xs)" and y: "y \<in> set (drop k xs)"
  from s have "sorted_wrt (\<lambda>a b. f a \<le> f b) xs"
    by (simp add: sorted_map)
  with x y show "f x \<le> f y" by (metis append_take_drop_id sorted_wrt_append)
qed

lemma distinct_group_keys [pandas_simps]: "distinct (group_keys key rs)"
  by (simp add: group_keys_def)

lemma sorted_group_keys [pandas_simps]: "sorted (group_keys key rs)"
  by (simp add: group_keys_def)

lemma set_group_keys [pandas_simps, simp]:
  "set (group_keys key rs) = {k. \<exists>r\<in>set rs. key r = Some k}"
  by (force simp: group_keys_def)

lemma group_keys_Nil_iff: "group_keys key rs = [] \<longleftrightarrow> (\<forall>r\<in>set rs. key r = None)"
proof -
  have "set (group_keys key rs) = {} \<longleftrightarrow> (\<forall>r\<in>set rs. key r = None)"
    by (auto, metis option.exhaust)
  then show ?thesis by (simp del: set_group_keys)
qed

lemma map_fst_groupby_agg [pandas_simps, simp]:
  "map fst (groupby_agg key agg rs) = group_keys key rs"
  by (simp add: groupby_agg_def comp_def)

lemma length_groupby_agg [simp]: "length (groupby_agg key agg rs) = length (group_keys key rs)"
  by (simp add: groupby_agg_def)

lemma sum_list_filter_disj:
  assumes "\<And>x. \<not> (P x \<and> Q x)"
  shows "sum_list (map (v :: 'a \<Rightarrow> 'b::comm_monoid_add) (filter (\<lambda>x. P x \<or> Q x) xs)) =
         sum_list (map v (filter P xs)) + sum_list (map v (filter Q xs))"
  using assms by (induction xs) (auto simp: ac_simps)

text \<open>Summing a column over all groups counts every row with a key exactly once.\<close>

lemma sum_over_keys:
  fixes v :: "'r \<Rightarrow> 'b::comm_monoid_add"
  shows "distinct ks \<Longrightarrow>
   sum_list (map (\<lambda>k. sum_list (map v (group_of key k rs))) ks) =
   sum_list (map v (filter (\<lambda>r. key r \<in> Some ` set ks) rs))"
proof (induction ks)
  case Nil
  then show ?case by simp
next
  case (Cons k ks)
  have eq: "(\<lambda>r. key r \<in> Some ` set (k # ks)) = (\<lambda>r. key r = Some k \<or> key r \<in> Some ` set ks)"
    by auto
  have "\<And>r. \<not> (key r = Some k \<and> key r \<in> Some ` set ks)"
    using Cons.prems by auto
  then show ?case
    using Cons by (simp add: eq sum_list_filter_disj group_of_def)
qed

lemma sum_groupby_agg [pandas_simps]:
  fixes v :: "'r \<Rightarrow> 'b::comm_monoid_add"
  shows "sum_list (map snd (groupby_agg key (\<lambda>g. sum_list (map v g)) rs)) =
         sum_list (map v (filter (\<lambda>r. key r \<noteq> None) rs))"
proof -
  have "filter (\<lambda>r. key r \<in> Some ` set (group_keys key rs)) rs = filter (\<lambda>r. key r \<noteq> None) rs"
    by (rule filter_cong) auto
  moreover have "sum_list (map snd (groupby_agg key (\<lambda>g. sum_list (map v g)) rs)) =
      sum_list (map (\<lambda>k. sum_list (map v (group_of key k rs))) (group_keys key rs))"
    by (simp add: groupby_agg_def comp_def)
  ultimately show ?thesis
    using sum_over_keys [where ks = "group_keys key rs" and v = v and key = key and rs = rs]
    by (simp del: set_group_keys add: distinct_group_keys)
qed

lemma int_div_eq_iff:
  fixes t k d :: int
  assumes k: "0 < k"
  shows "t div k = d \<longleftrightarrow> d * k \<le> t \<and> t < (d + 1) * k"
proof
  assume "t div k = d"
  moreover have "t = t div k * k + t mod k" by simp
  moreover have "0 \<le> t mod k" "t mod k < k" using k by simp_all
  ultimately show "d * k \<le> t \<and> t < (d + 1) * k" by (simp add: algebra_simps)
next
  assume b: "d * k \<le> t \<and> t < (d + 1) * k"
  then have "0 \<le> t - d * k" "t - d * k < k" by (simp_all add: algebra_simps)
  then have "(t - d * k) div k = 0" by simp
  moreover have "t = (t - d * k) + d * k" by simp
  ultimately show "t div k = d" using k by (metis add.commute div_mult_self3 less_irrefl add_0)
qed

lemma set_map_filter_disj:
  "set (map f (filter (\<lambda>x. P x \<or> Q x) xs)) = set (map f (filter P xs)) \<union> set (map f (filter Q xs))"
  by auto

text \<open>
  Counting distinct ids group by group counts each id once, provided every id has one
  key (the key is a function of the id within the table).
\<close>

lemma nunique_over_keys:
  assumes "distinct ks" and fd: "\<forall>r1\<in>set rs. \<forall>r2\<in>set rs. oid r1 = oid r2 \<longrightarrow> key r1 = key r2"
  shows "sum_list (map (\<lambda>k. nunique (map oid (group_of key k rs))) ks) =
         nunique (map oid (filter (\<lambda>r. key r \<in> Some ` set ks) rs))"
  using assms(1)
proof (induction ks)
  case Nil
  then show ?case by (simp add: nunique_def)
next
  case (Cons k ks)
  let ?A = "set (map oid (filter (\<lambda>r. key r = Some k) rs))"
  let ?B = "set (map oid (filter (\<lambda>r. key r \<in> Some ` set ks) rs))"
  have eq: "(\<lambda>r. key r \<in> Some ` set (k # ks)) = (\<lambda>r. key r = Some k \<or> key r \<in> Some ` set ks)"
    by auto
  have disj: "?A \<inter> ?B = {}"
  proof (rule ccontr)
    assume "?A \<inter> ?B \<noteq> {}"
    then obtain r1 r2 where "r1 \<in> set rs" "r2 \<in> set rs" "key r1 = Some k"
      "key r2 \<in> Some ` set ks" "oid r1 = oid r2" by auto
    with fd have "Some k \<in> Some ` set ks" by metis
    with Cons.prems show False by auto
  qed
  have "nunique (map oid (filter (\<lambda>r. key r \<in> Some ` set (k # ks)) rs)) = card (?A \<union> ?B)"
    by (simp only: eq nunique_card set_map_filter_disj)
  also have "\<dots> = card ?A + card ?B" using disj by (simp add: card_Un_disjoint)
  finally show ?case using Cons by (simp add: nunique_card group_of_def)
qed

lemma nunique_groupby_agg [pandas_simps]:
  assumes "\<forall>r1\<in>set rs. \<forall>r2\<in>set rs. oid r1 = oid r2 \<longrightarrow> key r1 = key r2"
  shows "sum_list (map snd (groupby_agg key (\<lambda>g. nunique (map oid g)) rs)) =
         nunique (map oid (filter (\<lambda>r. key r \<noteq> None) rs))"
proof -
  have "filter (\<lambda>r. key r \<in> Some ` set (group_keys key rs)) rs = filter (\<lambda>r. key r \<noteq> None) rs"
    by (rule filter_cong) auto
  moreover have "sum_list (map snd (groupby_agg key (\<lambda>g. nunique (map oid g)) rs)) =
      sum_list (map (\<lambda>k. nunique (map oid (group_of key k rs))) (group_keys key rs))"
    by (simp add: groupby_agg_def comp_def)
  ultimately show ?thesis
    using nunique_over_keys [OF distinct_group_keys assms, of key rs]
    by (simp del: set_group_keys)
qed

lemma sum_skipna_map:
  "sum_skipna (map f xs) = sum_list (map (\<lambda>x. case f x of None \<Rightarrow> 0 | Some v \<Rightarrow> v) xs)"
  by (induction xs) (auto simp: sum_skipna_def split: option.splits)

lemma sum_list_sort_values_desc [pandas_simps]:
  fixes f :: "'a \<Rightarrow> 'b::comm_monoid_add"
  shows "sum_list (map f (sort_values_desc g xs)) = sum_list (map f xs)"
proof -
  have "mset (map f (sort_values_desc g xs)) = mset (map f xs)" by simp
  then show ?thesis by (metis sum_mset_sum_list)
qed

lemma groupby_agg_member:
  assumes "k \<in> set (group_keys key rs)"
  shows "(k, agg (group_of key k rs)) \<in> set (groupby_agg key agg rs)"
proof -
  have "(k, agg (group_of key k rs)) \<in> (\<lambda>k. (k, agg (group_of key k rs))) ` set (group_keys key rs)"
    using assms by (rule imageI)
  then show ?thesis by (simp only: groupby_agg_def set_map)
qed

lemma group_keys_member: "r \<in> set rs \<Longrightarrow> key r = Some k \<Longrightarrow> k \<in> set (group_keys key rs)"
  by (simp only: set_group_keys) blast

lemma lookup_all_Inl_iff [pandas_simps]:
  "lookup_all d ks = Inl e \<longleftrightarrow> e = KeyError \<and> (\<exists>k\<in>set ks. d k = None)"
  by (induction ks) (auto split: option.splits sum.splits)

lemma lookup_all_Inr_iff [pandas_simps]:
  "lookup_all d ks = Inr vs \<longleftrightarrow> (\<forall>k\<in>set ks. d k \<noteq> None) \<and> vs = map (\<lambda>k. the (d k)) ks"
  by (induction ks arbitrary: vs) (auto simp: lookup_all_Inl_iff split: option.splits sum.splits)

end
