(* ===== verification/Orders.thy ===== *)
theory Orders
  imports Prelude
begin

text \<open>
  The two tables the dashboard loads (\<open>all_df\<close> and \<open>geo_df\<close>, dashboard.py lines
  13--14) after the timestamp conversion of lines 400--410. A row of \<open>all_df\<close> is an
  order item: \<open>order_id\<close> repeats for the items of one order, and
  \<open>order_item_id\<close> is the item's number within its order (1, 2, \dots). Every column
  that can hold NaN or NaT in the merged CSV is an option; the six date columns are
  \<open>timestamp option\<close> (seconds, NaT is \<open>None\<close>). A calendar date chosen in the
  sidebar is a day number; \<open>midnight d\<close> is the timestamp that \<open>str(d)\<close> denotes
  when pandas compares it with a datetime column, and \<open>day_of t\<close> is the day bin of
  \<open>resample(rule='D')\<close>.
\<close>

record order_row =
  order_id :: string
  order_item_id :: int
  product_category_name_english :: "string option"
  price :: "money option"
  payment_type :: "string option"
  payment_value :: "money option"
  review_score :: "int option"
  customer_state :: "string option"
  customer_city :: "string option"
  order_purchase_timestamp :: "timestamp option"
  order_approved_at :: "timestamp option"
  order_delivered_carrier_date :: "timestamp option"
  order_delivered_customer_date :: "timestamp option"
  order_estimated_delivery_date :: "timestamp option"
  shipping_limit_date :: "timestamp option"
  order_delivery_time :: "rat option"

record geo_row =
  geolocation_zip_code_prefix :: int
  geolocation_lat :: rat
  geolocation_lng :: rat

type_synonym orders_table = "order_row list"
type_synonym day = int \<comment> \<open>a calendar date as a day number since the epoch\<close>

definition seconds_per_day :: int where
  "seconds_per_day = 86400"

definition midnight :: "day \<Rightarrow> timestamp" where
  "midnight d = d * seconds_per_day"

definition day_of :: "timestamp \<Rightarrow> day" where
  "day_of t = t div seconds_per_day"

text \<open>
  A row whose every nullable column is NaN, used to write concrete tables in the
  witnesses; it models no code.
\<close>

definition blank_row :: "string \<Rightarrow> order_row" where
  "blank_row oid =
     \<lparr>order_id = oid, order_item_id = 1, product_category_name_english = None,
      price = None, payment_type = None, payment_value = None,
      review_score = None, customer_state = None, customer_city = None,
      order_purchase_timestamp = None, order_approved_at = None,
      order_delivered_carrier_date = None, order_delivered_customer_date = None,
      order_estimated_delivery_date = None, shipping_limit_date = None,
      order_delivery_time = None\<rparr>"

lemma day_of_midnight [simp]: "day_of (midnight d) = d"
  by (simp add: day_of_def midnight_def seconds_per_day_def)

lemma day_of_iff: "day_of t = d \<longleftrightarrow> midnight d \<le> t \<and> t < midnight (d + 1)"
proof -
  have "t div 86400 = d \<longleftrightarrow> d * 86400 \<le> t \<and> t < (d + 1) * 86400"
    by (rule int_div_eq_iff) simp
  then show ?thesis by (simp add: day_of_def midnight_def seconds_per_day_def)
qed

lemma midnight_day_of_le: "midnight (day_of t) \<le> t"
  using day_of_iff by blast

lemma lt_midnight_Suc_day_of: "t < midnight (day_of t + 1)"
  using day_of_iff by blast

lemma midnight_mono: "d \<le> e \<Longrightarrow> midnight d \<le> midnight e"
  by (simp add: midnight_def seconds_per_day_def)

lemma day_of_mono: "s \<le> t \<Longrightarrow> day_of s \<le> day_of t"
  by (simp add: day_of_def zdiv_mono1 seconds_per_day_def)

end
