(* ===== verification/Currency.thy ===== *)
theory Currency
  imports Prelude
begin

text \<open>
  Money formatting and rounding as the dashboard uses them.
  \<^item> \<open>format_currency(v, 'BRL', locale='pt_BR')\<close> (dashboard.py lines 30, 50, 78) is
    Babel's currency pattern of the pt_BR locale (currency sign, no-break space,
    \<open>#,##0.00\<close>) with the BRL sign \<open>R$\<close>:
    the value, read as a decimal, is quantized to the currency's two digits with the
    decimal context's ROUND_HALF_EVEN; the integer part is grouped by threes with
    \<open>.\<close>, the fraction follows \<open>,\<close>, and a negative value gets a leading \<open>-\<close>.
    The separator after \<open>R$\<close> is U+00A0, written here as its UTF-8 bytes.
  \<^item> \<open>Series.mean().round(2)\<close> (lines 36, 54) is numpy's \<open>round\<close>: scale by 100,
    round half to even, scale back (\<open>round2\<close>).
  Values are read exactly as rationals: the model is the decimal that \<open>str(float)\<close>
  prints, which is what Babel quantizes.
\<close>

definition round_half_even :: "rat \<Rightarrow> int" where
  "round_half_even q =
     (let f = \<lfloor>q\<rfloor>; d = q - of_int f in
      if d < 1/2 then f else if 1/2 < d then f + 1 else if even f then f else f + 1)"

definition round2 :: "rat \<Rightarrow> rat" where
  "round2 q = of_int (round_half_even (q * 100)) / 100"

definition digit_char :: "nat \<Rightarrow> char" where
  "digit_char n = char_of (48 + n)"

fun digits_of :: "nat \<Rightarrow> string" where
  "digits_of n = (if n < 10 then [digit_char n] else digits_of (n div 10) @ [digit_char (n mod 10)])"

definition pad_digits :: "nat \<Rightarrow> nat \<Rightarrow> string" where
  "pad_digits w n = replicate (w - length (digits_of n)) (CHR ''0'') @ digits_of n"

fun group_thousands :: "nat \<Rightarrow> string" where
  "group_thousands n =
     (if n < 1000 then digits_of n
      else group_thousands (n div 1000) @ ''.'' @ pad_digits 3 (n mod 1000))"

definition nbsp :: string where
  "nbsp = [CHR 0xC2, CHR 0xA0]"

definition format_currency_brl :: "money \<Rightarrow> string" where
  "format_currency_brl v =
     (let cents = nat (round_half_even (\<bar>v\<bar> * 100)) in
      (if v < 0 then ''-'' else '''') @ ''R$'' @ nbsp @
      group_thousands (cents div 100) @ '','' @ pad_digits 2 (cents mod 100))"

text \<open>
  Reading an amount back from its display: the inverse of \<open>format_currency_brl\<close>
  that a consumer of the metric string would apply. It models no code of the
  repository; it states what the display determines.
\<close>

definition digit_val :: "char \<Rightarrow> nat" where
  "digit_val c = of_char c - 48"

definition read_digits :: "string \<Rightarrow> nat" where
  "read_digits ds = foldl (\<lambda>acc c. 10 * acc + digit_val c) 0 ds"

definition parse_brl :: "string \<Rightarrow> rat option" where
  "parse_brl s =
     (let neg = (take 1 s = ''-''); s1 = (if neg then drop 1 s else s) in
      if take 4 s1 \<noteq> ''R$'' @ nbsp then None
      else
        let body = drop 4 s1;
            ip = takeWhile (\<lambda>c. c \<noteq> CHR '','') body;
            fp = drop (length ip + 1) body;
            v = of_nat (read_digits (filter (\<lambda>c. c \<noteq> CHR ''.'') ip)) + of_nat (read_digits fp) / 100
        in if length fp \<noteq> 2 then None else Some (if neg then - v else v))"

declare digits_of.simps [simp del] group_thousands.simps [simp del]

lemma digit_val_digit_char [simp]: "n < 10 \<Longrightarrow> digit_val (digit_char n) = n"
  by (simp add: digit_val_def digit_char_def)

lemma read_digits_snoc [simp]: "read_digits (xs @ [c]) = 10 * read_digits xs + digit_val c"
  by (simp add: read_digits_def)

lemma read_digits_append:
  "read_digits (xs @ ys) = read_digits xs * 10 ^ length ys + read_digits ys"
proof (induction ys rule: rev_induct)
  case Nil
  then show ?case by (simp add: read_digits_def)
next
  case (snoc y ys)
  then show ?case by (simp del: read_digits_snoc add: read_digits_snoc [of "xs @ ys", simplified]
        read_digits_snoc [of ys] algebra_simps)
qed

lemma read_digits_zeros [simp]: "read_digits (replicate k (CHR ''0'') @ xs) = read_digits xs"
proof -
  have "read_digits (replicate k (CHR ''0'')) = 0"
    by (induction k) (simp_all add: read_digits_def digit_val_def replicate_app_Cons_same)
  then show ?thesis by (simp add: read_digits_append)
qed

lemma read_digits_of [simp]: "read_digits (digits_of n) = n"
proof (induction n rule: digits_of.induct)
  case (1 n)
  show ?case
  proof (cases "n < 10")
    case True
    then show ?thesis by (simp add: digits_of.simps [of n] read_digits_def)
  next
    case False
    with "1" show ?thesis by (simp add: digits_of.simps [of n])
  qed
qed

lemma length_digits_of_le:
  "n < 10 ^ k \<Longrightarrow> 0 < k \<Longrightarrow> length (digits_of n) \<le> k"
proof (induction n arbitrary: k rule: digits_of.induct)
  case (1 n)
  show ?case
  proof (cases "n < 10")
    case True
    with "1.prems" show ?thesis by (simp add: digits_of.simps [of n])
  next
    case False
    then obtain k' where k: "k = Suc k'" and "0 < k'"
      using "1.prems" by (cases k) (auto simp: not_less, cases "k - 1", auto)
    moreover from "1.prems" k have "n div 10 < 10 ^ k'"
      by (simp add: div_less_iff_less_mult mult.commute)
    ultimately have "length (digits_of (n div 10)) \<le> k'"
      using "1.IH" False by blast
    with False k show ?thesis by (simp add: digits_of.simps [of n])
  qed
qed

lemma set_digits_of: "set (digits_of n) \<subseteq> digit_char ` {..<10}"
proof (induction n rule: digits_of.induct)
  case (1 n)
  then show ?case by (cases "n < 10") (auto simp: digits_of.simps [of n])
qed

lemma of_char_digit_char: "m < 10 \<Longrightarrow> of_char (digit_char m) = (48 + m :: nat)"
  by (simp add: digit_char_def of_char_of)

lemma digit_char_not_sep [simp]:
  assumes "m < 10"
  shows "digit_char m \<noteq> CHR '','' \<and> digit_char m \<noteq> CHR ''.''"
proof -
  have "of_char (digit_char m) = (48 + m :: nat)" using assms by (rule of_char_digit_char)
  moreover have "of_char (CHR '','') = (44::nat)" "of_char (CHR ''.'') = (46::nat)" by simp_all
  ultimately show ?thesis by auto
qed

lemma digits_of_no_sep [simp]:
  "CHR '','' \<notin> set (digits_of n) \<and> CHR ''.'' \<notin> set (digits_of n)"
proof -
  have "c \<noteq> CHR '','' \<and> c \<noteq> CHR ''.''" if "c \<in> set (digits_of n)" for c
  proof -
    from that set_digits_of obtain m where "m < 10" "c = digit_char m" by blast
    then show ?thesis by simp
  qed
  then show ?thesis by blast
qed

lemma length_pad_digits:
  "length (digits_of n) \<le> w \<Longrightarrow> length (pad_digits w n) = w"
  by (simp add: pad_digits_def)

lemma read_pad_digits [simp]: "read_digits (pad_digits w n) = n"
  by (simp add: pad_digits_def)

lemma pad_digits_no_sep [simp]:
  "CHR '','' \<notin> set (pad_digits w n) \<and> CHR ''.'' \<notin> set (pad_digits w n)"
  by (simp add: pad_digits_def)

lemma group_thousands_no_comma: "CHR '','' \<notin> set (group_thousands n)"
proof (induction n rule: group_thousands.induct)
  case (1 n)
  then show ?case by (cases "n < 1000") (simp_all add: group_thousands.simps [of n])
qed

lemma read_group_thousands:
  "read_digits (filter (\<lambda>c. c \<noteq> CHR ''.'') (group_thousands n)) = n"
proof (induction n rule: group_thousands.induct)
  case (1 n)
  show ?case
  proof (cases "n < 1000")
    case True
    have "filter (\<lambda>c. c \<noteq> CHR ''.'') (digits_of n) = digits_of n"
      using digits_of_no_sep [of n] by (auto simp: filter_id_conv)
    with True show ?thesis by (simp add: group_thousands.simps [of n])
  next
    case False
    have len: "length (pad_digits 3 (n mod 1000)) = 3"
      by (rule length_pad_digits, rule length_digits_of_le) simp_all
    have "filter (\<lambda>c. c \<noteq> CHR ''.'') (pad_digits 3 (n mod 1000)) = pad_digits 3 (n mod 1000)"
      using pad_digits_no_sep [of 3 "n mod 1000"] by (auto simp: filter_id_conv)
    with False "1.IH" len show ?thesis
      by (simp add: group_thousands.simps [of n] read_digits_append)
  qed
qed

lemma round_half_even_nonneg: "0 \<le> q \<Longrightarrow> 0 \<le> round_half_even q"
  by (simp add: round_half_even_def Let_def)

lemma cents_split: "(of_nat c / 100 :: rat) = of_nat (c div 100) + of_nat (c mod 100) / 100"
proof -
  have "c = c div 100 * 100 + c mod 100" by simp
  then have "(of_nat c :: rat) = of_nat (c div 100) * 100 + of_nat (c mod 100)"
    by (metis of_nat_add of_nat_mult of_nat_numeral)
  then show ?thesis by (simp add: field_simps)
qed

lemma parse_brl_format: "parse_brl ((if neg then ''-'' else '''') @ ''R$'' @ nbsp @
      group_thousands (c div 100) @ '','' @ pad_digits 2 (c mod 100)) =
   Some ((if neg then - 1 else 1) * (of_nat c / 100))"
proof -
  let ?G = "group_thousands (c div 100)" and ?P = "pad_digits 2 (c mod 100)"
  let ?body = "?G @ '','' @ ?P"
  have lenP: "length ?P = 2"
    by (rule length_pad_digits, rule length_digits_of_le) simp_all
  have "takeWhile (\<lambda>ch. ch \<noteq> CHR '','') ?body =
      ?G @ takeWhile (\<lambda>ch. ch \<noteq> CHR '','') ('','' @ ?P)"
    by (rule takeWhile_append2) (use group_thousands_no_comma in blast)
  then have ip: "takeWhile (\<lambda>ch. ch \<noteq> CHR '','') ?body = ?G" by simp
  have fp: "drop (length ?G + 1) ?body = ?P" by simp
  have val: "of_nat (read_digits (filter (\<lambda>ch. ch \<noteq> CHR ''.'') ?G)) +
      of_nat (read_digits ?P) / 100 = (of_nat c / 100 :: rat)"
    by (simp only: read_group_thousands read_pad_digits cents_split [symmetric])
  have hd: "take 4 (''R$'' @ nbsp @ ?body) = ''R$'' @ nbsp" "drop 4 (''R$'' @ nbsp @ ?body) = ?body"
    by (simp_all add: nbsp_def)
  show ?thesis
  proof (cases neg)
    case True
    then show ?thesis
      using ip fp val lenP hd by (simp add: parse_brl_def Let_def)
  next
    case False
    have "take 1 (''R$'' @ nbsp @ ?body) \<noteq> ''-''" by simp
    with False show ?thesis
      using ip fp val lenP hd by (simp add: parse_brl_def Let_def)
  qed
qed

lemma round_half_even_uminus: "round_half_even (- q) = - round_half_even q"
proof (cases "\<exists>k. q = of_int k")
  case True
  then obtain k where q: "q = of_int k" by blast
  then show ?thesis by (simp add: round_half_even_def Let_def)
next
  case False
  let ?d = "q - of_int \<lfloor>q\<rfloor>"
  have fl: "\<lfloor>- q\<rfloor> = - \<lfloor>q\<rfloor> - 1"
    using False by (auto simp: floor_minus ceiling_altdef)
  have d': "- q - of_int \<lfloor>- q\<rfloor> = 1 - ?d" by (simp add: fl)
  consider "?d < 1/2" | "1/2 < ?d" | "?d = 1/2" by linarith
  then show ?thesis
  proof cases
    case 1
    then have "\<not> 1 - ?d < 1/2" "1/2 < 1 - ?d" by simp_all
    with 1 show ?thesis by (simp add: round_half_even_def Let_def d' fl)
  next
    case 2
    then have "1 - ?d < 1/2" by simp
    with 2 show ?thesis by (simp add: round_half_even_def Let_def d' fl)
  next
    case 3
    then have "1 - ?d = 1/2" by simp
    with 3 show ?thesis by (simp add: round_half_even_def Let_def d' fl)
  qed
qed

lemma round_half_even_dist: "\<bar>of_int (round_half_even q) - q\<bar> \<le> 1/2"
proof -
  have "of_int \<lfloor>q\<rfloor> \<le> q" "q < of_int \<lfloor>q\<rfloor> + 1" using floor_correct [of q] by simp_all
  then show ?thesis by (auto simp: round_half_even_def Let_def)
qed

lemma round_half_even_ge_int: "of_int k \<le> q \<Longrightarrow> k \<le> round_half_even q"
proof -
  assume "of_int k \<le> q"
  then have "k \<le> \<lfloor>q\<rfloor>" by (simp add: le_floor_iff)
  then show ?thesis by (simp add: round_half_even_def Let_def)
qed

lemma round_half_even_le_int: "q \<le> of_int k \<Longrightarrow> round_half_even q \<le> k"
proof -
  assume q: "q \<le> of_int k"
  then have fl: "\<lfloor>q\<rfloor> \<le> k" by (simp add: floor_le_iff)
  show ?thesis
  proof (cases "\<lfloor>q\<rfloor> = k")
    case True
    with q have "q = of_int k" using of_int_floor_le [of q] by linarith
    with True show ?thesis by (simp add: round_half_even_def Let_def)
  next
    case False
    with fl show ?thesis by (simp add: round_half_even_def Let_def)
  qed
qed

lemma round2_within: "of_int a \<le> q \<Longrightarrow> q \<le> of_int b \<Longrightarrow> of_int a \<le> round2 q \<and> round2 q \<le> of_int b"
proof -
  assume a: "of_int a \<le> q" and b: "q \<le> of_int b"
  from a have "a * 100 \<le> round_half_even (q * 100)"
    by (intro round_half_even_ge_int) simp
  moreover from b have "round_half_even (q * 100) \<le> b * 100"
    by (intro round_half_even_le_int) simp
  ultimately show ?thesis by (simp add: round2_def field_simps)
qed

text \<open>
  C6: the revenue display round-trips. Reading back the string that
  \<open>format_currency(v, 'BRL', locale='pt_BR')\<close> displays gives exactly \<open>v\<close> rounded
  half-to-even to centavos: the grouping dots, the decimal comma, the sign and the
  two fraction digits lose nothing else.
\<close>

theorem format_currency_brl_roundtrip: "parse_brl (format_currency_brl v) = Some (round2 v)"
proof -
  define c where "c = nat (round_half_even (\<bar>v\<bar> * 100))"
  have c: "(of_nat c :: rat) = of_int (round_half_even (\<bar>v\<bar> * 100))"
    by (simp add: c_def round_half_even_nonneg)
  have "(if v < 0 then - 1 else 1) * (of_nat c / 100) = round2 v"
  proof (cases "v < 0")
    case True
    then have "\<bar>v\<bar> * 100 = - (v * 100)" by simp
    with True c show ?thesis by (simp add: round2_def round_half_even_uminus)
  next
    case False
    with c show ?thesis by (simp add: round2_def)
  qed
  then show ?thesis
    using parse_brl_format [of "v < 0" c] by (simp add: format_currency_brl_def c_def Let_def)
qed

text \<open>
  \<open>round(2)\<close> moves a mean by at most half a hundredth, and the currency display
  moves an amount by at most half a centavo.
\<close>

theorem round2_error_bound: "\<bar>round2 q - q\<bar> \<le> 1/200"
proof -
  have "\<bar>of_int (round_half_even (q * 100)) - q * 100\<bar> \<le> 1/2" by (rule round_half_even_dist)
  then have "\<bar>(of_int (round_half_even (q * 100)) - q * 100) / 100\<bar> \<le> 1/200" by simp
  moreover have "(of_int (round_half_even (q * 100)) - q * 100) / 100 = round2 q - q"
    by (simp add: round2_def field_simps)
  ultimately show ?thesis by simp
qed

end
