(* ===== verification/Timestamps.thy ===== *)
theory Timestamps
  imports Orders Currency
begin

text \<open>
  The timestamp conversion of the loaded table and the dates of the sidebar.
  \<^item> \<open>to_datetime\<close> (dashboard.py lines 399--409): \<open>pd.to_datetime\<close> on each of the six
    date columns of the CSV, whose cells are \<open>YYYY-MM-DD HH:MM:SS\<close> strings or NaN.
    A missing cell becomes NaT (\<open>None\<close>); a string that is not a valid date and time
    raises ValueError (pandas' \<open>DateParseError\<close>); otherwise the cell becomes seconds
    since the epoch (\<open>parse_datetime\<close>).
  \<^item> \<open>str_date\<close> (lines 428--429): \<open>str(start_date)\<close> of the \<open>datetime.date\<close> the
    sidebar returns, \<open>YYYY-MM-DD\<close> with a four-digit year; pandas reads the string it
    compares with a datetime column as that date at midnight (\<open>parse_date\<close>).
  The calendar is the proleptic Gregorian one of numpy's \<open>datetime64\<close>:
  \<open>days_from_civil\<close> counts days from 1970-01-01, and \<open>civil_from_days\<close> inverts it
  by a downward search for the year (\<open>year_down\<close>, a \<open>function\<close> with a
  termination measure) and a walk through the month lengths (\<open>month_day_from\<close>). It
  is modelled by its definition, not by numpy's closed-form algorithm. Only the two
  ISO layouts the data and the sidebar produce are modelled among the many string
  formats pandas accepts.
  \<open>datetime_cols\<close> and \<open>convert_datetime_cols\<close> (lines 400--410) are the loop over
  the six columns of a table given as named columns; \<open>ns_bounded\<close> is the range of
  \<open>datetime64[ns]\<close> (OutOfBoundsDatetime, a ValueError). \<open>format_datetime\<close> is the
  layout of the date cells in the CSV file; it models no code and states which strings
  the conversion reads back unchanged.
\<close>

definition is_leap :: "int \<Rightarrow> bool" where
  "is_leap y \<longleftrightarrow> 4 dvd y \<and> (\<not> 100 dvd y \<or> 400 dvd y)"

definition year_len :: "int \<Rightarrow> int" where
  "year_len y = (if is_leap y then 366 else 365)"

definition leaps_before :: "int \<Rightarrow> int" where
  "leaps_before y = (y - 1) div 4 - (y - 1) div 100 + (y - 1) div 400"

definition days_before_year :: "int \<Rightarrow> int" where
  "days_before_year y = 365 * (y - 1970) + (leaps_before y - leaps_before 1970)"

definition month_lengths :: "int \<Rightarrow> int list" where
  "month_lengths y = [31, if is_leap y then 29 else 28, 31, 30, 31, 30, 31, 31, 30, 31, 30, 31]"

definition days_before_month :: "int \<Rightarrow> int \<Rightarrow> int" where
  "days_before_month y m = sum_list (take (nat (m - 1)) (month_lengths y))"

definition valid_date :: "int \<Rightarrow> int \<Rightarrow> int \<Rightarrow> bool" where
  "valid_date y m d \<longleftrightarrow> 1 \<le> m \<and> m \<le> 12 \<and> 1 \<le> d \<and> d \<le> month_lengths y ! nat (m - 1)"

definition days_from_civil :: "int \<Rightarrow> int \<Rightarrow> int \<Rightarrow> day" where
  "days_from_civil y m d = days_before_year y + days_before_month y m + d - 1"

function year_down :: "int \<Rightarrow> int \<Rightarrow> int" where
  "year_down z y = (if days_before_year y \<le> z then y else year_down z (y - 1))"
  by auto

definition year_of_day :: "day \<Rightarrow> int" where
  "year_of_day z = year_down z (1971 + (if 0 \<le> z then z div 365 else z div 366))"

fun month_day_from :: "int list \<Rightarrow> int \<Rightarrow> int \<Rightarrow> int \<times> int" where
  "month_day_from [] m r = (m, r + 1)"
| "month_day_from (l # ls) m r =
     (if r < l \<or> ls = [] then (m, r + 1) else month_day_from ls (m + 1) (r - l))"

definition civil_from_days :: "day \<Rightarrow> int \<times> int \<times> int" where
  "civil_from_days z =
     (let y = year_of_day z;
          (m, d) = month_day_from (month_lengths y) 1 (z - days_before_year y)
      in (y, m, d))"

definition is_digit :: "char \<Rightarrow> bool" where
  "is_digit c \<longleftrightarrow> 48 \<le> (of_char c :: nat) \<and> (of_char c :: nat) \<le> 57"

definition read_field :: "string \<Rightarrow> int option" where
  "read_field s = (if s \<noteq> [] \<and> list_all is_digit s then Some (int (read_digits s)) else None)"

definition iso_date :: "int \<times> int \<times> int \<Rightarrow> string" where
  "iso_date ymd = (case ymd of (y, m, d) \<Rightarrow>
     pad_digits 4 (nat y) @ ''-'' @ pad_digits 2 (nat m) @ ''-'' @ pad_digits 2 (nat d))"

definition str_date :: "day \<Rightarrow> string" where
  "str_date d = iso_date (civil_from_days d)"

definition parse_date :: "string \<Rightarrow> day option" where
  "parse_date s =
     (if length s = 10 \<and> s ! 4 = CHR ''-'' \<and> s ! 7 = CHR ''-'' then
        (case (read_field (take 4 s), read_field (take 2 (drop 5 s)), read_field (drop 8 s)) of
           (Some y, Some m, Some d) \<Rightarrow>
             if 1 \<le> y \<and> valid_date y m d then Some (days_from_civil y m d) else None
         | _ \<Rightarrow> None)
      else None)"

definition date_operand :: "string \<Rightarrow> timestamp option" where
  "date_operand s = map_option midnight (parse_date s)"

definition parse_datetime :: "string \<Rightarrow> timestamp option" where
  "parse_datetime s =
     (if length s = 19 \<and> s ! 10 = CHR '' '' \<and> s ! 13 = CHR '':'' \<and> s ! 16 = CHR '':'' then
        (case (parse_date (take 10 s), read_field (take 2 (drop 11 s)),
               read_field (take 2 (drop 14 s)), read_field (drop 17 s)) of
           (Some d, Some hh, Some mm, Some ss) \<Rightarrow>
             if hh < 24 \<and> mm < 60 \<and> ss < 60 then Some (midnight d + hh * 3600 + mm * 60 + ss) else None
         | _ \<Rightarrow> None)
      else None)"

definition ns_bounded :: "timestamp \<Rightarrow> bool" where
  "ns_bounded t \<longleftrightarrow> - (2 ^ 63 - 1) \<le> t * 10 ^ 9 \<and> t * 10 ^ 9 \<le> 2 ^ 63 - 1"

definition to_datetime_cell :: "string option \<Rightarrow> timestamp option option" where
  "to_datetime_cell c =
     (case c of
        None \<Rightarrow> Some None
      | Some s \<Rightarrow> (case parse_datetime s of
                    Some t \<Rightarrow> if ns_bounded t then Some (Some t) else None
                  | None \<Rightarrow> None))"

definition to_datetime :: "string option list \<Rightarrow> py_error + timestamp option list" where
  "to_datetime col = (case those (map to_datetime_cell col) of None \<Rightarrow> Inl ValueError | Some ts \<Rightarrow> Inr ts)"

definition datetime_cols :: "string list" where
  "datetime_cols = [''order_approved_at'', ''order_delivered_carrier_date'',
     ''order_delivered_customer_date'', ''order_estimated_delivery_date'',
     ''order_purchase_timestamp'', ''shipping_limit_date'']"

fun convert_datetime_cols ::
  "string list \<Rightarrow> (string \<rightharpoonup> string option list) \<Rightarrow> (string \<rightharpoonup> timestamp option list) \<Rightarrow>
   py_error + (string \<rightharpoonup> timestamp option list)" where
  "convert_datetime_cols [] raw acc = Inr acc"
| "convert_datetime_cols (c # cs) raw acc =
     (case raw c of
        None \<Rightarrow> Inl KeyError
      | Some col \<Rightarrow> (case to_datetime col of
                      Inl e \<Rightarrow> Inl e
                    | Inr ts \<Rightarrow> convert_datetime_cols cs raw (acc(c \<mapsto> ts))))"

definition format_datetime :: "timestamp \<Rightarrow> string" where
  "format_datetime t =
     (let s = t mod seconds_per_day in
      str_date (day_of t) @ '' '' @ pad_digits 2 (nat (s div 3600)) @ '':'' @
      pad_digits 2 (nat (s mod 3600 div 60)) @ '':'' @ pad_digits 2 (nat (s mod 60)))"

definition date_field :: "string \<Rightarrow> order_row \<Rightarrow> timestamp option" where
  "date_field c r =
     (if c = ''order_approved_at'' then order_approved_at r
      else if c = ''order_delivered_carrier_date'' then order_delivered_carrier_date r
      else if c = ''order_delivered_customer_date'' then order_delivered_customer_date r
      else if c = ''order_estimated_delivery_date'' then order_estimated_delivery_date r
      else if c = ''order_purchase_timestamp'' then order_purchase_timestamp r
      else if c = ''shipping_limit_date'' then shipping_limit_date r
      else None)"

definition set_date_field :: "string \<Rightarrow> timestamp option \<Rightarrow> order_row \<Rightarrow> order_row" where
  "set_date_field c t r =
     (if c = ''order_approved_at'' then r\<lparr>order_approved_at := t\<rparr>
      else if c = ''order_delivered_carrier_date'' then r\<lparr>order_delivered_carrier_date := t\<rparr>
      else if c = ''order_delivered_customer_date'' then r\<lparr>order_delivered_customer_date := t\<rparr>
      else if c = ''order_estimated_delivery_date'' then r\<lparr>order_estimated_delivery_date := t\<rparr>
      else if c = ''order_purchase_timestamp'' then r\<lparr>order_purchase_timestamp := t\<rparr>
      else if c = ''shipping_limit_date'' then r\<lparr>shipping_limit_date := t\<rparr>
      else r)"

definition set_date_column :: "string \<Rightarrow> timestamp option list \<Rightarrow> order_row list \<Rightarrow> order_row list" where
  "set_date_column c ts rows =
     map2 (set_date_field c) (ts @ replicate (length rows - length ts) None) rows"

definition load_all_df :: "order_row list \<Rightarrow> (string \<rightharpoonup> string option list) \<Rightarrow> py_error + orders_table" where
  "load_all_df rows raw =
     (case convert_datetime_cols datetime_cols raw Map.empty of
        Inl e \<Rightarrow> Inl e
      | Inr cols \<Rightarrow> Inr (fold (\<lambda>c rs. set_date_column c (the (cols c)) rs) datetime_cols rows))"

lemma div_step:
  fixes x k :: int
  assumes "0 < k"
  shows "x div k - (x - 1) div k = (if k dvd x then 1 else 0)"
proof -
  define q r where "q = x div k" and "r = x mod k"
  have x: "x = q * k + r" and r: "0 \<le> r" "r < k" using assms by (simp_all add: q_def r_def)
  have dvd: "k dvd x \<longleftrightarrow> r = 0" by (simp add: r_def dvd_eq_mod_eq_0)
  have "(x - 1) div k = (if r = 0 then q - 1 else q)"
    using r unfolding x by (simp add: int_div_eq_iff [OF assms] algebra_simps)
  then show ?thesis by (simp add: q_def [symmetric] dvd)
qed

lemma leaps_step: "leaps_before (y + 1) - leaps_before y = (if is_leap y then 1 else 0)"
proof -
  have "leaps_before (y + 1) - leaps_before y =
      (y div 4 - (y - 1) div 4) - (y div 100 - (y - 1) div 100) + (y div 400 - (y - 1) div 400)"
    unfolding leaps_before_def by (simp only: add_diff_cancel_right')
  also have "\<dots> = (if 4 dvd y then 1 else 0) - (if 100 dvd y then 1 else 0) + (if 400 dvd y then 1 else 0)"
    by (simp only: div_step zero_less_numeral)
  also have "\<dots> = (if is_leap y then 1 else 0)"
  proof -
    have "400 dvd y \<Longrightarrow> 100 dvd y" by (rule dvd_trans [of 100 400]) simp_all
    moreover have "100 dvd y \<Longrightarrow> 4 dvd y" by (rule dvd_trans [of 4 100]) simp_all
    ultimately show ?thesis unfolding is_leap_def
      by (cases "4 dvd y"; cases "100 dvd y"; cases "400 dvd y") simp_all
  qed
  finally show ?thesis .
qed

lemma days_before_year_succ: "days_before_year (y + 1) = days_before_year y + year_len y"
  using leaps_step [of y] by (simp add: days_before_year_def year_len_def algebra_simps)

termination year_down
proof (relation "measure (\<lambda>(z, y). nat (days_before_year y - z))")
  show "wf (measure (\<lambda>(z, y). nat (days_before_year y - z)))" by simp
next
  fix z y :: int
  assume "\<not> days_before_year y \<le> z"
  moreover have "days_before_year (y - 1) < days_before_year y"
    using days_before_year_succ [of "y - 1"] by (simp add: year_len_def)
  ultimately show "((z, y - 1), z, y) \<in> measure (\<lambda>(z, y). nat (days_before_year y - z))" by simp
qed

declare year_down.simps [simp del]

lemma days_before_year_mono: "y1 \<le> y2 \<Longrightarrow> days_before_year y1 \<le> days_before_year y2"
proof -
  assume "y1 \<le> y2"
  then obtain n where y2: "y2 = y1 + int n" by (metis zle_iff_zadd)
  have "days_before_year y1 \<le> days_before_year (y1 + int n)"
  proof (induction n)
    case 0
    then show ?case by simp
  next
    case (Suc n)
    have e: "y1 + int (Suc n) = (y1 + int n) + 1" by simp
    show ?case unfolding e using Suc days_before_year_succ [of "y1 + int n"] by (simp add: year_len_def)
  qed
  then show ?thesis by (simp add: y2)
qed

lemma days_before_year_up: "365 * int n \<le> days_before_year (1970 + int n)"
proof (induction n)
  case 0
  then show ?case by (simp add: days_before_year_def)
next
  case (Suc n)
  then show ?case using days_before_year_succ [of "1970 + int n"]
    by (simp add: year_len_def algebra_simps split: if_splits)
qed

lemma days_before_year_down: "- 366 * int n \<le> days_before_year (1970 - int n)"
proof (induction n)
  case 0
  then show ?case by (simp add: days_before_year_def)
next
  case (Suc n)
  then show ?case using days_before_year_succ [of "1970 - int (Suc n)"]
    by (simp add: year_len_def algebra_simps split: if_splits)
qed

lemma year_down_bracket:
  "z < days_before_year (y + 1) \<Longrightarrow>
   days_before_year (year_down z y) \<le> z \<and> z < days_before_year (year_down z y + 1)"
proof (induction z y rule: year_down.induct)
  case (1 z y)
  show ?case
  proof (cases "days_before_year y \<le> z")
    case True
    with "1.prems" show ?thesis by (simp add: year_down.simps [of z y])
  next
    case False
    then have "z < days_before_year (y - 1 + 1)" by simp
    with "1.IH" False show ?thesis by (simp add: year_down.simps [of z y])
  qed
qed

lemma year_start_above: "z < days_before_year (1971 + (if 0 \<le> z then z div 365 else z div 366))"
proof (cases "0 \<le> z")
  case True
  define n where "n = nat (z div 365 + 1)"
  have n: "1971 + z div 365 = 1970 + int n" "z < 365 * int n" using True by (simp_all add: n_def)
  have "365 * int n \<le> days_before_year (1971 + z div 365)" unfolding n(1) by (rule days_before_year_up)
  with True n(2) show ?thesis by simp
next
  case False
  define n where "n = nat (- (z div 366) - 1)"
  have "z div 366 < 0" using False by simp
  then have n: "1971 + z div 366 = 1970 - int n" "z < - 366 * int n" by (simp_all add: n_def)
  have "- 366 * int n \<le> days_before_year (1971 + z div 366)" unfolding n(1) by (rule days_before_year_down)
  with False n(2) show ?thesis by simp
qed

lemma year_of_day_bracket:
  "days_before_year (year_of_day z) \<le> z \<and> z < days_before_year (year_of_day z + 1)"
proof -
  let ?y = "1971 + (if 0 \<le> z then z div 365 else z div 366)"
  have "days_before_year ?y \<le> days_before_year (?y + 1)" by (rule days_before_year_mono) simp
  with year_start_above [of z] have "z < days_before_year (?y + 1)" by linarith
  then show ?thesis unfolding year_of_day_def by (rule year_down_bracket)
qed

lemma year_of_day_unique:
  assumes "days_before_year y \<le> z" and "z < days_before_year (y + 1)"
  shows "year_of_day z = y"
proof (rule ccontr)
  let ?y = "year_of_day z"
  assume ne: "?y \<noteq> y"
  note b = year_of_day_bracket [of z]
  show False
  proof (cases "?y < y")
    case True
    then have "days_before_year (?y + 1) \<le> days_before_year y" by (intro days_before_year_mono) simp
    with b assms show False by linarith
  next
    case False
    with ne have "y + 1 \<le> ?y" by simp
    then have "days_before_year (y + 1) \<le> days_before_year ?y" by (rule days_before_year_mono)
    with b assms show False by linarith
  qed
qed

lemma sum_list_take_nonneg:
  fixes ls :: "int list"
  assumes "\<forall>l\<in>set ls. 0 < l"
  shows "0 \<le> sum_list (take k ls)"
  using assms
proof (induction ls arbitrary: k)
  case Nil
  then show ?case by simp
next
  case (Cons l ls)
  then show ?case by (cases k) (simp_all add: add_nonneg_nonneg less_imp_le)
qed

lemma sum_list_take_le:
  fixes ls :: "int list"
  assumes "\<forall>l\<in>set ls. 0 < l" and "k < length ls"
  shows "sum_list (take k ls) + ls ! k \<le> sum_list ls"
proof -
  have "sum_list ls = sum_list (take (Suc k) ls) + sum_list (drop (Suc k) ls)"
    by (simp only: sum_list_append [symmetric] append_take_drop_id)
  moreover have "0 \<le> sum_list (drop (Suc k) ls)"
    using assms(1) by (intro sum_list_nonneg) (meson in_set_dropD less_imp_le)
  ultimately show ?thesis using assms(2) by (simp add: take_Suc_conv_app_nth)
qed

lemma month_day_from_sum:
  assumes "\<forall>l\<in>set ls. 0 < l" and "k < length ls" and "0 \<le> d" and "d < ls ! k"
  shows "month_day_from ls m (sum_list (take k ls) + d) = (m + int k, d + 1)"
  using assms
proof (induction ls arbitrary: k m)
  case Nil
  then show ?case by simp
next
  case (Cons l ls)
  show ?case
  proof (cases k)
    case 0
    with Cons.prems show ?thesis by simp
  next
    case (Suc k')
    with Cons.prems have ne: "ls \<noteq> []" and k': "k' < length ls" "d < ls ! k'" by auto
    have "0 \<le> sum_list (take k' ls)" using Cons.prems(1) by (intro sum_list_take_nonneg) simp
    with Cons.prems(3) have "\<not> l + sum_list (take k' ls) + d < l" by simp
    moreover have "month_day_from ls (m + 1) (sum_list (take k' ls) + d) = (m + 1 + int k', d + 1)"
      using Cons.IH Cons.prems(1,3) k' by simp
    ultimately show ?thesis using Suc ne by (simp add: add.assoc)
  qed
qed

lemma month_day_from_inv:
  assumes "\<forall>l\<in>set ls. 0 < l" and "0 \<le> r" and "r < sum_list ls" and "month_day_from ls m r = (m', d)"
  shows "\<exists>k < length ls. m' = m + int k \<and> r = sum_list (take k ls) + d - 1 \<and> 1 \<le> d \<and> d \<le> ls ! k"
  using assms
proof (induction ls arbitrary: m r)
  case Nil
  then show ?case by simp
next
  case (Cons l ls)
  show ?case
  proof (cases "r < l \<or> ls = []")
    case True
    with Cons.prems show ?thesis by (auto intro!: exI [of _ 0])
  next
    case False
    then have r: "0 \<le> r - l" "r - l < sum_list ls" using Cons.prems(3) by auto
    from False Cons.prems(4) have md: "month_day_from ls (m + 1) (r - l) = (m', d)" by simp
    have "\<exists>k < length ls. m' = m + 1 + int k \<and> r - l = sum_list (take k ls) + d - 1 \<and> 1 \<le> d \<and> d \<le> ls ! k"
      by (rule Cons.IH) (use Cons.prems(1) r md in simp_all)
    then obtain k where
      "k < length ls" "m' = m + 1 + int k" "r - l = sum_list (take k ls) + d - 1" "1 \<le> d" "d \<le> ls ! k"
      by blast
    then show ?thesis by (intro exI [of _ "Suc k"]) simp
  qed
qed

lemma month_lengths_facts:
  "length (month_lengths y) = 12 \<and> (\<forall>l\<in>set (month_lengths y). 0 < l) \<and> sum_list (month_lengths y) = year_len y"
  by (simp add: month_lengths_def year_len_def)

lemma civil_from_days_correct:
  assumes "civil_from_days z = (y, m, d)"
  shows "valid_date y m d \<and> days_from_civil y m d = z"
proof -
  obtain m0 d0 where md0: "month_day_from (month_lengths (year_of_day z)) 1 (z - days_before_year (year_of_day z)) = (m0, d0)"
    by fastforce
  with assms have y: "y = year_of_day z" and md: "month_day_from (month_lengths y) 1 (z - days_before_year y) = (m, d)"
    by (simp_all add: civil_from_days_def Let_def)
  let ?r = "z - days_before_year y"
  have "0 \<le> ?r" "?r < sum_list (month_lengths y)"
    using year_of_day_bracket [of z] days_before_year_succ [of y] month_lengths_facts [of y]
    by (simp_all add: y [symmetric])
  then obtain k where
    k: "k < 12" "m = 1 + int k" "?r = sum_list (take k (month_lengths y)) + d - 1" "1 \<le> d"
       "d \<le> month_lengths y ! k"
    using month_day_from_inv [OF _ _ _ md] month_lengths_facts [of y] by auto
  have "nat (m - 1) = k" using k(2) by simp
  with k show ?thesis by (simp add: valid_date_def days_from_civil_def days_before_month_def)
qed

lemma civil_from_days_of:
  assumes "valid_date y m d"
  shows "civil_from_days (days_from_civil y m d) = (y, m, d)"
proof -
  let ?k = "nat (m - 1)"
  let ?ls = "month_lengths y"
  have k: "?k < 12" "m = 1 + int ?k" "0 \<le> d - 1" "d - 1 < ?ls ! ?k"
    using assms by (auto simp: valid_date_def)
  have f: "length ?ls = 12" "\<forall>l\<in>set ?ls. 0 < l" "sum_list ?ls = year_len y"
    using month_lengths_facts [of y] by simp_all
  have top: "sum_list (take ?k ?ls) + ?ls ! ?k \<le> year_len y"
    using sum_list_take_le [OF f(2)] k(1) f(1,3) by simp
  have nn: "0 \<le> sum_list (take ?k ?ls)" using f(2) by (rule sum_list_take_nonneg)
  let ?z = "days_from_civil y m d"
  have z: "?z - days_before_year y = sum_list (take ?k ?ls) + (d - 1)"
    by (simp add: days_from_civil_def days_before_month_def)
  have yz: "year_of_day ?z = y"
  proof (rule year_of_day_unique)
    show "days_before_year y \<le> ?z" using z nn k(3) by linarith
    show "?z < days_before_year (y + 1)"
      using z top k(4) days_before_year_succ [of y] by linarith
  qed
  have "month_day_from ?ls 1 (sum_list (take ?k ?ls) + (d - 1)) = (1 + int ?k, d - 1 + 1)"
    using month_day_from_sum [OF f(2)] k f(1) by simp
  then show ?thesis using z yz k(2) by (simp add: civil_from_days_def Let_def)
qed

lemma is_digit_pad_digits: "list_all is_digit (pad_digits w n)"
proof -
  have "is_digit c" if "c \<in> set (digits_of n)" for c
  proof -
    from that set_digits_of obtain m where "m < 10" "c = digit_char m" by blast
    then show ?thesis by (simp add: is_digit_def of_char_digit_char)
  qed
  then show ?thesis by (auto simp: pad_digits_def list_all_iff is_digit_def)
qed

lemma pad_digits_field:
  assumes "n < 10 ^ w" and "0 < w"
  shows "length (pad_digits w n) = w \<and> read_field (pad_digits w n) = Some (int n)"
proof -
  have "length (pad_digits w n) = w"
    using length_digits_of_le [OF assms] by (rule length_pad_digits)
  with assms(2) show ?thesis by (auto simp: read_field_def is_digit_pad_digits)
qed

lemma valid_date_le_31: "valid_date y m d \<Longrightarrow> d \<le> 31"
proof -
  assume v: "valid_date y m d"
  then have "month_lengths y ! nat (m - 1) \<in> set (month_lengths y)"
    using month_lengths_facts [of y] by (intro nth_mem) (simp add: valid_date_def nat_less_iff)
  then have "month_lengths y ! nat (m - 1) \<le> 31" by (auto simp: month_lengths_def)
  with v show ?thesis by (simp add: valid_date_def)
qed

lemma parse_iso_date:
  assumes v: "valid_date y m d" and y: "1 \<le> y" "y \<le> 9999"
  shows "length (iso_date (y, m, d)) = 10 \<and> parse_date (iso_date (y, m, d)) = Some (days_from_civil y m d)"
proof -
  have m: "1 \<le> m" "m \<le> 12" and dd: "1 \<le> d" "d \<le> 31" using v valid_date_le_31 [OF v] by (auto simp: valid_date_def)
  define a where "a = pad_digits 4 (nat y)"
  define b where "b = pad_digits 2 (nat m)"
  define c where "c = pad_digits 2 (nat d)"
  have a: "length a = 4" "read_field a = Some y" unfolding a_def using y pad_digits_field [of "nat y" 4] by simp_all
  have b: "length b = 2" "read_field b = Some m" unfolding b_def using m pad_digits_field [of "nat m" 2] by simp_all
  have c: "length c = 2" "read_field c = Some d" unfolding c_def using dd pad_digits_field [of "nat d" 2] by simp_all
  have s: "iso_date (y, m, d) = a @ CHR ''-'' # b @ CHR ''-'' # c" by (simp add: iso_date_def a_def b_def c_def)
  have "take 2 (drop 5 (a @ CHR ''-'' # b @ CHR ''-'' # c)) = b" "drop 8 (a @ CHR ''-'' # b @ CHR ''-'' # c) = c"
    using a(1) b(1) by simp_all
  then show ?thesis unfolding s using a b c v y by (simp add: parse_date_def nth_append)
qed

lemma civil_from_days_year: "fst (civil_from_days z) = year_of_day z"
  by (simp add: civil_from_days_def Let_def split: prod.splits)

lemma str_date_parse:
  assumes "1 \<le> year_of_day d" and "year_of_day d \<le> 9999"
  shows "length (str_date d) = 10 \<and> parse_date (str_date d) = Some d"
proof -
  obtain y m dd where c: "civil_from_days d = (y, m, dd)" by (cases "civil_from_days d") auto
  with civil_from_days_correct have v: "valid_date y m dd" "days_from_civil y m dd = d" by blast+
  from c civil_from_days_year [of d] assms have "1 \<le> y" "y \<le> 9999" by simp_all
  with v parse_iso_date show ?thesis by (simp add: str_date_def c)
qed

lemma ns_bounded_day:
  assumes "ns_bounded t"
  shows "- 106752 \<le> day_of t \<and> day_of t \<le> 106751"
proof -
  have lo: "- 9223372036854775807 \<le> t * 1000000000" and hi: "t * 1000000000 \<le> 9223372036854775807"
    using assms by (simp_all add: ns_bounded_def)
  have "- 9223372036 \<le> t"
  proof (rule ccontr)
    assume "\<not> - 9223372036 \<le> t"
    then have "t \<le> - 9223372037" by simp
    then have "t * 1000000000 \<le> - 9223372037 * 1000000000" by (rule mult_right_mono) simp
    with lo show False by simp
  qed
  moreover have "t \<le> 9223372036"
  proof (rule ccontr)
    assume "\<not> t \<le> 9223372036"
    then have "9223372037 \<le> t" by simp
    then have "9223372037 * 1000000000 \<le> t * 1000000000" by (rule mult_right_mono) simp
    with hi show False by simp
  qed
  ultimately have "- 9223372036 div 86400 \<le> t div 86400" "t div 86400 \<le> 9223372036 div 86400"
    by (simp_all add: zdiv_mono1)
  then show ?thesis by (simp add: day_of_def seconds_per_day_def)
qed

lemma year_of_day_range:
  assumes "- 106752 \<le> z" and "z \<le> 106751"
  shows "1 \<le> year_of_day z \<and> year_of_day z \<le> 9999"
proof -
  have b: "days_before_year (year_of_day z) \<le> z" "z < days_before_year (year_of_day z + 1)"
    using year_of_day_bracket [of z] by simp_all
  have "days_before_year 1 = - 719162" "days_before_year 10000 = 2932897"
    by (simp_all add: days_before_year_def leaps_before_def)
  moreover have "year_of_day z + 1 \<le> 1 \<Longrightarrow> days_before_year (year_of_day z + 1) \<le> days_before_year 1"
    "10000 \<le> year_of_day z \<Longrightarrow> days_before_year 10000 \<le> days_before_year (year_of_day z)"
    by (simp_all add: days_before_year_mono)
  ultimately show ?thesis using assms b by fastforce
qed

lemma clock_split:
  fixes s :: int
  assumes "0 \<le> s" and "s < 86400"
  shows "0 \<le> s div 3600 \<and> s div 3600 < 24 \<and> 0 \<le> s mod 3600 div 60 \<and> s mod 3600 div 60 < 60 \<and>
    0 \<le> s mod 60 \<and> s mod 60 < 60 \<and> s div 3600 * 3600 + s mod 3600 div 60 * 60 + s mod 60 = s"
proof -
  have e1: "s div 3600 * 3600 + s mod 3600 = s" by (rule div_mult_mod_eq)
  have e2: "s mod 3600 div 60 * 60 + s mod 3600 mod 60 = s mod 3600" by (rule div_mult_mod_eq)
  have e3: "s mod 3600 mod 60 = s mod 60" by (rule mod_mod_cancel) simp
  have "s div 3600 < 24" using assms by (simp add: div_less_iff_less_mult)
  moreover have "s mod 3600 div 60 < 60" using pos_mod_bound [of 3600 s] by (simp add: div_less_iff_less_mult)
  moreover have "s div 3600 * 3600 + s mod 3600 div 60 * 60 + s mod 60 = s" using e1 e2 e3 by linarith
  ultimately show ?thesis using assms by (simp add: pos_imp_zdiv_nonneg_iff)
qed

lemma pad_digits_field_int:
  assumes "0 \<le> i" and "i < 10 ^ w" and "0 < w"
  shows "length (pad_digits w (nat i)) = w \<and> read_field (pad_digits w (nat i)) = Some i"
proof -
  have "nat i < 10 ^ w" using assms(1,2) by (simp add: nat_less_iff)
  with pad_digits_field [OF _ assms(3)] assms(1) show ?thesis by simp
qed

lemma parse_format_datetime:
  assumes "ns_bounded t"
  shows "parse_datetime (format_datetime t) = Some t"
proof -
  let ?s = "t mod seconds_per_day"
  have s: "0 \<le> ?s" "?s < 86400" by (simp_all add: seconds_per_day_def)
  note cs = clock_split [OF s]
  define hh where "hh = pad_digits 2 (nat (?s div 3600))"
  define mm where "mm = pad_digits 2 (nat (?s mod 3600 div 60))"
  define ss where "ss = pad_digits 2 (nat (?s mod 60))"
  have hh: "length hh = 2" "read_field hh = Some (?s div 3600)"
    unfolding hh_def using cs pad_digits_field_int [of "?s div 3600" 2] by simp_all
  have mm: "length mm = 2" "read_field mm = Some (?s mod 3600 div 60)"
    unfolding mm_def using cs pad_digits_field_int [of "?s mod 3600 div 60" 2] by simp_all
  have ss: "length ss = 2" "read_field ss = Some (?s mod 60)"
    unfolding ss_def using cs pad_digits_field_int [of "?s mod 60" 2] by simp_all
  have "1 \<le> year_of_day (day_of t) \<and> year_of_day (day_of t) \<le> 9999"
    using ns_bounded_day [OF assms] by (simp add: year_of_day_range)
  then have dt: "length (str_date (day_of t)) = 10" "parse_date (str_date (day_of t)) = Some (day_of t)"
    using str_date_parse by simp_all
  have f: "format_datetime t = str_date (day_of t) @ CHR '' '' # hh @ CHR '':'' # mm @ CHR '':'' # ss"
    by (simp add: format_datetime_def Let_def hh_def mm_def ss_def)
  have t: "midnight (day_of t) + ?s div 3600 * 3600 + ?s mod 3600 div 60 * 60 + ?s mod 60 = t"
  proof -
    have "day_of t * seconds_per_day + ?s = t" unfolding day_of_def by (rule div_mult_mod_eq)
    then show ?thesis using cs unfolding midnight_def by linarith
  qed
  let ?x = "str_date (day_of t) @ CHR '' '' # hh @ CHR '':'' # mm @ CHR '':'' # ss"
  have "take 10 ?x = str_date (day_of t)" "take 2 (drop 11 ?x) = hh" "take 2 (drop 14 ?x) = mm"
    "drop 17 ?x = ss" using dt(1) hh(1) mm(1) by simp_all
  then show ?thesis unfolding f using dt hh mm ss cs t by (simp add: parse_datetime_def nth_append)
qed

lemma those_Some_iff: "those xs = Some ys \<longleftrightarrow> list_all2 (\<lambda>x y. x = Some y) xs ys"
proof (induction xs arbitrary: ys)
  case Nil
  then show ?case by auto
next
  case (Cons x xs)
  then show ?case by (cases ys) (auto split: option.splits)
qed

lemma those_None_iff: "those xs = None \<longleftrightarrow> None \<in> set xs"
  by (induction xs) (auto split: option.splits)

lemma to_datetime_Inr:
  "to_datetime col = Inr ts \<longleftrightarrow> list_all2 (\<lambda>c t. to_datetime_cell c = Some t) col ts"
proof -
  have "to_datetime col = Inr ts \<longleftrightarrow> those (map to_datetime_cell col) = Some ts"
    by (auto simp: to_datetime_def split: option.splits)
  then show ?thesis by (simp add: those_Some_iff list_all2_map1)
qed

lemma to_datetime_Inl:
  "to_datetime col = Inl e \<longleftrightarrow> e = ValueError \<and> (\<exists>c\<in>set col. to_datetime_cell c = None)"
proof -
  have "to_datetime col = Inl e \<longleftrightarrow> e = ValueError \<and> those (map to_datetime_cell col) = None"
    by (auto simp: to_datetime_def split: option.splits)
  moreover have "None \<in> set (map to_datetime_cell col) \<longleftrightarrow> (\<exists>c\<in>set col. to_datetime_cell c = None)"
    by force
  ultimately show ?thesis by (simp add: those_None_iff)
qed

lemma to_datetime_cell_Some:
  "to_datetime_cell c = Some t \<longleftrightarrow>
   (c = None \<and> t = None) \<or> (\<exists>s u. c = Some s \<and> t = Some u \<and> parse_datetime s = Some u \<and> ns_bounded u)"
  by (cases c) (auto simp: to_datetime_cell_def split: option.splits)

lemma to_datetime_cell_format:
  "ns_bounded t \<Longrightarrow> to_datetime_cell (Some (format_datetime t)) = Some (Some t)"
  by (simp add: to_datetime_cell_def parse_format_datetime)

lemma to_datetime_format:
  assumes "\<And>t. Some t \<in> set col \<Longrightarrow> ns_bounded t"
  shows "to_datetime (map (map_option format_datetime) col) = Inr col"
proof -
  have "to_datetime_cell (map_option format_datetime z) = Some z" if "z \<in> set col" for z
  proof (cases z)
    case None
    then show ?thesis by (simp add: to_datetime_cell_def)
  next
    case (Some t)
    with that assms have "ns_bounded t" by simp
    with Some show ?thesis by (simp add: to_datetime_cell_format)
  qed
  then show ?thesis unfolding to_datetime_Inr list_all2_map1 by (rule list.rel_refl_strong)
qed

lemma convert_datetime_cols_Inr:
  "convert_datetime_cols cs raw acc = Inr f \<Longrightarrow>
   (\<forall>c\<in>set cs. \<exists>col ts. raw c = Some col \<and> to_datetime col = Inr ts \<and> f c = Some ts) \<and>
   (\<forall>c. c \<notin> set cs \<longrightarrow> f c = acc c)"
proof (induction cs raw acc rule: convert_datetime_cols.induct)
  case (1 raw acc)
  then show ?case by simp
next
  case (2 c cs raw acc)
  then obtain col ts where c: "raw c = Some col" "to_datetime col = Inr ts"
    and r: "convert_datetime_cols cs raw (acc(c \<mapsto> ts)) = Inr f"
    by (auto split: option.splits sum.splits)
  with "2.IH" have ih: "\<forall>c\<in>set cs. \<exists>col ts. raw c = Some col \<and> to_datetime col = Inr ts \<and> f c = Some ts"
    "\<forall>c'. c' \<notin> set cs \<longrightarrow> f c' = (acc(c \<mapsto> ts)) c'" by blast+
  have "f c = Some ts"
  proof (cases "c \<in> set cs")
    case True
    with ih(1) c show ?thesis by fastforce
  next
    case False
    with ih(2) show ?thesis by simp
  qed
  with c ih show ?case by auto
qed

lemma to_datetime_isl: "isl (to_datetime col) \<Longrightarrow> to_datetime col = Inl ValueError"
  by (cases "to_datetime col") (auto simp: to_datetime_Inl)

text \<open>
  C5: \<open>pd.to_datetime\<close> turns an object column into a \<open>datetime64[ns]\<close> column of the
  same length: a cell is NaT exactly where the input is NaN, every other cell is the
  timestamp its string denotes, and it lies in the range a 64-bit count of
  nanoseconds can hold.
\<close>

theorem to_datetime_type:
  assumes "to_datetime col = Inr ts"
  shows "length ts = length col \<and>
    (\<forall>i<length col. (ts ! i = None \<longleftrightarrow> col ! i = None) \<and>
       (\<forall>u. ts ! i = Some u \<longrightarrow> ns_bounded u \<and> map_option parse_datetime (col ! i) = Some (Some u)))"
proof -
  have r: "list_all2 (\<lambda>c t. to_datetime_cell c = Some t) col ts" using assms by (simp add: to_datetime_Inr)
  then have "length ts = length col" by (simp add: list_all2_lengthD)
  moreover have "(ts ! i = None \<longleftrightarrow> col ! i = None) \<and>
      (\<forall>u. ts ! i = Some u \<longrightarrow> ns_bounded u \<and> map_option parse_datetime (col ! i) = Some (Some u))"
    if "i < length col" for i
  proof -
    have "to_datetime_cell (col ! i) = Some (ts ! i)" using r that by (simp add: list_all2_conv_all_nth)
    then show ?thesis unfolding to_datetime_cell_Some by (cases "col ! i"; cases "ts ! i") auto
  qed
  ultimately show ?thesis by blast
qed

theorem to_datetime_type_witness:
  "length (projr (to_datetime [Some ''2017-10-02 10:56:33'', None])) = 2 \<and>
   projr (to_datetime [Some ''2017-10-02 10:56:33'', None]) ! 1 = None"
proof -
  have h: "to_datetime [Some ''2017-10-02 10:56:33'', None] =
      Inr (projr (to_datetime [Some ''2017-10-02 10:56:33'', None]))"
    by code_simp
  show ?thesis using to_datetime_type [OF h] by simp
qed

text \<open>
  C22: \<open>str(start_date)\<close> is read back as the date it prints. For every date of
  Python's range (years 1 to 9999) the string is \<open>YYYY-MM-DD\<close>, it parses to the same
  day, and pandas compares a datetime column with it as that day's midnight: the
  comparison of \<open>main_df\<close> with \<open>str(start_date)\<close> and \<open>str(end_date)\<close> is the one
  with \<open>midnight start_date\<close> and \<open>midnight end_date\<close> that TimeFilter models.
\<close>

theorem str_date_roundtrip:
  assumes "1 \<le> year_of_day d" and "year_of_day d \<le> 9999"
  shows "length (str_date d) = 10 \<and> parse_date (str_date d) = Some d \<and>
    date_operand (str_date d) = Some (midnight d)"
  using str_date_parse [OF assms] by (simp add: date_operand_def)

theorem str_date_roundtrip_witness:
  "str_date 17441 = ''2017-10-02'' \<and> date_operand ''2017-10-02'' = Some 1506902400"
proof -
  have y: "1 \<le> year_of_day 17441" "year_of_day 17441 \<le> 9999" by code_simp+
  have s: "str_date 17441 = ''2017-10-02''" by code_simp
  show ?thesis using str_date_roundtrip [OF y] s by (simp add: midnight_def seconds_per_day_def)
qed

text \<open>
  C36: the conversion loop of lines 409--410 stops at the first column, in the order
  of \<open>datetime_cols\<close>, that cannot be converted: with KeyError when the table has no
  such column, with ValueError when one of its strings is not a date and time in
  range; the columns after it are never read.
\<close>

theorem convert_datetime_cols_first_error:
  assumes "\<forall>c'\<in>set pre. raw c' \<noteq> None \<and> \<not> isl (to_datetime (the (raw c')))"
    and "raw c = None \<or> isl (to_datetime (the (raw c)))"
  shows "convert_datetime_cols (pre @ c # post) raw acc = Inl (if raw c = None then KeyError else ValueError)"
  using assms(1)
proof (induction pre arbitrary: acc)
  case Nil
  show ?case
  proof (cases "raw c")
    case (Some col)
    with assms(2) have "to_datetime col = Inl ValueError" by (simp add: to_datetime_isl)
    with Some show ?thesis by simp
  qed simp
next
  case (Cons c' pre)
  then obtain col ts where "raw c' = Some col" "to_datetime col = Inr ts"
    by (cases "raw c'"; cases "to_datetime (the (raw c'))") auto
  with Cons show ?case by simp
qed

theorem convert_datetime_cols_first_error_witness:
  "convert_datetime_cols datetime_cols
     [''order_approved_at'' \<mapsto> [Some ''2017-10-02 10:56:33''],
      ''order_delivered_carrier_date'' \<mapsto> [Some ''2017-02-30 00:00:00'']] Map.empty = Inl ValueError"
proof -
  let ?raw = "[''order_approved_at'' \<mapsto> [Some ''2017-10-02 10:56:33''],
      ''order_delivered_carrier_date'' \<mapsto> [Some ''2017-02-30 00:00:00'']]"
  have d: "datetime_cols = [''order_approved_at''] @ ''order_delivered_carrier_date'' # drop 2 datetime_cols"
    by (simp add: datetime_cols_def)
  have h1: "\<forall>c'\<in>set [''order_approved_at'']. ?raw c' \<noteq> None \<and> \<not> isl (to_datetime (the (?raw c')))"
    by code_simp
  have h2: "?raw ''order_delivered_carrier_date'' = None \<or> isl (to_datetime (the (?raw ''order_delivered_carrier_date'')))"
    by code_simp
  note e = convert_datetime_cols_first_error [OF h1 h2, of "drop 2 datetime_cols" Map.empty]
  show ?thesis by (subst d, rule trans [OF e]) simp
qed

lemma set_date_field_same: "c \<in> set datetime_cols \<Longrightarrow> set_date_field c (date_field c r) r = r"
  by (auto simp: datetime_cols_def set_date_field_def date_field_def)

lemma set_date_column_same:
  assumes "c \<in> set datetime_cols"
  shows "set_date_column c (map (date_field c) rows) rows = rows"
proof -
  have "map2 (set_date_field c) (map (date_field c) rows) rows = rows"
    by (induction rows) (simp_all add: set_date_field_same [OF assms])
  then show ?thesis by (simp add: set_date_column_def)
qed

lemma convert_datetime_cols_ok:
  assumes "\<forall>c\<in>set cs. \<exists>col ts. raw c = Some col \<and> to_datetime col = Inr ts"
  shows "\<exists>f. convert_datetime_cols cs raw acc = Inr f"
  using assms
proof (induction cs arbitrary: acc)
  case Nil
  then show ?case by simp
next
  case (Cons c cs)
  then obtain col ts where "raw c = Some col" "to_datetime col = Inr ts" by auto
  with Cons show ?case by simp
qed

lemma fold_set_date_columns:
  assumes "\<forall>c\<in>set cs. set_date_column c (the (cols c)) rows = rows"
  shows "fold (\<lambda>c rs. set_date_column c (the (cols c)) rs) cs rows = rows"
  using assms by (induction cs) simp_all

lemma to_datetime_format_column:
  assumes "\<forall>r\<in>set rows. pred_option ns_bounded (date_field c r)"
  shows "to_datetime (map (map_option format_datetime \<circ> date_field c) rows) = Inr (map (date_field c) rows)"
proof -
  have "ns_bounded t" if "Some t \<in> set (map (date_field c) rows)" for t
  proof -
    from that obtain r where "r \<in> set rows" "date_field c r = Some t" by (auto dest: sym)
    with assms show ?thesis by fastforce
  qed
  then have "to_datetime (map (map_option format_datetime) (map (date_field c) rows)) = Inr (map (date_field c) rows)"
    by (rule to_datetime_format)
  then show ?thesis by simp
qed

lemma load_all_df_csv:
  assumes raw: "\<forall>c\<in>set datetime_cols. raw c = Some (map (map_option format_datetime \<circ> date_field c) rows)"
    and bnd: "\<forall>r\<in>set rows. \<forall>c\<in>set datetime_cols. pred_option ns_bounded (date_field c r)"
  shows "load_all_df rows raw = Inr rows"
proof -
  have conv: "to_datetime (the (raw c)) = Inr (map (date_field c) rows)" if "c \<in> set datetime_cols" for c
    using raw bnd that by (simp add: to_datetime_format_column)
  then obtain f where f: "convert_datetime_cols datetime_cols raw Map.empty = Inr f"
    using raw convert_datetime_cols_ok [of datetime_cols raw Map.empty] by fastforce
  have "f c = Some (map (date_field c) rows)" if "c \<in> set datetime_cols" for c
    using convert_datetime_cols_Inr [OF f] conv raw that by fastforce
  then have "\<forall>c\<in>set datetime_cols. set_date_column c (the (f c)) rows = rows"
    by (simp add: set_date_column_same)
  then show ?thesis using f by (simp add: load_all_df_def fold_set_date_columns)
qed

text \<open>
  C4: the calendar is a bijection between day numbers and valid dates. Every valid
  date (month 1 to 12, day within its month, February 29 only in a Gregorian leap
  year) is counted to a day number that converts back to the same date, and every day
  number converts to a valid date that counts back to it; this is the calendar
  pandas uses both to read the date cells and to print the sidebar dates.
\<close>

theorem calendar_roundtrip:
  "(valid_date y m d \<longrightarrow> civil_from_days (days_from_civil y m d) = (y, m, d)) \<and>
   (civil_from_days z = (y, m, d) \<longrightarrow> valid_date y m d \<and> days_from_civil y m d = z)"
  using civil_from_days_of [of y m d] civil_from_days_correct [of z y m d] by blast

theorem calendar_roundtrip_witness:
  "civil_from_days (days_from_civil 2016 2 29) = (2016, 2, 29) \<and> days_from_civil 2017 10 2 = 17441 \<and>
   \<not> valid_date 1900 2 29"
proof -
  have v: "valid_date 2016 2 29" by code_simp
  have c: "civil_from_days 17441 = (2017, 10, 2)" by code_simp
  have n: "\<not> valid_date 1900 2 29" by code_simp
  show ?thesis
    using calendar_roundtrip [of 2016 2 29 0] calendar_roundtrip [of 2017 10 2 17441] v c n by simp
qed

text \<open>
  C40: a timestamp written in the CSV layout is read back unchanged. For every
  timestamp in the \<open>datetime64[ns]\<close> range, \<open>YYYY-MM-DD HH:MM:SS\<close> (the day by the
  calendar, hours, minutes and seconds of the second of the day) parses to the same
  number of seconds since the epoch.
\<close>

theorem format_datetime_roundtrip:
  "ns_bounded t \<Longrightarrow> parse_datetime (format_datetime t) = Some t"
  by (rule parse_format_datetime)

theorem format_datetime_roundtrip_witness:
  "format_datetime 1506941793 = ''2017-10-02 10:56:33'' \<and>
   parse_datetime ''2017-10-02 10:56:33'' = Some 1506941793"
proof -
  have b: "ns_bounded 1506941793" by (simp add: ns_bounded_def)
  have f: "format_datetime 1506941793 = ''2017-10-02 10:56:33''" by code_simp
  show ?thesis using format_datetime_roundtrip [OF b] f by simp
qed

end
