(* ===== verification/TimeFilter.thy ===== *)
theory TimeFilter
  imports Orders
begin

text \<open>
  The time-range filter of dashboard.py lines 412--430. \<open>min_date\<close>/\<open>max_date\<close>
  are the NaT-skipping minimum and maximum of \<open>order_approved_at\<close>; the sidebar's
  \<open>st.date_input\<close> range widget defaults to their two dates and returns the tuple of
  dates the user has picked so far, which line 419 unpacks into exactly two names
  (\<open>unpack_dates\<close>: Python's ValueError otherwise). \<open>main_df\<close> keeps the rows
  whose approval timestamp compares \<open>>= str(start_date)\<close> and
  \<open><= str(end_date)\<close>; pandas reads each date string as that day's midnight, and a
  NaT timestamp compares false (\<open>ts_ge\<close>, \<open>ts_le\<close>).
\<close>

definition ts_ge :: "timestamp option \<Rightarrow> timestamp \<Rightarrow> bool" where
  "ts_ge x b = (case x of None \<Rightarrow> False | Some t \<Rightarrow> b \<le> t)"

definition ts_le :: "timestamp option \<Rightarrow> timestamp \<Rightarrow> bool" where
  "ts_le x b = (case x of None \<Rightarrow> False | Some t \<Rightarrow> t \<le> b)"

definition min_date :: "orders_table \<Rightarrow> timestamp option" where
  "min_date all_df = col_min (map order_approved_at all_df)"

definition max_date :: "orders_table \<Rightarrow> timestamp option" where
  "max_date all_df = col_max (map order_approved_at all_df)"

definition date_input_default :: "orders_table \<Rightarrow> day list" where
  "date_input_default all_df =
     (case (min_date all_df, max_date all_df) of
        (Some lo, Some hi) \<Rightarrow> [day_of lo, day_of hi]
      | _ \<Rightarrow> [])"

definition unpack_dates :: "day list \<Rightarrow> py_error + (day \<times> day)" where
  "unpack_dates sel = (case sel of [s, e] \<Rightarrow> Inr (s, e) | _ \<Rightarrow> Inl ValueError)"

definition main_df :: "orders_table \<Rightarrow> day \<Rightarrow> day \<Rightarrow> orders_table" where
  "main_df all_df start_date end_date =
     filter (\<lambda>r. ts_ge (order_approved_at r) (midnight start_date) \<and>
                 ts_le (order_approved_at r) (midnight end_date)) all_df"

definition select_main_df :: "orders_table \<Rightarrow> day list \<Rightarrow> py_error + orders_table" where
  "select_main_df all_df sel =
     (case unpack_dates sel of
        Inl err \<Rightarrow> Inl err
      | Inr (start_date, end_date) \<Rightarrow> Inr (main_df all_df start_date end_date))"

lemma ts_ge_le_iff [simp]:
  "ts_ge x a \<and> ts_le x b \<longleftrightarrow> (\<exists>t. x = Some t \<and> a \<le> t \<and> t \<le> b)"
  by (auto simp: ts_ge_def ts_le_def split: option.splits)

lemma mem_main_df_iff:
  "r \<in> set (main_df all_df s e) \<longleftrightarrow>
   r \<in> set all_df \<and> (\<exists>t. order_approved_at r = Some t \<and> midnight s \<le> t \<and> t \<le> midnight e)"
  by (simp add: main_df_def)

lemmas time_filter_simps = mem_main_df_iff unpack_dates_def select_main_df_def

lemma midnight_le_midnight [simp]: "midnight a \<le> midnight b \<longleftrightarrow> a \<le> b"
  by (simp add: midnight_def seconds_per_day_def)

lemma midnight_le_iff: "midnight d \<le> t \<longleftrightarrow> d \<le> day_of t"
proof -
  have b: "midnight (day_of t) \<le> t" "t < midnight (day_of t + 1)" using day_of_iff by blast+
  show ?thesis
  proof
    assume "midnight d \<le> t"
    then have "midnight d < midnight (day_of t + 1)" using b(2) by linarith
    then show "d \<le> day_of t" using midnight_le_midnight [of "day_of t + 1" d] by linarith
  next
    assume "d \<le> day_of t"
    then show "midnight d \<le> t" using b(1) midnight_le_midnight [of d "day_of t"] by linarith
  qed
qed

lemma le_midnight_iff: "t \<le> midnight e \<longleftrightarrow> day_of t < e \<or> t = midnight e"
proof -
  have b: "midnight (day_of t) \<le> t" "t < midnight (day_of t + 1)" using day_of_iff by blast+
  show ?thesis
  proof
    assume t: "t \<le> midnight e"
    show "day_of t < e \<or> t = midnight e"
    proof (rule ccontr)
      assume "\<not> (day_of t < e \<or> t = midnight e)"
      then have "e \<le> day_of t" "t \<noteq> midnight e" by simp_all
      then show False using t b(1) midnight_le_midnight [of e "day_of t"] by linarith
    qed
  next
    assume "day_of t < e \<or> t = midnight e"
    then show "t \<le> midnight e"
    proof
      assume "day_of t < e"
      then show ?thesis using b(2) midnight_le_midnight [of "day_of t + 1" e] by linarith
    qed simp
  qed
qed

text \<open>
  C1: the filter in calendar days. \<open>main_df\<close> keeps, in order and with their
  multiplicity, the rows approved on the days from \<open>start_date\<close> up to the day
  before \<open>end_date\<close>, and of \<open>end_date\<close> itself only the rows approved exactly at
  its midnight; rows without an approval timestamp are dropped.
\<close>

theorem main_df_days:
  "main_df all_df s e =
   filter (\<lambda>r. \<exists>t. order_approved_at r = Some t \<and> s \<le> day_of t \<and> (day_of t < e \<or> t = midnight e)) all_df"
  unfolding main_df_def
  by (rule filter_cong) (auto simp: ts_ge_def ts_le_def midnight_le_iff le_midnight_iff split: option.splits)

lemma main_df_excludes_end_day:
  assumes "order_approved_at r = Some t" and "day_of t = e" and "t \<noteq> midnight e"
  shows "r \<notin> set (main_df all_df s e)"
proof -
  from assms(2) have "midnight e \<le> t" by (auto simp: day_of_iff)
  with assms(3) have "\<not> t \<le> midnight e" by simp
  with assms(1) show ?thesis by (simp add: mem_main_df_iff)
qed

text \<open>
  C2: the end date is not inclusive as a day. A row approved on the end date itself, at
  any time after midnight, is not in \<open>main_df\<close>: \<open>str(end_date)\<close> is compared as
  the midnight that starts that day.
\<close>

theorem main_df_drops_end_day:
  assumes "order_approved_at r = Some t" and "day_of t = e" and "t \<noteq> midnight e"
  shows "r \<notin> set (main_df all_df s e)"
  by (rule main_df_excludes_end_day [OF assms])

theorem main_df_drops_end_day_witness:
  "order_approved_at ((blank_row ''o1'')\<lparr>order_approved_at := Some (midnight 3 + 3600)\<rparr>)
     = Some (midnight 3 + 3600) \<and>
   day_of (midnight 3 + 3600) = 3 \<and> midnight 3 + 3600 \<noteq> midnight 3 \<and>
   (blank_row ''o1'')\<lparr>order_approved_at := Some (midnight 3 + 3600)\<rparr>
     \<notin> set (main_df [(blank_row ''o1'')\<lparr>order_approved_at := Some (midnight 3 + 3600)\<rparr>] 1 3)"
proof -
  have d: "day_of (midnight 3 + 3600) = 3"
    by (simp add: day_of_def midnight_def seconds_per_day_def)
  have n: "midnight 3 + 3600 \<noteq> midnight 3" by simp
  show ?thesis
    using main_df_drops_end_day [of "(blank_row ''o1'')\<lparr>order_approved_at := Some (midnight 3 + 3600)\<rparr>"
        "midnight 3 + 3600" 3 "[(blank_row ''o1'')\<lparr>order_approved_at := Some (midnight 3 + 3600)\<rparr>]" 1]
      d n by simp
qed

text \<open>
  C3: the default view loses the last day. With the sidebar left at its default range
  (the dates of \<open>min_date\<close> and \<open>max_date\<close>), the unpacking succeeds and the latest
  approved row is missing from \<open>main_df\<close> unless it was approved exactly at midnight.
\<close>

theorem default_range_drops_latest:
  assumes "max_date all_df = Some t" and "t \<noteq> midnight (day_of t)"
    and "r \<in> set all_df" and "order_approved_at r = Some t"
  shows "\<exists>m. select_main_df all_df (date_input_default all_df) = Inr m \<and> r \<notin> set m"
proof -
  from assms(3,4) have "Some t \<in> set (map order_approved_at all_df)" by force
  then obtain lo where lo: "min_date all_df = Some lo"
    by (cases "min_date all_df") (auto simp: min_date_def col_min_def Let_def dropna_Nil_iff
        split: if_splits)
  then have sel: "date_input_default all_df = [day_of lo, day_of t]"
    by (simp add: date_input_default_def assms(1))
  have "r \<notin> set (main_df all_df (day_of lo) (day_of t))"
    by (rule main_df_excludes_end_day [OF assms(4) refl]) (use assms(2) in simp)
  then show ?thesis by (simp add: sel select_main_df_def unpack_dates_def)
qed

theorem default_range_drops_latest_witness:
  "max_date [(blank_row ''o1'')\<lparr>order_approved_at := Some 90000\<rparr>] = Some 90000 \<and>
   (90000::int) \<noteq> midnight (day_of 90000) \<and>
   (\<exists>m. select_main_df [(blank_row ''o1'')\<lparr>order_approved_at := Some 90000\<rparr>]
      (date_input_default [(blank_row ''o1'')\<lparr>order_approved_at := Some 90000\<rparr>]) = Inr m \<and>
      (blank_row ''o1'')\<lparr>order_approved_at := Some 90000\<rparr> \<notin> set m)"
proof -
  have mx: "max_date [(blank_row ''o1'')\<lparr>order_approved_at := Some 90000\<rparr>] = Some 90000"
    by (simp add: max_date_def col_max_def)
  have nm: "(90000::int) \<noteq> midnight (day_of 90000)"
    by (simp add: day_of_def midnight_def seconds_per_day_def)
  show ?thesis
    using default_range_drops_latest [OF mx nm, of "(blank_row ''o1'')\<lparr>order_approved_at := Some 90000\<rparr>"]
      mx nm by simp
qed

lemma select_main_df_cases:
  "select_main_df all_df sel =
     (if length sel = 2 then Inr (main_df all_df (sel ! 0) (sel ! 1)) else Inl ValueError)"
  by (cases sel rule: remdups_adj.cases) (auto simp: select_main_df_def unpack_dates_def
      split: list.splits)

text \<open>
  A reversed range is empty. The code does not check \<open>start_date \<le> end_date\<close>;
  with the dates reversed \<open>main_df\<close> is the empty table, not an error.
\<close>

theorem main_df_reversed_empty:
  assumes "e < s"
  shows "main_df all_df s e = []"
proof -
  have "midnight e < midnight s" using assms by (simp add: midnight_def seconds_per_day_def)
  then show ?thesis by (auto simp: main_df_def filter_empty_conv)
qed

theorem main_df_reversed_empty_witness:
  "(1::int) < 2 \<and> main_df [(blank_row ''o1'')\<lparr>order_approved_at := Some 90000\<rparr>] 2 1 = []"
  using main_df_reversed_empty [of 1 2 "[(blank_row ''o1'')\<lparr>order_approved_at := Some 90000\<rparr>]"]
  by simp

end
