(* ===== verification/Metrics.thy ===== *)
theory Metrics
  imports Orders Currency
begin

text \<open>
  The metric summarizer, \<open>display_dataframe(df, option)\<close> of dashboard.py lines
  16--57. \<open>option\<close> is the list of category labels picked in the multiselect of line
  438, whose choices are \<open>main_df['product_category_name_english'].unique()\<close> and so
  may include NaN: a label is a \<open>string option\<close>, and \<open>Series.isin\<close> matches NaN
  with NaN. \<open>selected_product\<close> is line 17; each branch of the \<open>if not option\<close> of
  line 19 shows the same three metrics and table (\<open>metric_panel_of\<close>), computed over
  \<open>df\<close> (lines 20--39) or over \<open>selected_product\<close> (lines 41--57):
  \<^item> \<open>#Orders\<close>: \<open>order_id.nunique()\<close>;
  \<^item> \<open>#Revenue\<close>: \<open>payment_value.sum()\<close> (NaN skipped) formatted as BRL;
  \<^item> \<open>#Mean Review\<close>: \<open>review_score.mean().round(2)\<close>, NaN (\<open>None\<close>) when no score.
\<close>

record metric_panel =
  metric_orders :: nat
  metric_revenue :: string
  metric_mean_review :: "rat option"
  metric_table :: orders_table

definition isin :: "'a list \<Rightarrow> 'a \<Rightarrow> bool" where
  "isin values x \<longleftrightarrow> x \<in> set values"

definition selected_product :: "orders_table \<Rightarrow> string option list \<Rightarrow> orders_table" where
  "selected_product df option = filter (\<lambda>r. isin option (product_category_name_english r)) df"

definition review_mean :: "orders_table \<Rightarrow> rat option" where
  "review_mean df = mean_skipna (map (\<lambda>r. map_option rat_of_int (review_score r)) df)"

definition metric_panel_of :: "orders_table \<Rightarrow> metric_panel" where
  "metric_panel_of df =
     \<lparr>metric_orders = nunique (map order_id df),
      metric_revenue = format_currency_brl (sum_skipna (map payment_value df)),
      metric_mean_review = map_option round2 (review_mean df),
      metric_table = df\<rparr>"

definition display_dataframe :: "orders_table \<Rightarrow> string option list \<Rightarrow> metric_panel" where
  "display_dataframe df option =
     (let selected = selected_product df option in
      if option = [] then metric_panel_of df else metric_panel_of selected)"

lemma selected_product_all:
  assumes "\<forall>r\<in>set df. product_category_name_english r \<in> set option"
  shows "selected_product df option = df"
  using assms by (simp add: selected_product_def isin_def)

lemma mean_within:
  assumes "\<forall>x\<in>set xs. a \<le> x \<and> x \<le> b" and "xs \<noteq> []"
  shows "a \<le> sum_list xs / of_nat (length xs) \<and> sum_list xs / of_nat (length xs) \<le> (b :: rat)"
proof -
  have "of_nat (length xs) * a \<le> sum_list xs"
    using assms(1) sum_list_mono [of xs "\<lambda>_. a" "\<lambda>x. x"] by (simp add: sum_list_triv)
  moreover have "sum_list xs \<le> of_nat (length xs) * b"
    using assms(1) sum_list_mono [of xs "\<lambda>x. x" "\<lambda>_. b"] by (simp add: sum_list_triv)
  moreover have "0 < (of_nat (length xs) :: rat)" using assms(2) by simp
  ultimately show ?thesis by (simp add: field_simps)
qed

text \<open>
  C8: a category filter that names every label of the table changes nothing. When the
  multiselect holds every category present in \<open>df\<close> (NaN included, if present), the
  panel is the one shown with nothing selected.
\<close>

theorem display_dataframe_covering_filter:
  assumes "\<forall>r\<in>set df. product_category_name_english r \<in> set option"
  shows "display_dataframe df option = display_dataframe df []"
  using selected_product_all [OF assms] by (simp add: display_dataframe_def Let_def)

theorem display_dataframe_covering_filter_witness:
  "display_dataframe [(blank_row ''o1'')\<lparr>product_category_name_english := Some ''toys''\<rparr>, blank_row ''o2'']
     [None, Some ''toys''] =
   display_dataframe [(blank_row ''o1'')\<lparr>product_category_name_english := Some ''toys''\<rparr>, blank_row ''o2''] []"
proof -
  have h: "\<forall>r\<in>set [(blank_row ''o1'')\<lparr>product_category_name_english := Some ''toys''\<rparr>, blank_row ''o2''].
      product_category_name_english r \<in> set [None, Some ''toys'']"
    by (simp add: blank_row_def)
  show ?thesis by (rule display_dataframe_covering_filter [OF h])
qed

text \<open>
  The spec's worked example. Three order items of distinct orders,
  \<open>{A: 10, review 5}, {A: 20, review 3}, {B: 5, review 4}\<close>, filtered to \<open>{A}\<close>: two
  orders, revenue \<open>R$ 30,00\<close>, mean review 4, and the table of the two A rows.
\<close>

theorem display_dataframe_example:
  "display_dataframe
     [(blank_row ''o1'')\<lparr>product_category_name_english := Some ''A'', payment_value := Some 10, review_score := Some 5\<rparr>,
      (blank_row ''o2'')\<lparr>product_category_name_english := Some ''A'', payment_value := Some 20, review_score := Some 3\<rparr>,
      (blank_row ''o3'')\<lparr>product_category_name_english := Some ''B'', payment_value := Some 5, review_score := Some 4\<rparr>]
     [Some ''A''] =
   \<lparr>metric_orders = 2, metric_revenue = ''R$'' @ nbsp @ ''30,00'', metric_mean_review = Some 4,
    metric_table =
     [(blank_row ''o1'')\<lparr>product_category_name_english := Some ''A'', payment_value := Some 10, review_score := Some 5\<rparr>,
      (blank_row ''o2'')\<lparr>product_category_name_english := Some ''A'', payment_value := Some 20, review_score := Some 3\<rparr>]\<rparr>"
  by code_simp

text \<open>
  C10: an empty table is not an error. With no rows (an empty date range, or a filter
  that matches nothing) the panel shows 0 orders, \<open>R$ 0,00\<close>, and no mean review: the
  NaN marker, distinct from a mean of 0.
\<close>

theorem display_dataframe_empty:
  assumes "option = [] \<or> selected_product df option = []" and "df = [] \<or> option \<noteq> []"
  shows "display_dataframe df option =
    \<lparr>metric_orders = 0, metric_revenue = ''R$'' @ nbsp @ ''0,00'', metric_mean_review = None,
     metric_table = []\<rparr>"
proof -
  have z: "format_currency_brl 0 = ''R$'' @ nbsp @ ''0,00''" by code_simp
  have e: "metric_panel_of [] =
    \<lparr>metric_orders = 0, metric_revenue = ''R$'' @ nbsp @ ''0,00'', metric_mean_review = None,
     metric_table = []\<rparr>"
    by (simp add: metric_panel_of_def z review_mean_def mean_skipna_def sum_skipna_def)
  from assms show ?thesis
    by (auto simp: display_dataframe_def Let_def e selected_product_def)
qed

theorem display_dataframe_empty_witness:
  "display_dataframe [blank_row ''o1''] [Some ''toys''] =
    \<lparr>metric_orders = 0, metric_revenue = ''R$'' @ nbsp @ ''0,00'', metric_mean_review = None,
     metric_table = []\<rparr>"
proof -
  have h1: "[Some ''toys''] = [] \<or> selected_product [blank_row ''o1''] [Some ''toys''] = []"
    by (simp add: selected_product_def isin_def blank_row_def)
  have h2: "[blank_row ''o1''] = [] \<or> [Some ''toys''] \<noteq> []" by simp
  show ?thesis by (rule display_dataframe_empty [OF h1 h2])
qed

text \<open>
  C11: the displayed mean review stays on the rating scale. When every review score
  present in the table lies in 1..5, the mean shown, after \<open>round(2)\<close>, lies in
  [1, 5] as well.
\<close>

theorem mean_review_bounds:
  assumes "\<forall>r\<in>set df. \<forall>s. review_score r = Some s \<longrightarrow> 1 \<le> s \<and> s \<le> 5"
    and "metric_mean_review (display_dataframe df option) = Some m"
  shows "1 \<le> m \<and> m \<le> 5"
proof -
  define t where "t = (if option = [] then df else selected_product df option)"
  have sub: "set t \<subseteq> set df" by (auto simp: t_def selected_product_def)
  have panel: "display_dataframe df option = metric_panel_of t"
    by (simp add: display_dataframe_def t_def Let_def)
  let ?xs = "dropna (map (\<lambda>r. map_option rat_of_int (review_score r)) t)"
  from assms(2) panel obtain q where q: "review_mean t = Some q" and m: "m = round2 q"
    by (auto simp: metric_panel_of_def)
  then have ne: "?xs \<noteq> []" and qv: "q = sum_list ?xs / of_nat (length ?xs)"
    by (auto simp: review_mean_def mean_skipna_def Let_def split: if_splits)
  have "\<forall>x\<in>set ?xs. 1 \<le> x \<and> x \<le> 5"
  proof
    fix x assume "x \<in> set ?xs"
    then obtain r s where "r \<in> set t" "review_score r = Some s" "x = of_int s"
      by (auto simp: map_option_eq_Some eq_commute [of "Some x"])
    with assms(1) sub show "1 \<le> x \<and> x \<le> 5" by force
  qed
  with ne qv have "of_int 1 \<le> q \<and> q \<le> of_int 5" using mean_within [of ?xs 1 5] by simp
  then show ?thesis using round2_within [of 1 q 5] m by simp
qed

theorem mean_review_bounds_witness:
  "metric_mean_review (display_dataframe
      [(blank_row ''o1'')\<lparr>review_score := Some 5\<rparr>, (blank_row ''o2'')\<lparr>review_score := Some 4\<rparr>] []) = Some (9/2) \<and>
   1 \<le> (9/2::rat) \<and> (9/2::rat) \<le> 5"
proof -
  have h1: "\<forall>r\<in>set [(blank_row ''o1'')\<lparr>review_score := Some 5\<rparr>, (blank_row ''o2'')\<lparr>review_score := Some 4\<rparr>].
      \<forall>s. review_score r = Some s \<longrightarrow> 1 \<le> s \<and> s \<le> 5" by simp
  have h2: "metric_mean_review (display_dataframe
      [(blank_row ''o1'')\<lparr>review_score := Some 5\<rparr>, (blank_row ''o2'')\<lparr>review_score := Some 4\<rparr>] []) = Some (9/2)"
    by code_simp
  show ?thesis using mean_review_bounds [OF h1 h2] h2 by simp
qed

end
