(* ===== verification/Daily.thy ===== *)
theory Daily
  imports TimeFilter Currency
begin

text \<open>
  The daily series of dashboard.py lines 59--113.
  \<^item> \<open>create_daily_orders_df\<close> (lines 59--74) resamples the table by calendar day of
    \<open>order_approved_at\<close>. pandas' \<open>resample(rule='D')\<close> drops NaT rows and makes one
    bin for every day from the first to the last approval day, empty days included;
    each bin has the distinct order count, the sum of \<open>order_item_id\<close> and the sum of
    \<open>payment_value\<close> (0 for an empty bin), and the bin's midnight as its
    \<open>order_approved_at\<close> column after \<open>reset_index\<close>.
  \<^item> \<open>plot_total_orders_and_revenue\<close> (lines 76--81) sums the series' columns.
  \<^item> \<open>plot_daily_orders\<close> (lines 83--113) draws the series as a line and, unless the
    global \<open>min_date\<close> (the parameter \<open>min_dt\<close>) lies 60 days or more before the series' last day, labels each
    point with its count at height count + 0.5. With an empty series the maximum is
    NaT, the comparison is false and the labelling loop runs over no row.
\<close>

record daily_row =
  daily_order_approved_at :: timestamp
  order_count :: nat
  order_item_count :: int
  revenue :: money

definition approved_day :: "order_row \<Rightarrow> day option" where
  "approved_day r = map_option day_of (order_approved_at r)"

definition resample_days :: "orders_table \<Rightarrow> day list" where
  "resample_days df =
     (case (col_min (map approved_day df), col_max (map approved_day df)) of
        (Some lo, Some hi) \<Rightarrow> [lo..hi]
      | _ \<Rightarrow> [])"

definition daily_bin :: "orders_table \<Rightarrow> day \<Rightarrow> daily_row" where
  "daily_bin df d =
     (let g = group_of approved_day d df in
      \<lparr>daily_order_approved_at = midnight d,
       order_count = nunique (map order_id g),
       order_item_count = sum_list (map order_item_id g),
       revenue = sum_skipna (map payment_value g)\<rparr>)"

definition create_daily_orders_df :: "orders_table \<Rightarrow> daily_row list" where
  "create_daily_orders_df df = map (daily_bin df) (resample_days df)"

record totals_panel =
  total_orders :: nat
  total_revenue :: string

definition plot_total_orders_and_revenue :: "daily_row list \<Rightarrow> totals_panel" where
  "plot_total_orders_and_revenue daily_orders_df =
     \<lparr>total_orders = sum_list (map order_count daily_orders_df),
      total_revenue = format_currency_brl (sum_list (map revenue daily_orders_df))\<rparr>"

record daily_plot =
  line_points :: "(timestamp \<times> nat) list"
  point_labels :: "(timestamp \<times> rat \<times> nat) list"

definition plot_daily_orders :: "daily_row list \<Rightarrow> timestamp option \<Rightarrow> daily_plot" where
  "plot_daily_orders daily_orders_df min_dt =
     (let x_y = map (\<lambda>d. (daily_order_approved_at d, order_count d)) daily_orders_df;
          last_day = col_max (map (\<lambda>d. Some (daily_order_approved_at d)) daily_orders_df)
      in if (case (min_dt, last_day) of
               (Some a, Some b) \<Rightarrow> a \<le> b - 60 * seconds_per_day
             | _ \<Rightarrow> False)
         then \<lparr>line_points = x_y, point_labels = []\<rparr>
         else \<lparr>line_points = x_y,
               point_labels = map (\<lambda>d. (daily_order_approved_at d, of_nat (order_count d) + 1/2,
                                        order_count d)) daily_orders_df\<rparr>)"

lemma approved_day_Some_iff:
  "approved_day r = Some d \<longleftrightarrow> (\<exists>t. order_approved_at r = Some t \<and> day_of t = d)"
  by (auto simp: approved_day_def)

lemma resample_days_eq:
  assumes "r \<in> set df" and "approved_day r = Some a"
  obtains lo hi where "col_min (map approved_day df) = Some lo" "col_max (map approved_day df) = Some hi"
    and "resample_days df = [lo..hi]"
proof -
  have ne: "dropna (map approved_day df) \<noteq> []"
    using assms by (auto simp: dropna_Nil_iff)
  then obtain lo hi where "col_min (map approved_day df) = Some lo" "col_max (map approved_day df) = Some hi"
    by (simp add: col_min_def col_max_def Let_def)
  then show ?thesis by (intro that) (simp_all add: resample_days_def)
qed

lemma approved_day_in_resample_days:
  assumes "r \<in> set df" and "approved_day r = Some d"
  shows "d \<in> set (resample_days df)"
proof -
  obtain lo hi where lo: "col_min (map approved_day df) = Some lo"
    and hi: "col_max (map approved_day df) = Some hi" and eq: "resample_days df = [lo..hi]"
    using resample_days_eq [OF assms] .
  have "Some d \<in> set (map approved_day df)" using assms by force
  with col_min_Some [OF lo] col_max_Some [OF hi] have "lo \<le> d" "d \<le> hi" by blast+
  then show ?thesis by (simp add: eq)
qed

lemma filter_resample_days:
  "filter (\<lambda>r. approved_day r \<in> Some ` set (resample_days df)) df =
   filter (\<lambda>r. order_approved_at r \<noteq> None) df"
proof (rule filter_cong)
  fix r assume r: "r \<in> set df"
  show "(approved_day r \<in> Some ` set (resample_days df)) = (order_approved_at r \<noteq> None)"
  proof (cases "approved_day r")
    case None
    then show ?thesis by (simp add: approved_day_def)
  next
    case (Some d)
    with approved_day_in_resample_days [OF r Some] show ?thesis by (auto simp: approved_day_def)
  qed
qed simp

lemma distinct_resample_days: "distinct (resample_days df)"
  by (simp add: resample_days_def split: option.splits)

lemmas daily_simps = create_daily_orders_df_def daily_bin_def Let_def

text \<open>
  C12: the daily series is zero-filled. Between the first and the last approval day,
  a day on which no order was approved still has its row, with order count, item count
  and revenue 0; the spec's "days with zero orders are absent" does not hold.
\<close>

theorem daily_zero_filled:
  assumes "r1 \<in> set df" "approved_day r1 = Some a" "r2 \<in> set df" "approved_day r2 = Some b"
    and "a \<le> d" "d \<le> b" and "\<forall>r\<in>set df. approved_day r \<noteq> Some d"
  shows "\<lparr>daily_order_approved_at = midnight d, order_count = 0, order_item_count = 0, revenue = 0\<rparr>
           \<in> set (create_daily_orders_df df)"
proof -
  obtain lo hi where lo: "col_min (map approved_day df) = Some lo"
    and hi: "col_max (map approved_day df) = Some hi" and eq: "resample_days df = [lo..hi]"
    using resample_days_eq [OF assms(1,2)] .
  have "Some a \<in> set (map approved_day df)" "Some b \<in> set (map approved_day df)"
    using assms(1-4) by force+
  with col_min_Some [OF lo] col_max_Some [OF hi] have "lo \<le> a" "b \<le> hi" by blast+
  with assms(5,6) have d: "d \<in> set (resample_days df)" by (simp add: eq)
  have "group_of approved_day d df = []"
    using assms(7) by (simp add: group_of_def filter_empty_conv)
  then have "daily_bin df d =
      \<lparr>daily_order_approved_at = midnight d, order_count = 0, order_item_count = 0, revenue = 0\<rparr>"
    by (simp add: daily_bin_def)
  with d show ?thesis by (force simp: create_daily_orders_df_def)
qed

theorem daily_zero_filled_witness:
  "\<lparr>daily_order_approved_at = midnight 1, order_count = 0, order_item_count = 0, revenue = 0\<rparr>
     \<in> set (create_daily_orders_df
          [(blank_row ''o1'')\<lparr>order_approved_at := Some 3600\<rparr>,
           (blank_row ''o2'')\<lparr>order_approved_at := Some 176400\<rparr>])"
proof -
  let ?r1 = "(blank_row ''o1'')\<lparr>order_approved_at := Some 3600\<rparr>"
  let ?r2 = "(blank_row ''o2'')\<lparr>order_approved_at := Some 176400\<rparr>"
  have a: "approved_day ?r1 = Some 0" and b: "approved_day ?r2 = Some 2"
    by (simp_all add: approved_day_def day_of_def seconds_per_day_def)
  have none: "\<forall>r\<in>set [?r1, ?r2]. approved_day r \<noteq> Some 1"
    using a b by simp
  show ?thesis
    by (rule daily_zero_filled [of ?r1 _ 0 ?r2 2]) (use a b none in simp_all)
qed

lemma daily_bin_sums:
  "sum_list (map revenue (create_daily_orders_df df)) =
     sum_skipna (map payment_value (filter (\<lambda>r. order_approved_at r \<noteq> None) df)) \<and>
   sum_list (map order_item_count (create_daily_orders_df df)) =
     sum_list (map order_item_id (filter (\<lambda>r. order_approved_at r \<noteq> None) df))"
proof -
  let ?pv = "\<lambda>r. case payment_value r of None \<Rightarrow> 0 | Some v \<Rightarrow> v"
  have "sum_list (map revenue (create_daily_orders_df df)) =
      sum_list (map (\<lambda>d. sum_list (map ?pv (group_of approved_day d df))) (resample_days df))"
    by (simp add: daily_simps comp_def sum_skipna_map)
  also have "\<dots> = sum_list (map ?pv (filter (\<lambda>r. order_approved_at r \<noteq> None) df))"
    by (simp only: sum_over_keys [OF distinct_resample_days] filter_resample_days)
  finally have rev: "sum_list (map revenue (create_daily_orders_df df)) =
      sum_skipna (map payment_value (filter (\<lambda>r. order_approved_at r \<noteq> None) df))"
    by (simp add: sum_skipna_map)
  have "sum_list (map order_item_count (create_daily_orders_df df)) =
      sum_list (map (\<lambda>d. sum_list (map order_item_id (group_of approved_day d df))) (resample_days df))"
    by (simp add: daily_simps comp_def)
  also have "\<dots> = sum_list (map order_item_id (filter (\<lambda>r. order_approved_at r \<noteq> None) df))"
    by (simp only: sum_over_keys [OF distinct_resample_days] filter_resample_days)
  finally show ?thesis using rev by simp
qed

text \<open>
  C13: the daily series loses no row. Summed over all days, revenue is the NaN-skipping
  sum of \<open>payment_value\<close> and the item count the sum of \<open>order_item_id\<close> over every row
  with an approval timestamp: each approved row is in exactly one bin.
\<close>

theorem daily_sums:
  "sum_list (map revenue (create_daily_orders_df df)) =
     sum_skipna (map payment_value (filter (\<lambda>r. order_approved_at r \<noteq> None) df)) \<and>
   sum_list (map order_item_count (create_daily_orders_df df)) =
     sum_list (map order_item_id (filter (\<lambda>r. order_approved_at r \<noteq> None) df))"
  by (rule daily_bin_sums)

lemma daily_order_counts_nunique:
  assumes "\<forall>r1\<in>set df. \<forall>r2\<in>set df. order_id r1 = order_id r2 \<longrightarrow> approved_day r1 = approved_day r2"
  shows "sum_list (map order_count (create_daily_orders_df df)) =
         nunique (map order_id (filter (\<lambda>r. order_approved_at r \<noteq> None) df))"
proof -
  have "sum_list (map order_count (create_daily_orders_df df)) =
      sum_list (map (\<lambda>d. nunique (map order_id (group_of approved_day d df))) (resample_days df))"
    by (simp add: daily_simps comp_def)
  also have "\<dots> = nunique (map order_id (filter (\<lambda>r. order_approved_at r \<noteq> None) df))"
    by (simp only: nunique_over_keys [OF distinct_resample_days assms] filter_resample_days)
  finally show ?thesis .
qed

text \<open>
  C14: summing the daily distinct-order counts counts every approved order once,
  provided all items of an order share their approval day (in the dataset approval is
  a property of the order); without it an order is counted once per day.
\<close>

theorem daily_order_count_sum:
  assumes "\<forall>r1\<in>set df. \<forall>r2\<in>set df. order_id r1 = order_id r2 \<longrightarrow> approved_day r1 = approved_day r2"
  shows "sum_list (map order_count (create_daily_orders_df df)) =
         nunique (map order_id (filter (\<lambda>r. order_approved_at r \<noteq> None) df))"
  by (rule daily_order_counts_nunique [OF assms])

theorem daily_order_count_sum_witness:
  "sum_list (map order_count (create_daily_orders_df
      [(blank_row ''o1'')\<lparr>order_approved_at := Some 3600\<rparr>,
       (blank_row ''o1'')\<lparr>order_item_id := 2, order_approved_at := Some 3600\<rparr>,
       (blank_row ''o2'')\<lparr>order_approved_at := Some 176400\<rparr>])) = 2"
proof -
  let ?df = "[(blank_row ''o1'')\<lparr>order_approved_at := Some 3600\<rparr>,
       (blank_row ''o1'')\<lparr>order_item_id := 2, order_approved_at := Some 3600\<rparr>,
       (blank_row ''o2'')\<lparr>order_approved_at := Some 176400\<rparr>]"
  have fd: "\<forall>r1\<in>set ?df. \<forall>r2\<in>set ?df. order_id r1 = order_id r2 \<longrightarrow> approved_day r1 = approved_day r2"
    by (simp add: blank_row_def approved_day_def)
  have "nunique (map order_id (filter (\<lambda>r. order_approved_at r \<noteq> None) ?df)) = 2"
    by (simp add: blank_row_def nunique_def)
  then show ?thesis using daily_order_count_sum [OF fd] by simp
qed

end
