(* ===== verification/Ranking.thy ===== *)
theory Ranking
  imports Orders
begin

text \<open>
  The best and worst performing categories, \<open>plot_best_worst_performing_product(df)\<close>
  of dashboard.py lines 115--178.
  \<^item> \<open>sum_order_items_df\<close> (lines 116--118): \<open>groupby\<close> on the category label
    (NaN labels dropped), \<open>order_item_id.sum()\<close>, sorted descending, index reset.
  \<^item> The left chart shows \<open>head(5)\<close> of it and labels bar \<open>i\<close> with its value
    (lines 125--145); the right chart sorts the same table ascending and shows its
    \<open>head(5)\<close>, labelled in the same way (lines 148--176).
  A label is the triple (x, y, text) handed to \<open>ax.text\<close>.
\<close>

type_synonym sales_table = "(string \<times> int) list"

definition sum_order_items_df :: "orders_table \<Rightarrow> sales_table" where
  "sum_order_items_df df =
     sort_values_desc snd
       (groupby_agg product_category_name_english (\<lambda>g. sum_list (map order_item_id g)) df)"

record ranking_plot =
  best_bars :: sales_table
  best_labels :: "(int \<times> nat \<times> int) list"
  worst_bars :: sales_table
  worst_labels :: "(int \<times> nat \<times> int) list"

definition bar_labels :: "sales_table \<Rightarrow> (int \<times> nat \<times> int) list" where
  "bar_labels bars = map (\<lambda>(i, v). (v, i, v)) (zip [0..<length bars] (map snd bars))"

definition plot_best_worst_performing_product :: "orders_table \<Rightarrow> ranking_plot" where
  "plot_best_worst_performing_product df =
     (let s = sum_order_items_df df;
          asc_sum_order = take 5 (sort_values_asc snd s)
      in \<lparr>best_bars = take 5 s,
          best_labels = map (\<lambda>i. (snd (s ! i), i, snd (s ! i))) [0..<length (take 5 s)],
          worst_bars = asc_sum_order,
          worst_labels = bar_labels asc_sum_order\<rparr>)"

lemma set_take_drop_cover: "y \<in> set xs \<Longrightarrow> y \<notin> set (take k xs) \<Longrightarrow> y \<in> set (drop k xs)"
  by (metis Un_iff append_take_drop_id set_append)

lemma sorted_desc_sum_order_items_df: "sorted_desc snd (sum_order_items_df df)"
  by (simp add: sum_order_items_df_def sorted_desc_sort_values_desc)

lemma twice_sum_upto: "2 * sum_list [1..<n+1] = n * (n + 1)"
  by (induction n) (simp_all add: algebra_simps)

lemma sum_int_upto: "sum_list (map int [1..<n+1]) = int (n * (n + 1) div 2)"
proof -
  have "sum_list (map int [1..<n+1]) = int (sum_list [1..<n+1])"
    by (simp add: sum_list_of_nat)
  moreover have "sum_list [1..<n+1] = n * (n + 1) div 2"
    using twice_sum_upto [of n] by simp
  ultimately show ?thesis by simp
qed

text \<open>
  C17: the left chart shows the best sellers. It has at most five bars, in descending
  order of sales, and a category that is not among them sells at most as much as
  every category shown; its labels are the plotted bars' values at the bars'
  positions, although the loop of lines 138--145 reads the whole sorted table by
  position.
\<close>

theorem best_bars_top5:
  "length (best_bars (plot_best_worst_performing_product df)) \<le> 5 \<and>
   sorted_desc snd (best_bars (plot_best_worst_performing_product df)) \<and>
   (\<forall>x\<in>set (best_bars (plot_best_worst_performing_product df)). \<forall>y\<in>set (sum_order_items_df df).
      fst y \<notin> fst ` set (best_bars (plot_best_worst_performing_product df)) \<longrightarrow> snd y \<le> snd x) \<and>
   best_labels (plot_best_worst_performing_product df) =
     bar_labels (best_bars (plot_best_worst_performing_product df))"
proof -
  let ?s = "sum_order_items_df df"
  have sd: "sorted_desc snd ?s" by (rule sorted_desc_sum_order_items_df)
  have dom: "snd y \<le> snd x" if "x \<in> set (take 5 ?s)" "y \<in> set ?s" "fst y \<notin> fst ` set (take 5 ?s)" for x y
  proof -
    from that(3) have "y \<notin> set (take 5 ?s)" by force
    with that(2) have "y \<in> set (drop 5 ?s)" by (rule set_take_drop_cover)
    with sd that(1) show ?thesis by (rule sorted_desc_take_dominates)
  qed
  have lab: "map (\<lambda>i. (snd (?s ! i), i, snd (?s ! i))) [0..<length (take 5 ?s)] = bar_labels (take 5 ?s)"
    by (simp add: bar_labels_def list_eq_iff_nth_eq)
  show ?thesis
    using dom lab sorted_wrt_take [OF sd, of 5]
    by (simp add: plot_best_worst_performing_product_def Let_def)
qed

theorem best_bars_top5_witness:
  "best_bars (plot_best_worst_performing_product
     [(blank_row ''o1'')\<lparr>product_category_name_english := Some ''a''\<rparr>,
      (blank_row ''o2'')\<lparr>order_item_id := 3, product_category_name_english := Some ''b''\<rparr>,
      (blank_row ''o3'')\<lparr>order_item_id := 2, product_category_name_english := Some ''c''\<rparr>]) =
     [(''b'', 3), (''c'', 2), (''a'', 1)] \<and>
   best_labels (plot_best_worst_performing_product
     [(blank_row ''o1'')\<lparr>product_category_name_english := Some ''a''\<rparr>,
      (blank_row ''o2'')\<lparr>order_item_id := 3, product_category_name_english := Some ''b''\<rparr>,
      (blank_row ''o3'')\<lparr>order_item_id := 2, product_category_name_english := Some ''c''\<rparr>]) =
     [(3, 0, 3), (2, 1, 2), (1, 2, 1)]"
  using best_bars_top5 [of "[(blank_row ''o1'')\<lparr>product_category_name_english := Some ''a''\<rparr>,
      (blank_row ''o2'')\<lparr>order_item_id := 3, product_category_name_english := Some ''b''\<rparr>,
      (blank_row ''o3'')\<lparr>order_item_id := 2, product_category_name_english := Some ''c''\<rparr>]"]
  by code_simp

text \<open>
  C18: the right chart shows the worst sellers: at most five bars, in ascending order
  of sales, every category not shown selling at least as much as each one shown. It is
  the head of an ascending sort of the ranking, not the reversed tail of the
  descending one.
\<close>

theorem worst_bars_bottom5:
  "length (worst_bars (plot_best_worst_performing_product df)) \<le> 5 \<and>
   sorted (map snd (worst_bars (plot_best_worst_performing_product df))) \<and>
   (\<forall>x\<in>set (worst_bars (plot_best_worst_performing_product df)). \<forall>y\<in>set (sum_order_items_df df).
      fst y \<notin> fst ` set (worst_bars (plot_best_worst_performing_product df)) \<longrightarrow> snd x \<le> snd y)"
proof -
  let ?a = "sort_values_asc snd (sum_order_items_df df)"
  have sa: "sorted (map snd ?a)" by (rule sorted_sort_values_asc)
  have dom: "snd x \<le> snd y" if "x \<in> set (take 5 ?a)" "y \<in> set (sum_order_items_df df)"
    "fst y \<notin> fst ` set (take 5 ?a)" for x y
  proof -
    from that(3) have "y \<notin> set (take 5 ?a)" by force
    moreover from that(2) have "y \<in> set ?a" by simp
    ultimately have "y \<in> set (drop 5 ?a)" by (intro set_take_drop_cover)
    with sa that(1) show ?thesis by (rule sorted_take_dominated)
  qed
  have "sorted (map snd (take 5 ?a))" using sorted_wrt_take [OF sa, of 5] by (simp add: take_map)
  then show ?thesis
    using dom by (simp add: plot_best_worst_performing_product_def Let_def)
qed

theorem worst_bars_bottom5_witness:
  "worst_bars (plot_best_worst_performing_product
     [(blank_row ''o1'')\<lparr>product_category_name_english := Some ''a''\<rparr>,
      (blank_row ''o2'')\<lparr>order_item_id := 3, product_category_name_english := Some ''b''\<rparr>,
      (blank_row ''o3'')\<lparr>order_item_id := 2, product_category_name_english := Some ''c''\<rparr>]) =
     [(''a'', 1), (''c'', 2), (''b'', 3)]"
  using worst_bars_bottom5 [of "[(blank_row ''o1'')\<lparr>product_category_name_english := Some ''a''\<rparr>,
      (blank_row ''o2'')\<lparr>order_item_id := 3, product_category_name_english := Some ''b''\<rparr>,
      (blank_row ''o3'')\<lparr>order_item_id := 2, product_category_name_english := Some ''c''\<rparr>]"]
  by code_simp

text \<open>
  C19: the ranking drops only NaN categories. The sales of all categories add up to
  the sum of \<open>order_item_id\<close> over the rows with a category label; rows whose label is
  NaN are left out by \<open>groupby\<close>, so the spec's "equals the total item count of the
  working table" holds only when every row has a label.
\<close>

theorem category_sales_total:
  "sum_list (map snd (sum_order_items_df df)) =
   sum_list (map order_item_id (filter (\<lambda>r. product_category_name_english r \<noteq> None) df))"
  by (simp add: sum_order_items_df_def sum_list_sort_values_desc sum_groupby_agg)

text \<open>
  C20: "Number of Sales" sums item sequence numbers. \<open>order_item_id\<close> numbers the items
  within an order 1, 2, ...; a category whose rows are the \<open>n\<close> items of one order is
  credited \<open>n (n + 1) / 2\<close> sales, not \<open>n\<close>.
\<close>

theorem sales_counts_item_numbers:
  assumes "map order_item_id (group_of product_category_name_english c df) = map int [1..<n+1]"
    and "0 < n"
  shows "(c, int (n * (n + 1) div 2)) \<in> set (sum_order_items_df df)"
proof -
  from assms have "group_of product_category_name_english c df \<noteq> []" by auto
  then obtain r where "r \<in> set df" "product_category_name_english r = Some c"
    by (auto simp: group_of_def filter_empty_conv)
  then have "c \<in> set (group_keys product_category_name_english df)" by (rule group_keys_member)
  then have "(c, sum_list (map order_item_id (group_of product_category_name_english c df)))
      \<in> set (groupby_agg product_category_name_english (\<lambda>g. sum_list (map order_item_id g)) df)"
    by (rule groupby_agg_member)
  moreover have "sum_list (map order_item_id (group_of product_category_name_english c df)) =
      int (n * (n + 1) div 2)"
    by (simp only: assms(1) sum_int_upto)
  ultimately show ?thesis by (simp add: sum_order_items_df_def)
qed

theorem sales_counts_item_numbers_witness:
  "(''toys'', 6) \<in> set (sum_order_items_df
     [(blank_row ''o1'')\<lparr>product_category_name_english := Some ''toys''\<rparr>,
      (blank_row ''o1'')\<lparr>order_item_id := 2, product_category_name_english := Some ''toys''\<rparr>,
      (blank_row ''o1'')\<lparr>order_item_id := 3, product_category_name_english := Some ''toys''\<rparr>])"
proof -
  have h: "map order_item_id (group_of product_category_name_english ''toys''
     [(blank_row ''o1'')\<lparr>product_category_name_english := Some ''toys''\<rparr>,
      (blank_row ''o1'')\<lparr>order_item_id := 2, product_category_name_english := Some ''toys''\<rparr>,
      (blank_row ''o1'')\<lparr>order_item_id := 3, product_category_name_english := Some ''toys''\<rparr>]) =
     map int [1..<3+1]"
    by code_simp
  have "(3::nat) * (3 + 1) div 2 = 6" by simp
  then show ?thesis using sales_counts_item_numbers [OF h] by (simp only: of_nat_numeral)
qed

end
