(* ===== verification/Reviews.thy ===== *)
theory Reviews
  imports Orders Currency
begin

text \<open>
  The review-score charts, \<open>plot_review_scores_distribution(df)\<close> of dashboard.py
  lines 180--241.
  \<^item> \<open>review_scores\<close> (line 181): \<open>value_counts()\<close> of the score column (NaN
    dropped, one count per distinct score, sorted by count descending, ties in first
    occurrence order) followed by a second \<open>sort_values(ascending=False)\<close>.
  \<^item> The bar chart (lines 186--210) uses the five-colour palette positionally and
    writes each count above its bar.
  \<^item> The pie chart (lines 213--241) divides the counts by their sum and multiplies by
    100, and colours each wedge by looking its score up in the dict \<open>review_colors\<close>
    (KeyError for a score outside 1..5). Its wedge labels are the scores as
    \<open>str(int)\<close> (\<open>str_int\<close>) and its \<open>autopct='%1.1f%%'\<close> texts the share of
    each wedge in the normalised sizes, times 100, with one decimal (\<open>format_pct1\<close>,
    half-even on the exact value) and a percent sign (\<open>pie_autopct\<close>).
\<close>

datatype colour = Highlight \<comment> \<open>#577fd7\<close> | Muted \<comment> \<open>#bcccef\<close>

definition value_counts :: "'a option list \<Rightarrow> ('a \<times> nat) list" where
  "value_counts xs =
     (let ys = dropna xs in sort_values_desc snd (map (\<lambda>v. (v, count_list ys v)) (remdups ys)))"

definition review_scores :: "orders_table \<Rightarrow> (int \<times> nat) list" where
  "review_scores df = sort_values_desc snd (value_counts (map review_score df))"

definition percentages :: "(int \<times> nat) list \<Rightarrow> (int \<times> rat) list" where
  "percentages counts =
     (let total = sum_list (map snd counts) in
      map (\<lambda>(k, c). (k, of_nat c / of_nat total * 100)) counts)"

definition palette5 :: "colour list" where
  "palette5 = [Highlight, Muted, Muted, Muted, Muted]"

definition review_colors :: "int \<rightharpoonup> colour" where
  "review_colors = [5 \<mapsto> Highlight, 4 \<mapsto> Muted, 3 \<mapsto> Muted, 2 \<mapsto> Muted, 1 \<mapsto> Muted]"

definition str_int :: "int \<Rightarrow> string" where
  "str_int k = (if k < 0 then ''-'' @ digits_of (nat (- k)) else digits_of (nat k))"

definition format_pct1 :: "rat \<Rightarrow> string" where
  "format_pct1 q =
     (let a = nat \<bar>round_half_even (q * 10)\<bar> in
      (if q < 0 then ''-'' else []) @ digits_of (a div 10) @ ''.'' @ digits_of (a mod 10) @ ''%'')"

definition pie_autopct :: "(int \<times> rat) list \<Rightarrow> string list" where
  "pie_autopct pct =
     (let sx = sum_list (map snd pct) in map (\<lambda>(_, x). format_pct1 (100 * (x / sx))) pct)"

record review_plot =
  score_bars :: "(int \<times> nat) list"
  score_bar_colors :: "colour list"
  score_bar_texts :: "(nat \<times> nat \<times> nat) list"
  score_pie :: "py_error + ((int \<times> rat) list \<times> colour list \<times> string list \<times> string list)"

definition plot_review_scores_distribution :: "orders_table \<Rightarrow> review_plot" where
  "plot_review_scores_distribution df =
     (let rs = review_scores df;
          pct = percentages rs
      in \<lparr>score_bars = rs,
          score_bar_colors = map (\<lambda>i. palette5 ! (i mod 5)) [0..<length rs],
          score_bar_texts = map (\<lambda>(i, v). (i, v, v)) (zip [0..<length rs] (map snd rs)),
          score_pie = (case lookup_all review_colors (map fst pct) of
                         Inl e \<Rightarrow> Inl e
                       | Inr cs \<Rightarrow> Inr (pct, cs, map (str_int \<circ> fst) pct, pie_autopct pct))\<rparr>)"

lemma set_value_counts:
  "(k, c) \<in> set (value_counts xs) \<longleftrightarrow> 0 < c \<and> c = count_list (dropna xs) k"
proof -
  have "(k, c) \<in> set (map (\<lambda>v. (v, count_list (dropna xs) v)) (remdups (dropna xs))) \<longleftrightarrow>
        k \<in> set (dropna xs) \<and> c = count_list (dropna xs) k"
    by auto
  also have "\<dots> \<longleftrightarrow> 0 < c \<and> c = count_list (dropna xs) k"
    using count_list_0_iff [of "dropna xs" k] by auto
  finally show ?thesis by (simp add: value_counts_def Let_def del: set_dropna)
qed

lemma sum_value_counts: "sum_list (map snd (value_counts xs)) = length (dropna xs)"
proof -
  let ?ys = "dropna xs"
  have "sum_list (map snd (value_counts xs)) = sum_list (map (count_list ?ys) (remdups ?ys))"
    by (simp add: value_counts_def Let_def sum_list_sort_values_desc comp_def del: set_dropna)
  also have "\<dots> = sum (count_list ?ys) (set ?ys)"
    by (simp add: sum_list_distinct_conv_sum_set del: set_dropna)
  also have "\<dots> = length ?ys" by (rule sum_count_set) (simp_all del: set_dropna)
  finally show ?thesis .
qed

lemma sorted_desc_value_counts: "sorted_desc snd (value_counts xs)"
  by (simp add: value_counts_def Let_def sorted_desc_sort_values_desc del: set_dropna)

lemma sum_list_scaled:
  "sum_list (map (\<lambda>p. of_nat (snd p) / t * 100) xs) = of_nat (sum_list (map snd xs)) / t * (100::rat)"
  by (induction xs) (simp_all add: add_divide_distrib distrib_right)

lemma sum_percentages:
  assumes "0 < sum_list (map snd counts)"
  shows "sum_list (map snd (percentages counts)) = 100"
proof -
  define t where "t = sum_list (map snd counts)"
  from assms have "0 < t" by (simp only: t_def)
  then have nz: "(of_nat t :: rat) \<noteq> 0" by simp
  have "sum_list (map snd (percentages counts)) =
      sum_list (map (\<lambda>p. of_nat (snd p) / of_nat t * 100) counts)"
    unfolding percentages_def Let_def t_def by (simp add: comp_def case_prod_beta)
  also have "\<dots> = of_nat t / of_nat t * 100"
    by (simp only: sum_list_scaled t_def)
  also have "\<dots> = 100" using nz by simp
  finally show ?thesis .
qed

lemma score_bars_counts:
  "((k, c) \<in> set (score_bars (plot_review_scores_distribution df)) \<longleftrightarrow>
      0 < c \<and> c = count_list (dropna (map review_score df)) k) \<and>
   sum_list (map snd (score_bars (plot_review_scores_distribution df))) =
      length (dropna (map review_score df))"
  by (simp add: plot_review_scores_distribution_def review_scores_def Let_def set_value_counts
      sum_list_sort_values_desc sum_value_counts del: set_dropna)

text \<open>
  C21: the review-score counts are exact. The bar chart has one bar per score present,
  its height the number of rows with that score; the counts add up to the number of
  rated rows (NaN scores are not counted).
\<close>

theorem review_scores_counts:
  "((k, c) \<in> set (score_bars (plot_review_scores_distribution df)) \<longleftrightarrow>
      0 < c \<and> c = count_list (dropna (map review_score df)) k) \<and>
   sum_list (map snd (score_bars (plot_review_scores_distribution df))) =
      length (dropna (map review_score df))"
  by (rule score_bars_counts)

text \<open>
  The second sort of line 181 changes nothing: \<open>value_counts()\<close> already orders the
  counts descending, so \<open>.sort_values(ascending=False)\<close> returns the same series.
\<close>

theorem review_scores_resort_noop:
  "review_scores df = value_counts (map review_score df)"
  by (simp add: review_scores_def sort_values_desc_id sorted_desc_value_counts)

text \<open>
  C23: the pie's percentages add up to 100 whenever some row has a review score.
\<close>

theorem review_percentages_sum:
  assumes "\<exists>r\<in>set df. review_score r \<noteq> None"
  shows "sum_list (map snd (percentages (score_bars (plot_review_scores_distribution df)))) = 100"
proof -
  from assms have "dropna (map review_score df) \<noteq> []" by (auto simp: dropna_Nil_iff)
  then have "0 < sum_list (map snd (score_bars (plot_review_scores_distribution df)))"
    using score_bars_counts [of _ _ df] by simp
  then show ?thesis by (rule sum_percentages)
qed

theorem review_percentages_sum_witness:
  "sum_list (map snd (percentages (score_bars (plot_review_scores_distribution
     [(blank_row ''o1'')\<lparr>review_score := Some 5\<rparr>, (blank_row ''o2'')\<lparr>review_score := Some 4\<rparr>,
      (blank_row ''o3'')\<lparr>review_score := Some 5\<rparr>])))) = 100"
proof -
  have h: "\<exists>r\<in>set [(blank_row ''o1'')\<lparr>review_score := Some 5\<rparr>, (blank_row ''o2'')\<lparr>review_score := Some 4\<rparr>,
      (blank_row ''o3'')\<lparr>review_score := Some 5\<rparr>]. review_score r \<noteq> None" by simp
  show ?thesis by (rule review_percentages_sum [OF h])
qed

lemma map_fst_percentages [simp]: "map fst (percentages counts) = map fst counts"
  by (simp add: percentages_def Let_def case_prod_beta comp_def)

lemma review_scores_keys:
  "k \<in> fst ` set (review_scores df) \<longleftrightarrow> (\<exists>r\<in>set df. review_score r = Some k)"
proof -
  have "k \<in> fst ` set (review_scores df) \<longleftrightarrow> (\<exists>c. (k, c) \<in> set (value_counts (map review_score df)))"
    by (force simp: review_scores_def)
  also have "\<dots> \<longleftrightarrow> 0 < count_list (dropna (map review_score df)) k"
    by (auto simp: set_value_counts simp del: set_dropna)
  also have "\<dots> \<longleftrightarrow> k \<in> set (dropna (map review_score df))"
    using count_list_0_iff [of "dropna (map review_score df)" k] by (metis neq0_conv)
  also have "\<dots> \<longleftrightarrow> (\<exists>r\<in>set df. review_score r = Some k)" by force
  finally show ?thesis .
qed

lemma review_colors_None_iff: "review_colors k = None \<longleftrightarrow> k < 1 \<or> 5 < k"
  by (auto simp: review_colors_def)

lemma score_pie_Inl_iff:
  "score_pie (plot_review_scores_distribution df) = Inl e \<longleftrightarrow>
   e = KeyError \<and> (\<exists>r s. r \<in> set df \<and> review_score r = Some s \<and> (s < 1 \<or> 5 < s))"
proof -
  have "score_pie (plot_review_scores_distribution df) = Inl e \<longleftrightarrow>
      lookup_all review_colors (map fst (review_scores df)) = Inl e"
    by (simp add: plot_review_scores_distribution_def Let_def split: sum.split)
  also have "\<dots> \<longleftrightarrow> e = KeyError \<and> (\<exists>k\<in>set (map fst (review_scores df)). review_colors k = None)"
    by (simp only: lookup_all_Inl_iff)
  also have "\<dots> \<longleftrightarrow> e = KeyError \<and> (\<exists>k. k \<in> fst ` set (review_scores df) \<and> (k < 1 \<or> 5 < k))"
    by (simp only: set_map review_colors_None_iff) blast
  also have "\<dots> \<longleftrightarrow> e = KeyError \<and> (\<exists>k. (\<exists>r\<in>set df. review_score r = Some k) \<and> (k < 1 \<or> 5 < k))"
    by (simp only: review_scores_keys)
  also have "\<dots> \<longleftrightarrow> e = KeyError \<and> (\<exists>r s. r \<in> set df \<and> review_score r = Some s \<and> (s < 1 \<or> 5 < s))"
    by blast
  finally show ?thesis .
qed

text \<open>
  C24: the pie chart fails on a score outside 1..5. Looking the scores up in
  \<open>review_colors\<close> raises KeyError exactly when some row has a review score below 1 or
  above 5; otherwise the pie gets one colour per score, highlighted for score 5 only.
\<close>

theorem review_pie_key_error:
  "score_pie (plot_review_scores_distribution df) = Inl KeyError \<longleftrightarrow>
   (\<exists>r s. r \<in> set df \<and> review_score r = Some s \<and> (s < 1 \<or> 5 < s))"
  using score_pie_Inl_iff [of df KeyError] by simp

lemma pie_autopct_percentages:
  "sum_list (map snd pct) = 100 \<Longrightarrow> pie_autopct pct = map (format_pct1 \<circ> snd) pct"
  by (simp add: pie_autopct_def split_def)

lemma format_pct1_value:
  assumes "0 \<le> q"
  shows "\<exists>a. format_pct1 q = digits_of (a div 10) @ ''.'' @ digits_of (a mod 10) @ ''%'' \<and>
    \<bar>of_nat a / 10 - q\<bar> \<le> 1 / 20"
proof -
  let ?r = "round_half_even (q * 10)"
  have r: "0 \<le> ?r" using assms by (simp add: round_half_even_nonneg)
  have "\<bar>of_int ?r - q * 10\<bar> \<le> 1 / 2" by (rule round_half_even_dist)
  then have "\<bar>of_int ?r / 10 - q\<bar> \<le> 1 / 20" by (simp add: abs_le_iff field_simps)
  moreover have "(of_nat (nat \<bar>?r\<bar>) :: rat) = of_int ?r" using r by simp
  ultimately show ?thesis using assms by (intro exI [of _ "nat \<bar>?r\<bar>"]) (simp add: format_pct1_def Let_def)
qed

lemma review_pie_texts:
  assumes "score_pie (plot_review_scores_distribution df) = Inr (pct, cs, labels, texts)"
    and "review_scores df \<noteq> []"
  shows "pct = percentages (review_scores df) \<and> labels = map (str_int \<circ> fst) pct \<and>
    texts = map (format_pct1 \<circ> snd) pct"
proof -
  have p: "pct = percentages (review_scores df)" "labels = map (str_int \<circ> fst) pct" "texts = pie_autopct pct"
    using assms(1) by (auto simp: plot_review_scores_distribution_def Let_def split: sum.splits)
  obtain k c where kc: "(k, c) \<in> set (review_scores df)" using assms(2) by (cases "review_scores df") auto
  then have "0 < c" using score_bars_counts [of k c df] by (simp add: plot_review_scores_distribution_def Let_def)
  moreover have "c \<le> sum_list (map snd (review_scores df))"
    using kc by (intro member_le_sum_list) (force, simp)
  ultimately have "0 < sum_list (map snd (review_scores df))" by (rule less_le_trans)
  then have "sum_list (map snd pct) = 100" unfolding p(1) by (rule sum_percentages)
  then show ?thesis using p by (simp add: pie_autopct_percentages)
qed

end
