(* ===== verification/Demographics.thy ===== *)
theory Demographics
  imports Reviews Currency
begin

text \<open>
  The demographic charts, \<open>plot_demographic_characteristics(df)\<close> of dashboard.py
  lines 256--333.
  \<^item> \<open>bystate_df\<close> (lines 258--260): distinct orders per customer state, sorted
    descending; \<open>idxmax\<close> (line 262) is the position of the first maximal count and
    raises ValueError on an empty series; the state found there is highlighted in
    \<open>colors_\<close> (lines 264--267), here \<open>state_palette\<close> (Isabelle reserves names
    ending in an underscore).
  \<^item> \<open>bycity_df\<close> (lines 294--296): the ten cities with most distinct orders, drawn
    with the palette \<open>colors_\<close> (\<open>state_palette\<close>) computed for the states (line 299); seaborn cycles a
    palette that is shorter than the bars.
  \<^item> \<open>bypayment_type_df\<close> (lines 313--315): distinct orders per payment type, drawn with
    the five-colour palette.
  \<^item> The bar labels (lines 280--287, 303--304, 326--327): \<open>ax.text\<close> writes
    \<open>str(value)\<close> at \<open>(i, value)\<close> on the vertical state chart (\<open>vbar_labels\<close>) and
    at \<open>(value, i)\<close> on the horizontal city and payment charts (\<open>hbar_labels\<close>).
  The result holds the bars, their colours and their labels; the drawing itself is not
  modelled.
\<close>

definition nunique_by :: "(order_row \<Rightarrow> string option) \<Rightarrow> orders_table \<Rightarrow> (string \<times> nat) list" where
  "nunique_by key df = sort_values_desc snd (groupby_agg key (\<lambda>g. nunique (map order_id g)) df)"

fun argmax_from :: "nat \<Rightarrow> nat \<Rightarrow> 'a::linorder \<Rightarrow> 'a list \<Rightarrow> nat" where
  "argmax_from i best bv [] = best"
| "argmax_from i best bv (x # xs) =
     (if bv < x then argmax_from (Suc i) i x xs else argmax_from (Suc i) best bv xs)"

definition idxmax :: "'a::linorder list \<Rightarrow> py_error + nat" where
  "idxmax vs = (case vs of [] \<Rightarrow> Inl ValueError | v # rest \<Rightarrow> Inr (argmax_from 1 0 v rest))"

definition cycle_palette :: "colour list \<Rightarrow> nat \<Rightarrow> colour list" where
  "cycle_palette pal n = map (\<lambda>i. pal ! (i mod length pal)) [0..<n]"

definition vbar_labels :: "(string \<times> nat) list \<Rightarrow> (nat \<times> nat \<times> string) list" where
  "vbar_labels bars = map (\<lambda>(i, v). (i, v, digits_of v)) (zip [0..<length bars] (map snd bars))"

definition hbar_labels :: "(string \<times> nat) list \<Rightarrow> (nat \<times> nat \<times> string) list" where
  "hbar_labels bars = map (\<lambda>(i, v). (v, i, digits_of v)) (zip [0..<length bars] (map snd bars))"

record demographics_plot =
  state_bars :: "(string \<times> nat) list"
  state_colors :: "colour list"
  city_bars :: "(string \<times> nat) list"
  city_colors :: "colour list"
  payment_bars :: "(string \<times> nat) list"
  payment_colors :: "colour list"
  state_labels :: "(nat \<times> nat \<times> string) list"
  city_labels :: "(nat \<times> nat \<times> string) list"
  payment_labels :: "(nat \<times> nat \<times> string) list"

definition plot_demographic_characteristics :: "orders_table \<Rightarrow> py_error + demographics_plot" where
  "plot_demographic_characteristics df =
     (let bystate_df = nunique_by customer_state df in
      case idxmax (map snd bystate_df) of
        Inl err \<Rightarrow> Inl err
      | Inr i \<Rightarrow>
          (let order_value_max = fst (bystate_df ! i);
               state_palette = map (\<lambda>(state, _). if state \<noteq> order_value_max then Muted else Highlight)
                           bystate_df;
               bycity_df = take 10 (nunique_by customer_city df);
               bypayment_type_df = nunique_by payment_type df
           in Inr \<lparr>state_bars = bystate_df, state_colors = state_palette,
                   city_bars = bycity_df, city_colors = cycle_palette state_palette (length bycity_df),
                   payment_bars = bypayment_type_df,
                   payment_colors = cycle_palette palette5 (length bypayment_type_df),
                   state_labels = vbar_labels bystate_df, city_labels = hbar_labels bycity_df,
                   payment_labels = hbar_labels bypayment_type_df\<rparr>))"

lemma argmax_from_dominated:
  "\<forall>x\<in>set xs. x \<le> bv \<Longrightarrow> argmax_from i best bv xs = best"
  by (induction xs arbitrary: i) auto

lemma idxmax_sorted_desc:
  "sorted_wrt (\<ge>) vs \<Longrightarrow> vs \<noteq> [] \<Longrightarrow> idxmax vs = Inr 0"
  by (cases vs) (auto simp: idxmax_def argmax_from_dominated)

lemma idxmax_Inl_iff: "idxmax vs = Inl e \<longleftrightarrow> vs = [] \<and> e = ValueError"
  by (auto simp: idxmax_def split: list.splits)

lemma sorted_desc_nunique_by: "sorted_wrt (\<ge>) (map snd (nunique_by key df))"
proof -
  have "sorted_desc snd (nunique_by key df)"
    by (simp add: nunique_by_def sorted_desc_sort_values_desc)
  then show ?thesis by (simp add: sorted_wrt_map)
qed

lemma distinct_keys_nunique_by: "distinct (map fst (nunique_by key df))"
proof -
  let ?g = "groupby_agg key (\<lambda>g. nunique (map order_id g)) df"
  have "mset (map fst (nunique_by key df)) = mset (map fst ?g)"
    unfolding nunique_by_def mset_map mset_sort_values_desc ..
  moreover have "distinct (map fst ?g)" by (simp only: map_fst_groupby_agg distinct_group_keys)
  ultimately show ?thesis by (simp only: mset_eq_imp_distinct_iff [of "map fst (nunique_by key df)"])
qed

lemma nunique_by_Nil_iff: "nunique_by key df = [] \<longleftrightarrow> (\<forall>r\<in>set df. key r = None)"
proof -
  have "length (nunique_by key df) = length (group_keys key df)" by (simp add: nunique_by_def)
  then have "nunique_by key df = [] \<longleftrightarrow> group_keys key df = []" by (metis length_0_conv)
  then show ?thesis by (simp only: group_keys_Nil_iff)
qed

lemma highlight_first:
  assumes "distinct (map fst xs)" and "xs \<noteq> []"
  shows "map (\<lambda>(s, _). if s \<noteq> fst (xs ! 0) then Muted else Highlight) xs =
         Highlight # replicate (length xs - 1) Muted"
proof -
  obtain y ys where xs: "xs = y # ys" using assms(2) by (cases xs) auto
  have "\<forall>z\<in>set ys. fst z \<noteq> fst y" using assms(1) by (simp add: xs) (metis image_eqI)
  then have "map (\<lambda>(s, _). if s \<noteq> fst y then Muted else Highlight) ys = replicate (length ys) Muted"
    by (induction ys) auto
  then show ?thesis by (simp add: xs split_def)
qed
lemma sum_list_nunique_by:
  assumes "\<forall>r1\<in>set df. \<forall>r2\<in>set df. order_id r1 = order_id r2 \<longrightarrow> key r1 = key r2"
  shows "sum_list (map snd (nunique_by key df)) = nunique (map order_id (filter (\<lambda>r. key r \<noteq> None) df))"
  using nunique_groupby_agg [OF assms] by (simp add: nunique_by_def sum_list_sort_values_desc)

lemma plot_demographic_ne:
  assumes "nunique_by customer_state df \<noteq> []"
  shows "plot_demographic_characteristics df = Inr
    \<lparr>state_bars = nunique_by customer_state df,
     state_colors = Highlight # replicate (length (nunique_by customer_state df) - 1) Muted,
     city_bars = take 10 (nunique_by customer_city df),
     city_colors = cycle_palette (Highlight # replicate (length (nunique_by customer_state df) - 1) Muted)
                     (length (take 10 (nunique_by customer_city df))),
     payment_bars = nunique_by payment_type df,
     payment_colors = cycle_palette palette5 (length (nunique_by payment_type df)),
     state_labels = vbar_labels (nunique_by customer_state df),
     city_labels = hbar_labels (take 10 (nunique_by customer_city df)),
     payment_labels = hbar_labels (nunique_by payment_type df)\<rparr>"
proof -
  let ?s = "nunique_by customer_state df"
  have idx: "idxmax (map snd ?s) = Inr 0"
    using assms by (simp add: idxmax_sorted_desc sorted_desc_nunique_by)
  have hl: "map (\<lambda>(state, _). if state \<noteq> fst (?s ! 0) then Muted else Highlight) ?s =
      Highlight # replicate (length ?s - 1) Muted"
    by (rule highlight_first [OF distinct_keys_nunique_by assms])
  show ?thesis unfolding plot_demographic_characteristics_def Let_def idx sum.case hl ..
qed

lemma plot_demographic_Nil:
  "nunique_by customer_state df = [] \<Longrightarrow> plot_demographic_characteristics df = Inl ValueError"
  unfolding plot_demographic_characteristics_def Let_def by (simp add: idxmax_def)

lemma plot_demographic_Inr:
  assumes "plot_demographic_characteristics df = Inr p"
  shows "nunique_by customer_state df \<noteq> [] \<and> p = 
    \<lparr>state_bars = nunique_by customer_state df,
     state_colors = Highlight # replicate (length (nunique_by customer_state df) - 1) Muted,
     city_bars = take 10 (nunique_by customer_city df),
     city_colors = cycle_palette (Highlight # replicate (length (nunique_by customer_state df) - 1) Muted)
                     (length (take 10 (nunique_by customer_city df))),
     payment_bars = nunique_by payment_type df,
     payment_colors = cycle_palette palette5 (length (nunique_by payment_type df)),
     state_labels = vbar_labels (nunique_by customer_state df),
     city_labels = hbar_labels (take 10 (nunique_by customer_city df)),
     payment_labels = hbar_labels (nunique_by payment_type df)\<rparr>"
proof (cases "nunique_by customer_state df = []")
  case True
  with assms plot_demographic_Nil show ?thesis by simp
next
  case False
  with assms plot_demographic_ne [OF False] show ?thesis by simp
qed

lemma nth_highlight_replicate:
  "i < Suc n \<Longrightarrow> (Highlight # replicate n Muted) ! i = Highlight \<longleftrightarrow> i = 0"
  by (cases i) simp_all

lemma plot_demographic_Inl_iff:
  "plot_demographic_characteristics df = Inl e \<longleftrightarrow> e = ValueError \<and> (\<forall>r\<in>set df. customer_state r = None)"
proof (cases "nunique_by customer_state df = []")
  case True
  then show ?thesis using plot_demographic_Nil nunique_by_Nil_iff by auto
next
  case False
  then show ?thesis using plot_demographic_ne [OF False] nunique_by_Nil_iff by simp
qed

text \<open>
  C25: the demographic section fails on a table without states. \<open>idxmax\<close> of the
  empty per-state series raises ValueError, which happens exactly when no row has a
  customer state (an empty date range included); the spec says empty input is never
  fatal.
\<close>

theorem demographics_value_error:
  "plot_demographic_characteristics df = Inl ValueError \<longleftrightarrow> (\<forall>r\<in>set df. customer_state r = None)"
  using plot_demographic_Inl_iff [of df ValueError] by simp

theorem demographics_value_error_witness:
  "plot_demographic_characteristics [blank_row ''o1''] = Inl ValueError"
  using demographics_value_error [of "[blank_row ''o1'']"] by (simp add: blank_row_def)

lemma sorted_desc_head_max:
  fixes xs :: "('a \<times> 'b::linorder) list"
  shows "sorted_wrt (\<ge>) (map snd xs) \<Longrightarrow> x \<in> set xs \<Longrightarrow> snd x \<le> snd (xs ! 0)"
  by (cases xs) auto

lemma nth_cycle_palette:
  "i < n \<Longrightarrow> cycle_palette pal n ! i = pal ! (i mod length pal)"
  by (simp add: cycle_palette_def)

text \<open>
  C26: the state chart highlights its first bar and only it. On success the bars are
  the distinct-order counts per state, one bar per state, in descending order; the
  colour list has one entry per bar, the first bar alone is highlighted, and its count
  is the largest: \<open>idxmax\<close> finds the first maximum, which the descending sort put
  first.
\<close>

theorem demographics_state_highlight:
  assumes "plot_demographic_characteristics df = Inr p"
  shows "state_bars p = nunique_by customer_state df \<and> distinct (map fst (state_bars p)) \<and>
    length (state_colors p) = length (state_bars p) \<and>
    (\<forall>i<length (state_bars p). state_colors p ! i = Highlight \<longleftrightarrow> i = 0) \<and>
    (\<forall>x\<in>set (state_bars p). snd x \<le> snd (state_bars p ! 0))"
proof -
  from plot_demographic_Inr [OF assms] have ne: "nunique_by customer_state df \<noteq> []"
    and p: "state_bars p = nunique_by customer_state df"
      "state_colors p = Highlight # replicate (length (nunique_by customer_state df) - 1) Muted"
    by simp_all
  have "\<forall>x\<in>set (state_bars p). snd x \<le> snd (state_bars p ! 0)"
    using sorted_desc_head_max [OF sorted_desc_nunique_by] p(1) by simp
  moreover have "\<forall>i<length (state_bars p). state_colors p ! i = Highlight \<longleftrightarrow> i = 0"
    using ne p nth_highlight_replicate by (simp add: Suc_diff_1 length_greater_0_conv [symmetric] del: length_greater_0_conv)
  ultimately show ?thesis using ne p distinct_keys_nunique_by by simp
qed

theorem demographics_state_highlight_witness:
  "state_colors (projr (plot_demographic_characteristics
     [(blank_row ''o1'')\<lparr>customer_state := Some ''SP''\<rparr>, (blank_row ''o2'')\<lparr>customer_state := Some ''RJ''\<rparr>,
      (blank_row ''o3'')\<lparr>customer_state := Some ''SP''\<rparr>])) ! 1 = Muted"
proof -
  let ?t = "[(blank_row ''o1'')\<lparr>customer_state := Some ''SP''\<rparr>, (blank_row ''o2'')\<lparr>customer_state := Some ''RJ''\<rparr>,
      (blank_row ''o3'')\<lparr>customer_state := Some ''SP''\<rparr>]"
  have h: "plot_demographic_characteristics ?t = Inr (projr (plot_demographic_characteristics ?t))"
    by code_simp
  have n: "length (state_bars (projr (plot_demographic_characteristics ?t))) = 2" by code_simp
  have "state_colors (projr (plot_demographic_characteristics ?t)) ! 1 \<noteq> Highlight"
    using demographics_state_highlight [OF h] n by simp
  then show ?thesis by (cases "state_colors (projr (plot_demographic_characteristics ?t)) ! 1") simp_all
qed

text \<open>
  C27: the city chart reuses the state palette (line 299). Seaborn cycles the list
  \<open>colors_\<close> over the at most ten city bars, so city bar \<open>i\<close> is highlighted exactly
  when \<open>i\<close> is a multiple of the number of states: with fewer states than cities more
  than one city is highlighted, and with one state every city is.
\<close>

theorem demographics_city_palette:
  assumes "plot_demographic_characteristics df = Inr p" and "i < length (city_bars p)"
  shows "length (city_bars p) \<le> 10 \<and>
    (city_colors p ! i = Highlight \<longleftrightarrow> i mod length (state_bars p) = 0)"
proof -
  from plot_demographic_Inr [OF assms(1)] have ne: "nunique_by customer_state df \<noteq> []"
    and p: "state_bars p = nunique_by customer_state df" "city_bars p = take 10 (nunique_by customer_city df)"
      "city_colors p = cycle_palette (Highlight # replicate (length (nunique_by customer_state df) - 1) Muted)
                     (length (take 10 (nunique_by customer_city df)))"
    by simp_all
  let ?n = "length (nunique_by customer_state df)"
  have n: "Suc (?n - 1) = ?n" using ne by simp
  have "city_colors p ! i = (Highlight # replicate (?n - 1) Muted) ! (i mod ?n)"
    using assms(2) p n by (simp add: nth_cycle_palette)
  moreover have "i mod ?n < Suc (?n - 1)" using ne n by simp
  ultimately have "city_colors p ! i = Highlight \<longleftrightarrow> i mod ?n = 0"
    using nth_highlight_replicate by presburger
  then show ?thesis using p by simp
qed

theorem demographics_city_palette_witness:
  "city_colors (projr (plot_demographic_characteristics
     [(blank_row ''o1'')\<lparr>customer_state := Some ''SP'', customer_city := Some ''campinas''\<rparr>,
      (blank_row ''o2'')\<lparr>customer_state := Some ''SP'', customer_city := Some ''santos''\<rparr>,
      (blank_row ''o3'')\<lparr>customer_state := Some ''SP'', customer_city := Some ''campinas''\<rparr>])) ! 1 = Highlight"
proof -
  let ?t = "[(blank_row ''o1'')\<lparr>customer_state := Some ''SP'', customer_city := Some ''campinas''\<rparr>,
      (blank_row ''o2'')\<lparr>customer_state := Some ''SP'', customer_city := Some ''santos''\<rparr>,
      (blank_row ''o3'')\<lparr>customer_state := Some ''SP'', customer_city := Some ''campinas''\<rparr>]"
  have h: "plot_demographic_characteristics ?t = Inr (projr (plot_demographic_characteristics ?t))"
    by code_simp
  have c: "length (city_bars (projr (plot_demographic_characteristics ?t))) = 2" by code_simp
  have s: "length (state_bars (projr (plot_demographic_characteristics ?t))) = 1" by code_simp
  have i: "1 < length (city_bars (projr (plot_demographic_characteristics ?t)))" using c by simp
  show ?thesis using demographics_city_palette [OF h i] s by simp
qed

text \<open>
  C28: the state chart counts each order once. When every order has one customer
  state (all rows of an order agree on it), the state bars add up to the number of
  distinct orders that have a state.
\<close>

theorem demographics_state_total:
  assumes "plot_demographic_characteristics df = Inr p"
    and "\<forall>r1\<in>set df. \<forall>r2\<in>set df. order_id r1 = order_id r2 \<longrightarrow> customer_state r1 = customer_state r2"
  shows "sum_list (map snd (state_bars p)) =
    nunique (map order_id (filter (\<lambda>r. customer_state r \<noteq> None) df))"
  using plot_demographic_Inr [OF assms(1)] sum_list_nunique_by [OF assms(2)] by simp

theorem demographics_state_total_witness:
  "sum_list (map snd (state_bars (projr (plot_demographic_characteristics
     [(blank_row ''o1'')\<lparr>customer_state := Some ''SP''\<rparr>,
      (blank_row ''o1'')\<lparr>order_item_id := 2, customer_state := Some ''SP''\<rparr>,
      (blank_row ''o2'')\<lparr>customer_state := Some ''RJ''\<rparr>])))) = 2"
proof -
  let ?t = "[(blank_row ''o1'')\<lparr>customer_state := Some ''SP''\<rparr>,
       (blank_row ''o1'')\<lparr>order_item_id := 2, customer_state := Some ''SP''\<rparr>,
       (blank_row ''o2'')\<lparr>customer_state := Some ''RJ''\<rparr>]"
  have h: "plot_demographic_characteristics ?t = Inr (projr (plot_demographic_characteristics ?t))"
    by code_simp
  have fd: "\<forall>r1\<in>set ?t. \<forall>r2\<in>set ?t. order_id r1 = order_id r2 \<longrightarrow> customer_state r1 = customer_state r2"
    by (simp add: blank_row_def)
  have "nunique (map order_id (filter (\<lambda>r. customer_state r \<noteq> None) ?t)) = 2"
    by code_simp
  then show ?thesis using demographics_state_total [OF h fd] by simp
qed

lemma vbar_labels_nth:
  "i < length bars \<Longrightarrow> vbar_labels bars ! i = (i, snd (bars ! i), digits_of (snd (bars ! i)))"
  by (simp add: vbar_labels_def)

lemma hbar_labels_nth:
  "i < length bars \<Longrightarrow> hbar_labels bars ! i = (snd (bars ! i), i, digits_of (snd (bars ! i)))"
  by (simp add: hbar_labels_def)

lemma demographics_labels:
  assumes "plot_demographic_characteristics df = Inr p"
  shows "length (state_labels p) = length (state_bars p) \<and>
    (\<forall>i<length (state_bars p). state_labels p ! i = (i, snd (state_bars p ! i), digits_of (snd (state_bars p ! i))) \<and>
       read_digits (snd (snd (state_labels p ! i))) = snd (state_bars p ! i)) \<and>
    length (city_labels p) = length (city_bars p) \<and>
    (\<forall>i<length (city_bars p). city_labels p ! i = (snd (city_bars p ! i), i, digits_of (snd (city_bars p ! i)))) \<and>
    length (payment_labels p) = length (payment_bars p) \<and>
    (\<forall>i<length (payment_bars p). payment_labels p ! i = (snd (payment_bars p ! i), i, digits_of (snd (payment_bars p ! i))))"
  using plot_demographic_Inr [OF assms]
  by (simp add: vbar_labels_nth hbar_labels_nth) (simp add: vbar_labels_def hbar_labels_def)

end
