(* ===== verification/Histogram.thy ===== *)
theory Histogram
  imports Orders
begin

text \<open>
  The delivery-time histogram, \<open>plot_delivery_times_distribution(df)\<close> of
  dashboard.py lines 242--253: \<open>sns.histplot(data=df, x='order_delivery_time',
  bins=20)\<close>. Seaborn drops the NaN values, takes the column's minimum and maximum
  as the bin range and calls \<open>np.histogram(x, bins=20, range=(lo, hi))\<close>; numpy's
  uniform-bin path is modelled as it computes:
  \<^item> \<open>outer_edges\<close>: numpy's \<open>_get_outer_edges\<close>, which widens a range of zero width
    to \<open>[lo - 0.5, hi + 0.5]\<close>;
  \<^item> \<open>bin_edges\<close>: \<open>np.linspace(first_edge, last_edge, n + 1)\<close>;
  \<^item> \<open>bin_index\<close>: the bin of a value,
    \<open>(v - first_edge) * (n / (last_edge - first_edge))\<close> truncated,
    a value equal to the last edge moved into the last bin;
  \<^item> \<open>bincount\<close>: \<open>np.bincount(indices, minlength=n)\<close>.
  Values are read exactly as rationals, so numpy's corrections of floating-point
  rounding (the \<open>decrement\<close>/\<open>increment\<close> steps) change nothing and are left out.
  \<open>bin_search\<close> is the reference definition of a bin: the last edge not above the
  value, the last bin closed (\<open>searchsorted(edges, v, 'right') - 1\<close>). The KDE curve
  and the drawing are not modelled; a column without values gives \<open>None\<close> and no
  claim is made about what seaborn draws then.
\<close>

definition outer_edges :: "rat \<Rightarrow> rat \<Rightarrow> rat \<times> rat" where
  "outer_edges lo hi = (if lo = hi then (lo - 1/2, hi + 1/2) else (lo, hi))"

definition bin_edges :: "nat \<Rightarrow> rat \<Rightarrow> rat \<Rightarrow> rat list" where
  "bin_edges n first_edge last_edge =
     map (\<lambda>i. first_edge + of_nat i * (last_edge - first_edge) / of_nat n) [0..<Suc n]"

definition bin_index :: "nat \<Rightarrow> rat \<Rightarrow> rat \<Rightarrow> rat \<Rightarrow> nat" where
  "bin_index n first_edge last_edge v =
     (let k = nat \<lfloor>(v - first_edge) * (of_nat n / (last_edge - first_edge))\<rfloor>
      in if k = n then n - 1 else k)"

definition bincount :: "nat \<Rightarrow> nat list \<Rightarrow> nat list" where
  "bincount n ks = map (count_list ks) [0..<n]"

definition histogram :: "nat \<Rightarrow> rat list \<Rightarrow> rat list \<times> nat list" where
  "histogram n vs =
     (let (first_edge, last_edge) = outer_edges (Min (set vs)) (Max (set vs));
          keep = filter (\<lambda>v. first_edge \<le> v \<and> v \<le> last_edge) vs
      in (bin_edges n first_edge last_edge,
          bincount n (map (bin_index n first_edge last_edge) keep)))"

definition plot_delivery_times_distribution :: "orders_table \<Rightarrow> (rat list \<times> nat list) option" where
  "plot_delivery_times_distribution df =
     (let x = dropna (map order_delivery_time df) in if x = [] then None else Some (histogram 20 x))"

definition bin_search :: "rat list \<Rightarrow> rat \<Rightarrow> nat" where
  "bin_search es v =
     (if v = List.last es then length es - 2 else length (filter (\<lambda>e. e \<le> v) es) - 1)"

lemma filter_upt_le: "filter (\<lambda>i. i \<le> k) [0..<m] = [0..<min m (Suc k)]"
  by (induction m) (auto simp: min_def le_Suc_eq)

lemma edge_le_iff:
  assumes "first_edge < last_edge" and "0 < n"
  shows "first_edge + of_nat i * (last_edge - first_edge) / of_nat n \<le> v \<longleftrightarrow>
         int i \<le> \<lfloor>(v - first_edge) * (of_nat n / (last_edge - first_edge))\<rfloor>"
proof -
  have "first_edge + of_nat i * (last_edge - first_edge) / of_nat n \<le> v \<longleftrightarrow>
        of_nat i * (last_edge - first_edge) / of_nat n \<le> v - first_edge" by linarith
  also have "\<dots> \<longleftrightarrow> of_nat i \<le> (v - first_edge) * (of_nat n / (last_edge - first_edge))"
    using assms by (simp add: field_simps)
  also have "\<dots> \<longleftrightarrow> int i \<le> \<lfloor>(v - first_edge) * (of_nat n / (last_edge - first_edge))\<rfloor>"
    by (simp add: le_floor_iff)
  finally show ?thesis .
qed

lemma bin_pos_bounds:
  fixes v :: rat
  assumes "first_edge < last_edge" and "0 < n" and "first_edge \<le> v" and "v \<le> last_edge"
  shows "0 \<le> (v - first_edge) * (of_nat n / (last_edge - first_edge)) \<and>
         (v - first_edge) * (of_nat n / (last_edge - first_edge)) \<le> of_nat n \<and>
         (v < last_edge \<longrightarrow> (v - first_edge) * (of_nat n / (last_edge - first_edge)) < of_nat n)"
proof -
  let ?q = "(v - first_edge) / (last_edge - first_edge)"
  have eq: "(v - first_edge) * (of_nat n / (last_edge - first_edge)) = of_nat n * ?q"
    by (simp only: times_divide_eq_right mult.commute)
  have q0: "0 \<le> ?q" and q1: "?q \<le> 1" using assms by simp_all
  have q2: "v < last_edge \<longrightarrow> ?q < 1" using assms by simp
  have a: "0 \<le> of_nat n * ?q" using q0 by (metis mult_nonneg_nonneg of_nat_0_le_iff)
  have b: "of_nat n * ?q \<le> of_nat n" using q1 by (metis mult_left_le of_nat_0_le_iff)
  have c: "v < last_edge \<longrightarrow> of_nat n * ?q < of_nat n"
    using q2 assms(2) by (metis mult_strict_left_mono mult.right_neutral of_nat_0_less_iff)
  show ?thesis unfolding eq using a b c by blast
qed

lemma last_bin_edges: "0 < n \<Longrightarrow> List.last (bin_edges n first_edge last_edge) = last_edge"
  by (simp add: bin_edges_def)

lemma length_bin_edges [simp]: "length (bin_edges n first_edge last_edge) = Suc n"
  by (simp add: bin_edges_def)

lemma nth_bin_edges:
  "i \<le> n \<Longrightarrow> bin_edges n first_edge last_edge ! i = first_edge + of_nat i * (last_edge - first_edge) / of_nat n"
  by (simp add: bin_edges_def nth_map_upt del: upt_Suc)

lemma floor_nat_bounds:
  fixes x :: rat
  assumes "0 \<le> x" and "x < of_nat n"
  shows "0 \<le> \<lfloor>x\<rfloor> \<and> nat \<lfloor>x\<rfloor> < n"
  using assms by (simp add: floor_less_iff nat_less_iff)

lemma floor_bin_bounds:
  fixes v :: rat
  assumes "first_edge < last_edge" and "0 < n" and "first_edge \<le> v" and "v < last_edge"
  shows "0 \<le> \<lfloor>(v - first_edge) * (of_nat n / (last_edge - first_edge))\<rfloor> \<and>
         nat \<lfloor>(v - first_edge) * (of_nat n / (last_edge - first_edge))\<rfloor> < n"
proof (rule floor_nat_bounds)
  show "0 \<le> (v - first_edge) * (of_nat n / (last_edge - first_edge))"
    using bin_pos_bounds [OF assms(1-3) less_imp_le [OF assms(4)]] assms(4) by blast
  show "(v - first_edge) * (of_nat n / (last_edge - first_edge)) < of_nat n"
    using bin_pos_bounds [OF assms(1-3) less_imp_le [OF assms(4)]] assms(4) by blast
qed

lemma bin_index_floor:
  fixes v :: rat
  assumes "first_edge < last_edge" and "0 < n" and "first_edge \<le> v" and "v < last_edge"
  shows "bin_index n first_edge last_edge v =
    nat \<lfloor>(v - first_edge) * (of_nat n / (last_edge - first_edge))\<rfloor>"
  using floor_bin_bounds [OF assms] by (simp add: bin_index_def Let_def)

lemma bin_index_last:
  fixes first_edge :: rat
  assumes "first_edge < last_edge" and "0 < n"
  shows "bin_index n first_edge last_edge last_edge = n - 1"
  using assms by (simp add: bin_index_def)

lemma bin_index_lt:
  fixes v :: rat
  assumes "first_edge < last_edge" and "0 < n" and "first_edge \<le> v" and "v \<le> last_edge"
  shows "bin_index n first_edge last_edge v < n"
proof (cases "v = last_edge")
  case True
  with assms show ?thesis by (simp add: bin_index_last)
next
  case False
  with assms floor_bin_bounds [of first_edge last_edge n v] show ?thesis
    by (simp add: bin_index_floor)
qed

lemma edge_le_nat_iff:
  fixes v :: rat
  assumes "first_edge < last_edge" and "0 < n" and "first_edge \<le> v" and "v < last_edge" and "i \<le> n"
  shows "bin_edges n first_edge last_edge ! i \<le> v \<longleftrightarrow>
         i \<le> nat \<lfloor>(v - first_edge) * (of_nat n / (last_edge - first_edge))\<rfloor>"
  using floor_bin_bounds [OF assms(1-4)] assms(5)
  by (simp add: nth_bin_edges edge_le_iff [OF assms(1,2)] le_nat_iff)

lemma bin_search_floor:
  fixes v :: rat
  assumes "first_edge < last_edge" and "0 < n" and "first_edge \<le> v" and "v < last_edge"
  shows "bin_search (bin_edges n first_edge last_edge) v =
    nat \<lfloor>(v - first_edge) * (of_nat n / (last_edge - first_edge))\<rfloor>"
proof -
  let ?k = "nat \<lfloor>(v - first_edge) * (of_nat n / (last_edge - first_edge))\<rfloor>"
  have k: "?k < n" using floor_bin_bounds [OF assms] by simp
  have "filter (\<lambda>i. bin_edges n first_edge last_edge ! i \<le> v) [0..<Suc n] =
        filter (\<lambda>i. i \<le> ?k) [0..<Suc n]"
  proof (rule filter_cong)
    fix i assume "i \<in> set [0..<Suc n]"
    then have "i \<le> n" by auto
    then show "bin_edges n first_edge last_edge ! i \<le> v \<longleftrightarrow> i \<le> ?k"
      by (rule edge_le_nat_iff [OF assms])
  qed simp
  moreover have "length (filter (\<lambda>e. e \<le> v) (map (\<lambda>i. bin_edges n first_edge last_edge ! i) [0..<Suc n])) =
      length (filter (\<lambda>i. bin_edges n first_edge last_edge ! i \<le> v) [0..<Suc n])"
    by (simp only: length_filter_map comp_def)
  moreover have "map (\<lambda>i. bin_edges n first_edge last_edge ! i) [0..<Suc n] = bin_edges n first_edge last_edge"
    by (metis length_bin_edges map_nth)
  ultimately have "length (filter (\<lambda>e. e \<le> v) (bin_edges n first_edge last_edge)) = Suc ?k"
    using k by (simp only: filter_upt_le length_upt)
  moreover have "v \<noteq> List.last (bin_edges n first_edge last_edge)"
    using assms by (simp add: last_bin_edges)
  ultimately show ?thesis by (simp add: bin_search_def)
qed

lemma nth_last_bin_edges: "0 < n \<Longrightarrow> bin_edges n first_edge last_edge ! n = last_edge"
  by (simp add: bin_edges_def del: upt_Suc)

lemma bin_edge_le_last:
  fixes first_edge :: rat
  assumes "first_edge \<le> last_edge" and "0 < n" and "i \<le> n"
  shows "bin_edges n first_edge last_edge ! i \<le> last_edge"
proof -
  have "of_nat i / of_nat n \<le> (1::rat)" using assms(2,3) by simp
  moreover have "0 \<le> last_edge - first_edge" using assms(1) by simp
  ultimately have "(last_edge - first_edge) * (of_nat i / of_nat n) \<le> last_edge - first_edge"
    by (rule mult_left_le)
  moreover have "bin_edges n first_edge last_edge ! i = first_edge + (last_edge - first_edge) * (of_nat i / of_nat n)"
    using assms(3) by (simp add: nth_bin_edges)
  ultimately show ?thesis by linarith
qed

lemma bin_index_iff:
  fixes v :: rat
  assumes "first_edge < last_edge" and "0 < n" and "first_edge \<le> v" and "v \<le> last_edge" and "j < n"
  shows "bin_index n first_edge last_edge v = j \<longleftrightarrow>
    bin_edges n first_edge last_edge ! j \<le> v \<and>
    (v < bin_edges n first_edge last_edge ! Suc j \<or> (Suc j = n \<and> v = last_edge))"
proof (cases "v = last_edge")
  case True
  have "bin_edges n first_edge last_edge ! j \<le> last_edge" "bin_edges n first_edge last_edge ! Suc j \<le> last_edge"
    using assms by (simp_all add: bin_edge_le_last)
  with True assms show ?thesis by (auto simp: bin_index_last)
next
  case False
  then have lt: "v < last_edge" using assms(4) by simp
  let ?k = "nat \<lfloor>(v - first_edge) * (of_nat n / (last_edge - first_edge))\<rfloor>"
  have "bin_edges n first_edge last_edge ! j \<le> v \<longleftrightarrow> j \<le> ?k"
    using assms(5) by (simp add: edge_le_nat_iff [OF assms(1-3) lt])
  moreover have "v < bin_edges n first_edge last_edge ! Suc j \<longleftrightarrow> ?k < Suc j"
    using assms(5) edge_le_nat_iff [OF assms(1-3) lt, of "Suc j"] by linarith
  ultimately show ?thesis using False by (auto simp: bin_index_floor [OF assms(1-3) lt])
qed

lemma sum_bincount:
  assumes "\<forall>k\<in>set ks. k < n"
  shows "sum_list (bincount n ks) = length ks"
proof -
  have "sum_list (bincount n ks) = sum (\<lambda>j. count (mset ks) j) {0..<n}"
    by (simp add: bincount_def sum_list_distinct_conv_sum_set count_mset)
  also have "\<dots> = sum (count (mset ks)) (set_mset (mset ks))"
    using assms by (intro sum.mono_neutral_right) (auto simp: count_eq_zero_iff)
  also have "\<dots> = length ks" by (metis size_multiset_overloaded_eq size_mset)
  finally show ?thesis .
qed

lemma length_bincount [simp]: "length (bincount n ks) = n"
  by (simp add: bincount_def)

lemma count_list_filter: "count_list ks j = length (filter (\<lambda>k. k = j) ks)"
  by (induction ks) auto

lemma nth_bincount: "j < n \<Longrightarrow> bincount n ks ! j = length (filter (\<lambda>k. k = j) ks)"
  by (simp add: bincount_def count_list_filter)

lemma outer_edges_range:
  assumes "vs \<noteq> []" and fl: "outer_edges (Min (set vs)) (Max (set vs)) = (first_edge, last_edge)"
  shows "first_edge < last_edge \<and> (\<forall>v\<in>set vs. first_edge \<le> v \<and> v \<le> last_edge)"
proof -
  have b: "Min (set vs) \<le> v \<and> v \<le> Max (set vs)" if "v \<in> set vs" for v
    using that by simp
  have le: "Min (set vs) \<le> Max (set vs)" using b [OF last_in_set [OF assms(1)]] by simp
  have e: "first_edge \<le> Min (set vs) \<and> Max (set vs) \<le> last_edge \<and> first_edge < last_edge"
  proof (cases "Min (set vs) = Max (set vs)")
    case True
    with fl show ?thesis by (auto simp: outer_edges_def)
  next
    case False
    with fl le show ?thesis by (auto simp: outer_edges_def)
  qed
  have "\<forall>v\<in>set vs. first_edge \<le> v \<and> v \<le> last_edge"
  proof
    fix v assume v: "v \<in> set vs"
    have m: "Min (set vs) \<le> v \<and> v \<le> Max (set vs)" by (rule b [OF v])
    from m e show "first_edge \<le> v \<and> v \<le> last_edge" by (meson order_trans)
  qed
  with e show ?thesis by simp
qed

lemma histogram_eq:
  assumes "vs \<noteq> []" and "outer_edges (Min (set vs)) (Max (set vs)) = (first_edge, last_edge)"
  shows "histogram n vs = (bin_edges n first_edge last_edge,
    bincount n (map (bin_index n first_edge last_edge) vs))"
  using outer_edges_range [OF assms] by (simp add: histogram_def assms(2))

lemma plot_delivery_Some:
  assumes "plot_delivery_times_distribution df = Some (es, hs)"
  obtains first_edge last_edge where
    "dropna (map order_delivery_time df) \<noteq> []"
    "outer_edges (Min (set (dropna (map order_delivery_time df)))) (Max (set (dropna (map order_delivery_time df))))
       = (first_edge, last_edge)"
    "es = bin_edges 20 first_edge last_edge"
    "hs = bincount 20 (map (bin_index 20 first_edge last_edge) (dropna (map order_delivery_time df)))"
proof -
  let ?x = "dropna (map order_delivery_time df)"
  obtain f l where fl: "outer_edges (Min (set ?x)) (Max (set ?x)) = (f, l)" by fastforce
  from assms have ne: "?x \<noteq> []" by (auto simp: plot_delivery_times_distribution_def Let_def split: if_splits)
  with assms histogram_eq [OF ne fl, of 20] show ?thesis
    by (intro that [OF ne fl]) (simp_all add: plot_delivery_times_distribution_def Let_def)
qed

lemma count_list_replicate: "count_list (replicate m a) j = (if a = j then m else 0)"
  by (induction m) auto

lemma bin_counts_interval:
  fixes vs :: "rat list"
  assumes "first_edge < last_edge" and "0 < n" and "j < n"
    and "\<forall>v\<in>set vs. first_edge \<le> v \<and> v \<le> last_edge"
  shows "bincount n (map (bin_index n first_edge last_edge) vs) ! j =
    length (filter (\<lambda>v. bin_edges n first_edge last_edge ! j \<le> v \<and>
      (v < bin_edges n first_edge last_edge ! Suc j \<or> (Suc j = n \<and> v = last_edge))) vs)"
proof -
  have "filter (\<lambda>v. bin_index n first_edge last_edge v = j) vs =
        filter (\<lambda>v. bin_edges n first_edge last_edge ! j \<le> v \<and>
          (v < bin_edges n first_edge last_edge ! Suc j \<or> (Suc j = n \<and> v = last_edge))) vs"
  proof (rule filter_cong)
    fix v assume "v \<in> set vs"
    with assms(4) have "first_edge \<le> v" "v \<le> last_edge" by simp_all
    then show "bin_index n first_edge last_edge v = j \<longleftrightarrow> bin_edges n first_edge last_edge ! j \<le> v \<and>
          (v < bin_edges n first_edge last_edge ! Suc j \<or> (Suc j = n \<and> v = last_edge))"
      by (rule bin_index_iff [OF assms(1,2) _ _ assms(3)])
  qed simp
  then show ?thesis using assms(3) by (simp add: nth_bincount length_filter_map comp_def)
qed

text \<open>
  C29: numpy's uniform-bin shortcut agrees with the definition of a bin. For a value
  within the range, the truncated scaled offset (the last edge moved into the last
  bin) is the index of the last edge not above the value, the last bin closed: the
  result \<open>np.histogram\<close> documents.
\<close>

theorem histogram_bin_equivalence:
  fixes v :: rat
  assumes "first_edge < last_edge" and "0 < n" and "first_edge \<le> v" and "v \<le> last_edge"
  shows "bin_index n first_edge last_edge v = bin_search (bin_edges n first_edge last_edge) v"
proof (cases "v = last_edge")
  case True
  with assms(1,2) show ?thesis by (simp add: bin_index_last bin_search_def last_bin_edges)
next
  case False
  with assms(4) have "v < last_edge" by simp
  with assms show ?thesis by (simp only: bin_index_floor bin_search_floor)
qed

theorem histogram_bin_equivalence_witness:
  "bin_search (bin_edges 20 0 10) 3 = 6"
proof -
  have "bin_index 20 0 10 (3::rat) = bin_search (bin_edges 20 0 10) 3"
    by (rule histogram_bin_equivalence) simp_all
  moreover have "bin_index 20 0 10 (3::rat) = 6" by code_simp
  ultimately show ?thesis by simp
qed

text \<open>
  C30: the histogram accounts for every delivery time. When the chart is drawn it has
  21 edges and 20 bars, and the bar heights add up to the number of non-NaN delivery
  times: no value falls outside the bins, none is counted twice.
\<close>

theorem delivery_histogram_total:
  assumes "plot_delivery_times_distribution df = Some (es, hs)"
  shows "length es = 21 \<and> length hs = 20 \<and> sum_list hs = length (dropna (map order_delivery_time df))"
proof -
  let ?x = "dropna (map order_delivery_time df)"
  obtain f l where ne: "?x \<noteq> []" and fl: "outer_edges (Min (set ?x)) (Max (set ?x)) = (f, l)"
    and es: "es = bin_edges 20 f l" and hs: "hs = bincount 20 (map (bin_index 20 f l) ?x)"
    using plot_delivery_Some [OF assms] by blast
  have r: "f < l" "\<forall>v\<in>set ?x. f \<le> v \<and> v \<le> l" using outer_edges_range [OF ne fl] by simp_all
  have "\<forall>k\<in>set (map (bin_index 20 f l) ?x). k < 20"
    using r bin_index_lt [of f l 20] by auto
  then have "sum_list hs = length ?x" by (simp add: hs sum_bincount)
  then show ?thesis by (simp add: es hs)
qed

theorem delivery_histogram_total_witness:
  "sum_list (snd (the (plot_delivery_times_distribution
     [(blank_row ''o1'')\<lparr>order_delivery_time := Some 3\<rparr>, blank_row ''o2'',
      (blank_row ''o3'')\<lparr>order_delivery_time := Some 8\<rparr>]))) = 2"
proof -
  have h: "plot_delivery_times_distribution
     [(blank_row ''o1'')\<lparr>order_delivery_time := Some 3\<rparr>, blank_row ''o2'',
      (blank_row ''o3'')\<lparr>order_delivery_time := Some 8\<rparr>] =
    Some (fst (the (plot_delivery_times_distribution
     [(blank_row ''o1'')\<lparr>order_delivery_time := Some 3\<rparr>, blank_row ''o2'',
      (blank_row ''o3'')\<lparr>order_delivery_time := Some 8\<rparr>])),
      snd (the (plot_delivery_times_distribution
     [(blank_row ''o1'')\<lparr>order_delivery_time := Some 3\<rparr>, blank_row ''o2'',
      (blank_row ''o3'')\<lparr>order_delivery_time := Some 8\<rparr>])))"
    by code_simp
  show ?thesis using delivery_histogram_total [OF h] by (simp add: blank_row_def)
qed

text \<open>
  C31: each bar counts the delivery times of its interval. The 20 bins have equal
  width, and bar \<open>j\<close> is the number of non-NaN delivery times \<open>v\<close> with
  \<open>edge j \<le> v < edge (j+1)\<close>, the last bar also counting the values equal to the
  last edge (the longest delivery time).
\<close>

theorem delivery_histogram_bars:
  assumes "plot_delivery_times_distribution df = Some (es, hs)" and "j < 20"
  shows "es ! Suc j - es ! j = (es ! 20 - es ! 0) / 20 \<and>
    hs ! j = length (filter (\<lambda>v. es ! j \<le> v \<and> (v < es ! Suc j \<or> (Suc j = 20 \<and> v = es ! 20)))
                       (dropna (map order_delivery_time df)))"
proof -
  let ?x = "dropna (map order_delivery_time df)"
  obtain f l where ne: "?x \<noteq> []" and fl: "outer_edges (Min (set ?x)) (Max (set ?x)) = (f, l)"
    and es: "es = bin_edges 20 f l" and hs: "hs = bincount 20 (map (bin_index 20 f l) ?x)"
    using plot_delivery_Some [OF assms(1)] by blast
  have r: "f < l" "\<forall>v\<in>set ?x. f \<le> v \<and> v \<le> l" using outer_edges_range [OF ne fl] by simp_all
  have l: "es ! 20 = l" using nth_last_bin_edges [of 20 f l] by (simp add: es)
  have f: "es ! 0 = f" by (simp add: es nth_bin_edges del: upt_Suc)
  have "es ! Suc j - es ! j = (l - f) / 20"
    using assms(2) by (simp add: es nth_bin_edges field_simps del: upt_Suc)
  moreover have "hs ! j = length (filter (\<lambda>v. es ! j \<le> v \<and> (v < es ! Suc j \<or> (Suc j = 20 \<and> v = l))) ?x)"
    unfolding hs es by (rule bin_counts_interval [OF r(1) _ assms(2) r(2)]) simp
  ultimately show ?thesis by (simp add: l f)
qed

theorem delivery_histogram_bars_witness:
  "snd (the (plot_delivery_times_distribution
     [(blank_row ''o1'')\<lparr>order_delivery_time := Some 0\<rparr>,
      (blank_row ''o2'')\<lparr>order_delivery_time := Some 20\<rparr>])) ! 19 = 1"
proof -
  have h: "plot_delivery_times_distribution
     [(blank_row ''o1'')\<lparr>order_delivery_time := Some 0\<rparr>,
      (blank_row ''o2'')\<lparr>order_delivery_time := Some 20\<rparr>] =
    Some (bin_edges 20 0 20,
      snd (the (plot_delivery_times_distribution
     [(blank_row ''o1'')\<lparr>order_delivery_time := Some 0\<rparr>,
      (blank_row ''o2'')\<lparr>order_delivery_time := Some 20\<rparr>])))"
    by code_simp
  have j: "(19::nat) < 20" by simp
  have e: "bin_edges 20 0 20 ! 19 = (19::rat)" "bin_edges 20 0 20 ! 20 = (20::rat)"
    by (simp_all add: nth_bin_edges del: upt_Suc)
  show ?thesis using delivery_histogram_bars [OF h j] e by (simp add: blank_row_def)
qed

text \<open>
  C32: a delivery-time column with a single value. numpy widens the empty range to
  \<open>[v - 0.5, v + 0.5]\<close>, and every value falls in bar 10 of the 20, the middle one.
\<close>

theorem delivery_histogram_constant:
  assumes "set (dropna (map order_delivery_time df)) = {v}"
  shows "plot_delivery_times_distribution df =
    Some (bin_edges 20 (v - 1/2) (v + 1/2),
          replicate 10 0 @ [length (dropna (map order_delivery_time df))] @ replicate 9 0)"
proof -
  let ?x = "dropna (map order_delivery_time df)"
  have ne: "?x \<noteq> []" using assms by (auto simp del: set_dropna)
  have fl: "outer_edges (Min (set ?x)) (Max (set ?x)) = (v - 1/2, v + 1/2)"
    by (simp add: assms outer_edges_def del: set_dropna)
  have "bin_index 20 (v - 1/2) (v + 1/2) v = 10" by (simp add: bin_index_def)
  then have "map (bin_index 20 (v - 1/2) (v + 1/2)) ?x = replicate (length ?x) 10"
    using assms by (simp add: map_replicate_const [symmetric] cong: map_cong)
  then have "histogram 20 ?x = (bin_edges 20 (v - 1/2) (v + 1/2),
      bincount 20 (replicate (length ?x) 10))"
    by (simp add: histogram_eq [OF ne fl])
  moreover have "bincount 20 (replicate (length ?x) 10) =
      replicate 10 0 @ [length ?x] @ replicate 9 0"
    by (simp add: bincount_def count_list_replicate upt_rec numeral_eq_Suc)
  ultimately show ?thesis using ne by (simp add: plot_delivery_times_distribution_def Let_def)
qed

theorem delivery_histogram_constant_witness:
  "plot_delivery_times_distribution
     [(blank_row ''o1'')\<lparr>order_delivery_time := Some 5\<rparr>, (blank_row ''o2'')\<lparr>order_delivery_time := Some 5\<rparr>] =
   Some (bin_edges 20 (9/2) (11/2), replicate 10 0 @ [2] @ replicate 9 0)"
proof -
  have h: "set (dropna (map order_delivery_time
     [(blank_row ''o1'')\<lparr>order_delivery_time := Some 5\<rparr>, (blank_row ''o2'')\<lparr>order_delivery_time := Some 5\<rparr>]))
     = {5}" by simp
  show ?thesis using delivery_histogram_constant [OF h] by simp
qed

end
