(* ===== verification/Correlation.thy ===== *)
theory Correlation
  imports Orders
begin

text \<open>
  The correlation heatmap, \<open>plot_correlation_matrix(df)\<close> of dashboard.py lines
  335--360.
  \<^item> \<open>numeric_columns\<close> (line 337): \<open>select_dtypes(include=[np.number])\<close> keeps the
    numeric columns of the order record: \<open>order_item_id\<close>, \<open>price\<close>,
    \<open>payment_value\<close>, \<open>review_score\<close> (float, NaN when absent) and
    \<open>order_delivery_time\<close>, the numeric columns that dashboard.py or the spec name;
    the timestamp and text columns are dropped. Which further numeric columns the CSV
    holds is not fixed by the source; each would add one row and one column, and the
    properties below are stated for any number of columns.
  \<^item> \<open>nancorr\<close> (line 340, \<open>DataFrame.corr()\<close>): pandas' \<open>nancorr\<close> computes, for each
    pair of columns \<open>yi \<le> xi\<close>, the pairwise-complete observations with Welford's
    online update (\<open>welford_step\<close>), returns NaN when there is no observation or
    \<open>ssqdmx * ssqdmy = 0\<close>, else \<open>covxy / sqrt(ssqdmx * ssqdmy)\<close>, and writes the
    value at \<open>[xi, yi]\<close> and \<open>[yi, xi]\<close>. A value is kept exactly as the triple
    \<open>Corr covxy ssqdmx ssqdmy\<close>; \<open>pearson\<close> reads it as the real number pandas
    approximates.
  \<^item> \<open>abs_lt\<close> (line 350, \<open>mask=correlation_matrix.abs() < threshold\<close>): decided
    exactly on the triple, NaN comparing false.
  \<^item> The price checkbox (lines 357--359) shows the column \<open>'price'\<close>, looked up by
    name (\<open>lookup_column\<close>, KeyError when absent).
  \<open>two_pass_stats\<close> is the textbook two-pass definition of the same statistics.
\<close>

datatype corr_value = NaN | Corr rat rat rat \<comment> \<open>covxy, ssqdmx, ssqdmy\<close>

record welford =
  nobs :: nat
  meanx :: rat
  meany :: rat
  ssqdmx :: rat
  ssqdmy :: rat
  covxy :: rat

definition welford_init :: welford where
  "welford_init = \<lparr>nobs = 0, meanx = 0, meany = 0, ssqdmx = 0, ssqdmy = 0, covxy = 0\<rparr>"

definition welford_step :: "welford \<Rightarrow> rat \<times> rat \<Rightarrow> welford" where
  "welford_step s p =
     (let (vx, vy) = p;
          n = nobs s + 1;
          dx = vx - meanx s;
          dy = vy - meany s;
          mx = meanx s + 1 / of_nat n * dx;
          my = meany s + 1 / of_nat n * dy
      in \<lparr>nobs = n, meanx = mx, meany = my, ssqdmx = ssqdmx s + (vx - mx) * dx,
          ssqdmy = ssqdmy s + (vy - my) * dy, covxy = covxy s + (vx - mx) * dy\<rparr>)"

definition complete_pairs :: "rat option list \<Rightarrow> rat option list \<Rightarrow> (rat \<times> rat) list" where
  "complete_pairs xs ys =
     dropna (map2 (\<lambda>a b. case (a, b) of (Some x, Some y) \<Rightarrow> Some (x, y) | _ \<Rightarrow> None) xs ys)"

definition nancorr_pair :: "rat option list \<Rightarrow> rat option list \<Rightarrow> corr_value" where
  "nancorr_pair xs ys =
     (let s = foldl welford_step welford_init (complete_pairs xs ys) in
      if nobs s < 1 then NaN
      else if ssqdmx s * ssqdmy s = 0 then NaN
      else Corr (covxy s) (ssqdmx s) (ssqdmy s))"

definition nancorr :: "rat option list list \<Rightarrow> corr_value list list" where
  "nancorr mat =
     map (\<lambda>xi. map (\<lambda>yi. if yi \<le> xi then nancorr_pair (mat ! xi) (mat ! yi)
                         else nancorr_pair (mat ! yi) (mat ! xi))
            [0..<length mat])
       [0..<length mat]"

definition numeric_columns :: "orders_table \<Rightarrow> (string \<times> rat option list) list" where
  "numeric_columns df =
     [(''order_item_id'', map (\<lambda>r. Some (of_int (order_item_id r))) df),
      (''price'', map price df),
      (''payment_value'', map payment_value df),
      (''review_score'', map (\<lambda>r. map_option of_int (review_score r)) df),
      (''order_delivery_time'', map order_delivery_time df)]"

definition abs_lt :: "rat \<Rightarrow> corr_value \<Rightarrow> bool" where
  "abs_lt threshold v =
     (case v of NaN \<Rightarrow> False
      | Corr c a b \<Rightarrow> 0 < threshold \<and> c\<^sup>2 < threshold\<^sup>2 * (a * b))"

definition lookup_column :: "string list \<Rightarrow> 'v list list \<Rightarrow> string \<Rightarrow> py_error + 'v list" where
  "lookup_column labels m name =
     (case filter (\<lambda>i. labels ! i = name) [0..<length labels] of
        [] \<Rightarrow> Inl KeyError
      | i # _ \<Rightarrow> Inr (map (\<lambda>row. row ! i) m))"

record corr_plot =
  corr_labels :: "string list"
  corr_matrix :: "corr_value list list"
  corr_mask :: "bool list list"
  price_corr :: "corr_value list option"

definition plot_correlation_matrix :: "orders_table \<Rightarrow> rat \<Rightarrow> bool \<Rightarrow> py_error + corr_plot" where
  "plot_correlation_matrix df threshold price_checkbox =
     (let numeric = numeric_columns df;
          correlation_matrix = nancorr (map snd numeric);
          mask = map (map (abs_lt threshold)) correlation_matrix
      in if price_checkbox then
           (case lookup_column (map fst numeric) correlation_matrix ''price'' of
              Inl err \<Rightarrow> Inl err
            | Inr col \<Rightarrow> Inr \<lparr>corr_labels = map fst numeric, corr_matrix = correlation_matrix,
                              corr_mask = mask, price_corr = Some col\<rparr>)
         else Inr \<lparr>corr_labels = map fst numeric, corr_matrix = correlation_matrix,
                   corr_mask = mask, price_corr = None\<rparr>)"

definition two_pass_stats :: "(rat \<times> rat) list \<Rightarrow> welford" where
  "two_pass_stats ps =
     (let n = length ps;
          mx = sum_list (map fst ps) / of_nat n;
          my = sum_list (map snd ps) / of_nat n
      in \<lparr>nobs = n, meanx = mx, meany = my,
          ssqdmx = sum_list (map (\<lambda>(x, _). (x - mx)\<^sup>2) ps),
          ssqdmy = sum_list (map (\<lambda>(_, y). (y - my)\<^sup>2) ps),
          covxy = sum_list (map (\<lambda>(x, y). (x - mx) * (y - my)) ps)\<rparr>)"

definition pearson :: "corr_value \<Rightarrow> real option" where
  "pearson v =
     (case v of NaN \<Rightarrow> None
      | Corr c a b \<Rightarrow> Some (of_rat c / sqrt (of_rat a * of_rat b)))"

lemma welford_step_fields:
  "nobs (welford_step s (x, y)) = Suc (nobs s)"
  "meanx (welford_step s (x, y)) = meanx s + (x - meanx s) / of_nat (Suc (nobs s))"
  "meany (welford_step s (x, y)) = meany s + (y - meany s) / of_nat (Suc (nobs s))"
  "ssqdmx (welford_step s (x, y)) = ssqdmx s + (x - meanx (welford_step s (x, y))) * (x - meanx s)"
  "ssqdmy (welford_step s (x, y)) = ssqdmy s + (y - meany (welford_step s (x, y))) * (y - meany s)"
  "covxy (welford_step s (x, y)) = covxy s + (x - meanx (welford_step s (x, y))) * (y - meany s)"
  by (simp_all add: welford_step_def Let_def)

lemma welford_mean_step:
  fixes m x :: rat
  shows "of_nat (Suc n) * (m + (x - m) / of_nat (Suc n)) = of_nat n * m + x"
proof -
  have "(of_nat (Suc n) :: rat) \<noteq> 0" by simp
  then show ?thesis by (simp add: field_simps)
qed

lemma welford_ssq_step:
  fixes m x :: rat
  assumes "of_nat (Suc n) * m' = of_nat n * m + x"
  shows "x\<^sup>2 - of_nat (Suc n) * m'\<^sup>2 + of_nat n * m\<^sup>2 = (x - m') * (x - m)"
proof -
  have e: "x = of_nat (Suc n) * m' - of_nat n * m" using assms by simp
  show ?thesis unfolding e by (simp add: algebra_simps power2_eq_square)
qed

lemma welford_cov_step:
  fixes mx my x y :: rat
  assumes "of_nat (Suc n) * mx' = of_nat n * mx + x" and "of_nat (Suc n) * my' = of_nat n * my + y"
  shows "x * y - of_nat (Suc n) * mx' * my' + of_nat n * mx * my = (x - mx') * (y - my)"
proof -
  have ex: "x = of_nat (Suc n) * mx' - of_nat n * mx" using assms(1) by simp
  have ey: "y = of_nat (Suc n) * my' - of_nat n * my" using assms(2) by simp
  show ?thesis unfolding ex ey by (simp add: algebra_simps)
qed

lemma welford_invariant:
  "nobs (foldl welford_step welford_init ps) = length ps \<and>
   of_nat (length ps) * meanx (foldl welford_step welford_init ps) = sum_list (map fst ps) \<and>
   of_nat (length ps) * meany (foldl welford_step welford_init ps) = sum_list (map snd ps) \<and>
   ssqdmx (foldl welford_step welford_init ps) =
     sum_list (map (\<lambda>p. (fst p)\<^sup>2) ps) - of_nat (length ps) * (meanx (foldl welford_step welford_init ps))\<^sup>2 \<and>
   ssqdmy (foldl welford_step welford_init ps) =
     sum_list (map (\<lambda>p. (snd p)\<^sup>2) ps) - of_nat (length ps) * (meany (foldl welford_step welford_init ps))\<^sup>2 \<and>
   covxy (foldl welford_step welford_init ps) =
     sum_list (map (\<lambda>p. fst p * snd p) ps) -
       of_nat (length ps) * meanx (foldl welford_step welford_init ps) * meany (foldl welford_step welford_init ps)"
proof (induction ps rule: rev_induct)
  case Nil
  then show ?case by (simp add: welford_init_def)
next
  case (snoc p ps)
  obtain x y where p: "p = (x, y)" by fastforce
  define s where "s = foldl welford_step welford_init ps"
  define n where "n = length ps"
  have ih: "nobs s = n" "of_nat n * meanx s = sum_list (map fst ps)" "of_nat n * meany s = sum_list (map snd ps)"
    "ssqdmx s = sum_list (map (\<lambda>p. (fst p)\<^sup>2) ps) - of_nat n * (meanx s)\<^sup>2"
    "ssqdmy s = sum_list (map (\<lambda>p. (snd p)\<^sup>2) ps) - of_nat n * (meany s)\<^sup>2"
    "covxy s = sum_list (map (\<lambda>p. fst p * snd p) ps) - of_nat n * meanx s * meany s"
    using snoc.IH by (simp_all add: s_def n_def)
  let ?t = "welford_step s (x, y)"
  have mx: "of_nat (Suc n) * meanx ?t = of_nat n * meanx s + x"
    unfolding welford_step_fields ih(1) by (rule welford_mean_step)
  have my: "of_nat (Suc n) * meany ?t = of_nat n * meany s + y"
    unfolding welford_step_fields ih(1) by (rule welford_mean_step)
  have a: "ssqdmx ?t = (sum_list (map (\<lambda>p. (fst p)\<^sup>2) ps) + x\<^sup>2) - of_nat (Suc n) * (meanx ?t)\<^sup>2"
    using welford_ssq_step [OF mx] by (simp add: welford_step_fields(4) ih(4) algebra_simps)
  have b: "ssqdmy ?t = (sum_list (map (\<lambda>p. (snd p)\<^sup>2) ps) + y\<^sup>2) - of_nat (Suc n) * (meany ?t)\<^sup>2"
    using welford_ssq_step [OF my] by (simp add: welford_step_fields(5) ih(5) algebra_simps)
  have c: "covxy ?t = (sum_list (map (\<lambda>p. fst p * snd p) ps) + x * y) - of_nat (Suc n) * meanx ?t * meany ?t"
    using welford_cov_step [OF mx my] by (simp add: welford_step_fields(6) ih(6) algebra_simps)
  have f: "foldl welford_step welford_init (ps @ [p]) = ?t" by (simp add: p s_def)
  have l: "length (ps @ [p]) = Suc n" by (simp add: n_def)
  have m: "of_nat n * meanx s + x = sum_list (map fst (ps @ [p]))"
    "of_nat n * meany s + y = sum_list (map snd (ps @ [p]))"
    using ih(2,3) by (simp_all add: p)
  show ?case unfolding f l
  proof (intro conjI)
    show "nobs ?t = Suc n" by (simp add: welford_step_fields(1) ih(1))
    show "of_nat (Suc n) * meanx ?t = sum_list (map fst (ps @ [p]))" using mx m(1) by simp
    show "of_nat (Suc n) * meany ?t = sum_list (map snd (ps @ [p]))" using my m(2) by simp
    show "ssqdmx ?t = sum_list (map (\<lambda>p. (fst p)\<^sup>2) (ps @ [p])) - of_nat (Suc n) * (meanx ?t)\<^sup>2"
      using a by (simp add: p)
    show "ssqdmy ?t = sum_list (map (\<lambda>p. (snd p)\<^sup>2) (ps @ [p])) - of_nat (Suc n) * (meany ?t)\<^sup>2"
      using b by (simp add: p)
    show "covxy ?t = sum_list (map (\<lambda>p. fst p * snd p) (ps @ [p])) - of_nat (Suc n) * meanx ?t * meany ?t"
      using c by (simp add: p)
  qed
qed

lemma sum_sq_dev:
  fixes f :: "'a \<Rightarrow> rat"
  shows "sum_list (map (\<lambda>p. (f p - m)\<^sup>2) ps) =
    sum_list (map (\<lambda>p. (f p)\<^sup>2) ps) - 2 * m * sum_list (map f ps) + of_nat (length ps) * m\<^sup>2"
  by (induction ps) (simp_all add: algebra_simps power2_eq_square)

lemma sum_cross_dev:
  fixes f g :: "'a \<Rightarrow> rat"
  shows "sum_list (map (\<lambda>p. (f p - mx) * (g p - my)) ps) =
    sum_list (map (\<lambda>p. f p * g p) ps) - mx * sum_list (map g ps) - my * sum_list (map f ps) +
    of_nat (length ps) * mx * my"
  by (induction ps) (simp_all add: algebra_simps)

lemma two_pass_fields:
  "nobs (two_pass_stats ps) = length ps"
  "meanx (two_pass_stats ps) = sum_list (map fst ps) / of_nat (length ps)"
  "meany (two_pass_stats ps) = sum_list (map snd ps) / of_nat (length ps)"
  "ssqdmx (two_pass_stats ps) = sum_list (map (\<lambda>p. (fst p - meanx (two_pass_stats ps))\<^sup>2) ps)"
  "ssqdmy (two_pass_stats ps) = sum_list (map (\<lambda>p. (snd p - meany (two_pass_stats ps))\<^sup>2) ps)"
  "covxy (two_pass_stats ps) =
     sum_list (map (\<lambda>p. (fst p - meanx (two_pass_stats ps)) * (snd p - meany (two_pass_stats ps))) ps)"
  by (simp_all add: two_pass_stats_def Let_def split_def)

lemma welford_foldl_two_pass: "foldl welford_step welford_init ps = two_pass_stats ps"
proof (cases "ps = []")
  case True
  then show ?thesis by (simp add: welford_init_def two_pass_stats_def)
next
  case False
  let ?s = "foldl welford_step welford_init ps"
  let ?n = "of_nat (length ps) :: rat"
  have n: "?n \<noteq> 0" using False by simp
  note inv = welford_invariant [of ps]
  have mx: "meanx ?s = sum_list (map fst ps) / ?n" using inv n by (simp add: eq_divide_eq ac_simps)
  have my: "meany ?s = sum_list (map snd ps) / ?n" using inv n by (simp add: eq_divide_eq ac_simps)
  have sx: "sum_list (map fst ps) = ?n * meanx ?s" and sy: "sum_list (map snd ps) = ?n * meany ?s"
    using inv by simp_all
  show ?thesis
  proof (rule welford.equality)
    show "nobs ?s = nobs (two_pass_stats ps)" using inv by (simp add: two_pass_fields)
    show mx': "meanx ?s = meanx (two_pass_stats ps)" using mx by (simp add: two_pass_fields)
    show my': "meany ?s = meany (two_pass_stats ps)" using my by (simp add: two_pass_fields)
    show "ssqdmx ?s = ssqdmx (two_pass_stats ps)"
      unfolding two_pass_fields(4) mx' [symmetric] sum_sq_dev sx
      using inv by (simp add: power2_eq_square)
    show "ssqdmy ?s = ssqdmy (two_pass_stats ps)"
      unfolding two_pass_fields(5) my' [symmetric] sum_sq_dev sy
      using inv by (simp add: power2_eq_square)
    show "covxy ?s = covxy (two_pass_stats ps)"
      unfolding two_pass_fields(6) mx' [symmetric] my' [symmetric] sum_cross_dev
      using inv by (simp add: algebra_simps sx sy)
  qed simp
qed

text \<open>
  C33: pandas' one-pass update computes the textbook statistics. Folding Welford's
  update over the complete observations gives the count, the two means, the two sums
  of squared deviations and the sum of cross deviations of the two-pass definition,
  exactly.
\<close>

theorem welford_two_pass: "foldl welford_step welford_init ps = two_pass_stats ps"
  by (rule welford_foldl_two_pass)

theorem welford_two_pass_witness:
  "foldl welford_step welford_init [(1, 2), (2, 4), (3, 9)] =
   \<lparr>nobs = 3, meanx = 2, meany = 5, ssqdmx = 2, ssqdmy = 26, covxy = 7\<rparr>"
  using welford_two_pass [of "[(1, 2), (2, 4), (3, 9)]"] by (simp add: two_pass_stats_def power2_eq_square)

lemma sum_list_lin3:
  fixes h k l :: "'a \<Rightarrow> rat"
  shows "sum_list (map (\<lambda>p. a * h p + b * k p + c * l p) ps) =
    a * sum_list (map h ps) + b * sum_list (map k ps) + c * sum_list (map l ps)"
  by (induction ps) (simp_all add: algebra_simps)

lemma sum_list_zero_factor:
  fixes f g :: "'a \<Rightarrow> rat"
  assumes "\<forall>p\<in>set ps. f p = 0"
  shows "sum_list (map (\<lambda>p. f p * g p) ps) = 0"
  using assms by (induction ps) simp_all

lemma cauchy_schwarz_list:
  fixes f g :: "'a \<Rightarrow> rat"
  shows "(sum_list (map (\<lambda>p. f p * g p) ps))\<^sup>2 \<le>
    sum_list (map (\<lambda>p. (f p)\<^sup>2) ps) * sum_list (map (\<lambda>p. (g p)\<^sup>2) ps)"
proof -
  define A where "A = sum_list (map (\<lambda>p. (f p)\<^sup>2) ps)"
  define B where "B = sum_list (map (\<lambda>p. f p * g p) ps)"
  define C where "C = sum_list (map (\<lambda>p. (g p)\<^sup>2) ps)"
  have e: "(\<lambda>p. (A * g p - B * f p)\<^sup>2) = (\<lambda>p. A\<^sup>2 * (g p)\<^sup>2 + (- 2 * A * B) * (f p * g p) + B\<^sup>2 * (f p)\<^sup>2)"
    by (rule ext) (simp add: power2_eq_square algebra_simps)
  have "0 \<le> sum_list (map (\<lambda>p. (A * g p - B * f p)\<^sup>2) ps)" by (rule sum_list_nonneg) auto
  also have "\<dots> = A * (A * C - B\<^sup>2)"
    unfolding e sum_list_lin3 A_def [symmetric] B_def [symmetric] C_def [symmetric]
    by (simp add: power2_eq_square algebra_simps)
  finally have d: "0 \<le> A * (A * C - B\<^sup>2)" .
  have A0: "0 \<le> A" unfolding A_def by (rule sum_list_nonneg) auto
  show ?thesis
  proof (cases "A = 0")
    case True
    then have "\<forall>p\<in>set ps. (f p)\<^sup>2 = 0" unfolding A_def
      by (subst (asm) sum_list_nonneg_eq_0_iff) auto
    then have "B = 0" unfolding B_def by (intro sum_list_zero_factor) simp
    with True show ?thesis by (simp add: A_def [symmetric] B_def [symmetric])
  next
    case False
    with A0 have "0 < A" by simp
    with d have "B\<^sup>2 \<le> A * C" by (simp add: zero_le_mult_iff)
    then show ?thesis by (simp add: A_def B_def C_def)
  qed
qed

lemma two_pass_cauchy_schwarz:
  "(covxy (two_pass_stats ps))\<^sup>2 \<le> ssqdmx (two_pass_stats ps) * ssqdmy (two_pass_stats ps)"
  unfolding two_pass_fields(4-6) by (rule cauchy_schwarz_list)

lemma two_pass_ssq_nonneg: "0 \<le> ssqdmx (two_pass_stats ps) \<and> 0 \<le> ssqdmy (two_pass_stats ps)"
  unfolding two_pass_fields(4,5) by (intro conjI sum_list_nonneg) auto

lemma nancorr_pair_Corr:
  assumes "nancorr_pair xs ys = Corr c a b"
  shows "0 < a \<and> 0 < b \<and> c\<^sup>2 \<le> a * b"
proof -
  let ?s = "two_pass_stats (complete_pairs xs ys)"
  have v: "c = covxy ?s" "a = ssqdmx ?s" "b = ssqdmy ?s" "a * b \<noteq> 0"
    using assms by (simp_all add: nancorr_pair_def welford_foldl_two_pass Let_def split: if_splits)
  moreover have "0 \<le> a" "0 \<le> b" using two_pass_ssq_nonneg v by simp_all
  ultimately show ?thesis using two_pass_cauchy_schwarz
    by (metis less_eq_rat_def mult_eq_0_iff)
qed

lemma pearson_abs_le_1:
  assumes "0 < a * b" and "c\<^sup>2 \<le> a * b"
  shows "\<bar>of_rat c / sqrt (of_rat a * of_rat b)\<bar> \<le> (1::real)"
proof -
  have p: "0 < (of_rat a * of_rat b :: real)" using assms(1) by (metis of_rat_less_0_iff of_rat_mult not_less of_rat_le_0_iff less_eq_real_def)
  have "(of_rat c :: real)\<^sup>2 \<le> of_rat a * of_rat b"
    using assms(2) by (metis of_rat_less_eq of_rat_mult of_rat_power)
  then have "sqrt ((of_rat c)\<^sup>2) \<le> sqrt (of_rat a * of_rat b :: real)" by (rule real_sqrt_le_mono)
  then have "\<bar>of_rat c\<bar> \<le> sqrt (of_rat a * of_rat b :: real)" by simp
  then show ?thesis using p by (simp add: abs_div divide_le_eq_1)
qed

lemma abs_lt_pearson:
  assumes "0 < a * b"
  shows "abs_lt t (Corr c a b) \<longleftrightarrow> \<bar>of_rat c / sqrt (of_rat a * of_rat b)\<bar> < (of_rat t :: real)"
proof -
  let ?s = "sqrt (of_rat a * of_rat b :: real)"
  have ab: "0 < (of_rat a * of_rat b :: real)" using assms by (metis of_rat_0 of_rat_less of_rat_mult)
  then have s: "0 < ?s" by simp
  have "\<bar>of_rat c / ?s\<bar> < of_rat t \<longleftrightarrow> \<bar>of_rat c\<bar> < (of_rat t :: real) * ?s"
    using s by (simp add: abs_div divide_less_eq)
  also have "\<dots> \<longleftrightarrow> 0 < t \<and> c\<^sup>2 < t\<^sup>2 * (a * b)"
  proof (cases "0 < t")
    case True
    then have "(of_rat t :: real) * ?s = sqrt ((of_rat t)\<^sup>2 * (of_rat a * of_rat b))"
      by (simp add: real_sqrt_mult)
    moreover have "\<bar>of_rat c :: real\<bar> = sqrt ((of_rat c)\<^sup>2)" by simp
    ultimately have "\<bar>of_rat c\<bar> < (of_rat t :: real) * ?s \<longleftrightarrow>
        (of_rat c :: real)\<^sup>2 < (of_rat t)\<^sup>2 * (of_rat a * of_rat b)"
      by (simp only: real_sqrt_less_iff)
    also have "\<dots> \<longleftrightarrow> c\<^sup>2 < t\<^sup>2 * (a * b)"
      by (metis of_rat_less of_rat_mult of_rat_power)
    finally show ?thesis using True by simp
  next
    case False
    then have "(of_rat t :: real) * ?s \<le> 0" using s by (simp add: mult_nonpos_nonneg)
    then have "\<not> \<bar>of_rat c :: real\<bar> < of_rat t * ?s" using abs_ge_zero [of "of_rat c :: real"] by linarith
    then show ?thesis using False by simp
  qed
  finally show ?thesis by (simp add: abs_lt_def)
qed

lemma length_nancorr [simp]: "length (nancorr mat) = length mat"
  by (simp add: nancorr_def)

lemma nth_nancorr:
  "i < length mat \<Longrightarrow> j < length mat \<Longrightarrow> nancorr mat ! i ! j =
     (if j \<le> i then nancorr_pair (mat ! i) (mat ! j) else nancorr_pair (mat ! j) (mat ! i))"
  by (simp add: nancorr_def)

lemma length_nancorr_row: "i < length mat \<Longrightarrow> length (nancorr mat ! i) = length mat"
  by (simp add: nancorr_def)

lemma nancorr_sym:
  "i < length mat \<Longrightarrow> j < length mat \<Longrightarrow> nancorr mat ! i ! j = nancorr mat ! j ! i"
  by (simp add: nth_nancorr)

lemma nancorr_pair_cases:
  "nancorr_pair xs ys = NaN \<or>
   (\<exists>c a b. nancorr_pair xs ys = Corr c a b \<and> 0 < a \<and> 0 < b \<and> c\<^sup>2 \<le> a * b)"
  using nancorr_pair_Corr by (cases "nancorr_pair xs ys") auto

lemma complete_pairs_same: "complete_pairs xs xs = map (\<lambda>x. (x, x)) (dropna xs)"
  by (induction xs) (auto simp: complete_pairs_def split: option.splits)

lemma nancorr_pair_diag: "nancorr_pair xs xs = NaN \<or> pearson (nancorr_pair xs xs) = Some 1"
proof (cases "nancorr_pair xs xs")
  case (Corr c a b)
  let ?s = "two_pass_stats (map (\<lambda>x. (x, x)) (dropna xs))"
  have "c = covxy ?s" "a = ssqdmx ?s" "b = ssqdmy ?s"
    using Corr by (simp_all add: nancorr_pair_def welford_foldl_two_pass complete_pairs_same Let_def split: if_splits)
  then have "c = a" "b = a"
    by (simp_all add: two_pass_stats_def Let_def comp_def power2_eq_square)
  moreover have "0 < a" using nancorr_pair_Corr [OF Corr] by simp
  ultimately show ?thesis using Corr by (simp add: pearson_def real_sqrt_mult_self)
qed simp

lemma plot_correlation_eq:
  "plot_correlation_matrix df threshold price_checkbox =
     Inr \<lparr>corr_labels = map fst (numeric_columns df),
          corr_matrix = nancorr (map snd (numeric_columns df)),
          corr_mask = map (map (abs_lt threshold)) (nancorr (map snd (numeric_columns df))),
          price_corr = (if price_checkbox then Some (map (\<lambda>row. row ! 1) (nancorr (map snd (numeric_columns df))))
                        else None)\<rparr>"
  by (simp add: plot_correlation_matrix_def Let_def lookup_column_def numeric_columns_def upt_rec)

lemma plot_correlation_Inr:
  assumes "plot_correlation_matrix df threshold price_checkbox = Inr p"
  shows "corr_matrix p = nancorr (map snd (numeric_columns df)) \<and>
         corr_mask p = map (map (abs_lt threshold)) (corr_matrix p) \<and>
         price_corr p = (if price_checkbox then Some (map (\<lambda>row. row ! 1) (corr_matrix p)) else None) \<and>
         length (corr_matrix p) = length (numeric_columns df)"
  using assms plot_correlation_eq [of df threshold price_checkbox]
  by (auto simp: length_nancorr)

lemma mask_entry:
  assumes "plot_correlation_matrix df threshold price_checkbox = Inr p"
    and "i < length (corr_matrix p)" and "j < length (corr_matrix p)"
  shows "corr_mask p ! i ! j = abs_lt threshold (corr_matrix p ! i ! j)"
  using plot_correlation_Inr [OF assms(1)] assms(2,3) by (simp add: length_nancorr_row)

lemma matrix_entry_cases:
  assumes "plot_correlation_matrix df threshold price_checkbox = Inr p"
    and "i < length (corr_matrix p)" and "j < length (corr_matrix p)"
  shows "corr_matrix p ! i ! j = NaN \<or>
   (\<exists>c a b. corr_matrix p ! i ! j = Corr c a b \<and> 0 < a \<and> 0 < b \<and> c\<^sup>2 \<le> a * b)"
  using plot_correlation_Inr [OF assms(1)] assms(2,3) nancorr_pair_cases by (simp add: nth_nancorr)

text \<open>
  C34: the heatmap hides exactly the weak correlations. On every cell of the six
  numeric columns, the exact test on the pandas statistics is
  \<open>|r| < threshold\<close> for the Pearson value \<open>r = covxy / sqrt(ssqdmx * ssqdmy)\<close>,
  and a NaN cell is never hidden (NaN compares false).
\<close>

theorem correlation_mask_exact:
  assumes "plot_correlation_matrix df threshold price_checkbox = Inr p"
    and "i < length (corr_matrix p)" and "j < length (corr_matrix p)"
  shows "corr_mask p ! i ! j \<longleftrightarrow>
    (case pearson (corr_matrix p ! i ! j) of None \<Rightarrow> False | Some r \<Rightarrow> \<bar>r\<bar> < of_rat threshold)"
proof -
  have m: "corr_mask p ! i ! j = abs_lt threshold (corr_matrix p ! i ! j)" by (rule mask_entry [OF assms])
  from matrix_entry_cases [OF assms] show ?thesis
  proof
    assume "corr_matrix p ! i ! j = NaN"
    then show ?thesis using m by (simp add: abs_lt_def pearson_def)
  next
    assume "\<exists>c a b. corr_matrix p ! i ! j = Corr c a b \<and> 0 < a \<and> 0 < b \<and> c\<^sup>2 \<le> a * b"
    then obtain c a b where v: "corr_matrix p ! i ! j = Corr c a b" and "0 < a" "0 < b" by blast
    then have "0 < a * b" by simp
    then show ?thesis using m v by (simp add: abs_lt_pearson pearson_def)
  qed
qed

theorem correlation_mask_exact_witness:
  "corr_mask (projr (plot_correlation_matrix
     [(blank_row ''o1'')\<lparr>price := Some 1, payment_value := Some 1\<rparr>,
      (blank_row ''o2'')\<lparr>price := Some 2, payment_value := Some 0\<rparr>,
      (blank_row ''o3'')\<lparr>price := Some 3, payment_value := Some 1\<rparr>] (1/2) False)) ! 1 ! 2"
proof -
  let ?t = "[(blank_row ''o1'')\<lparr>price := Some 1, payment_value := Some 1\<rparr>,
      (blank_row ''o2'')\<lparr>price := Some 2, payment_value := Some 0\<rparr>,
      (blank_row ''o3'')\<lparr>price := Some 3, payment_value := Some 1\<rparr>]"
  have h: "plot_correlation_matrix ?t (1/2) False = Inr (projr (plot_correlation_matrix ?t (1/2) False))"
    by (simp add: plot_correlation_eq)
  have l: "length (corr_matrix (projr (plot_correlation_matrix ?t (1/2) False))) = 5"
    by (simp add: plot_correlation_eq numeric_columns_def)
  have e: "corr_matrix (projr (plot_correlation_matrix ?t (1/2) False)) ! 1 ! 2 = Corr 0 (2/3) 2"
    by code_simp
  have "(1::nat) < 5" "(2::nat) < 5" by simp_all
  with l have i: "1 < length (corr_matrix (projr (plot_correlation_matrix ?t (1/2) False)))"
    and j: "2 < length (corr_matrix (projr (plot_correlation_matrix ?t (1/2) False)))" by simp_all
  show ?thesis using correlation_mask_exact [OF h i j] e by (simp add: pearson_def)
qed

text \<open>
  C35: the heatmap's values are correlations. The matrix is square, one row and one
  column per numeric column that \<open>select_dtypes\<close> keeps, and symmetric
  (pandas computes the lower triangle and mirrors it), every value lies in
  \<open>[-1, 1]\<close> (Cauchy--Schwarz on the pandas statistics), and a diagonal cell is 1,
  or NaN for a column with fewer than two distinct values.
\<close>

theorem correlation_bounds:
  assumes "plot_correlation_matrix df threshold price_checkbox = Inr p"
    and "i < length (corr_matrix p)" and "j < length (corr_matrix p)"
  shows "length (corr_matrix p) = length (numeric_columns df) \<and>
    length (corr_matrix p ! i) = length (corr_matrix p) \<and> corr_matrix p ! i ! j = corr_matrix p ! j ! i \<and>
    (case pearson (corr_matrix p ! i ! j) of None \<Rightarrow> True | Some r \<Rightarrow> \<bar>r\<bar> \<le> 1) \<and>
    (corr_matrix p ! i ! i = NaN \<or> pearson (corr_matrix p ! i ! i) = Some 1)"
proof -
  note pc = plot_correlation_Inr [OF assms(1)]
  let ?mat = "map snd (numeric_columns df)"
  have ij: "i < length ?mat" "j < length ?mat" using assms(2,3) pc by simp_all
  have sym: "corr_matrix p ! i ! j = corr_matrix p ! j ! i" using pc nancorr_sym [OF ij] by simp
  have bnd: "case pearson (corr_matrix p ! i ! j) of None \<Rightarrow> True | Some r \<Rightarrow> \<bar>r\<bar> \<le> 1"
    using matrix_entry_cases [OF assms]
  proof
    assume "corr_matrix p ! i ! j = NaN"
    then show ?thesis by (simp add: pearson_def)
  next
    assume "\<exists>c a b. corr_matrix p ! i ! j = Corr c a b \<and> 0 < a \<and> 0 < b \<and> c\<^sup>2 \<le> a * b"
    then obtain c a b where v: "corr_matrix p ! i ! j = Corr c a b" and "0 < a" "0 < b" "c\<^sup>2 \<le> a * b"
      by blast
    then show ?thesis using pearson_abs_le_1 [of a b c] by (simp add: pearson_def)
  qed
  have "corr_matrix p ! i ! i = nancorr_pair (?mat ! i) (?mat ! i)" using pc ij by (simp add: nth_nancorr)
  then have diag: "corr_matrix p ! i ! i = NaN \<or> pearson (corr_matrix p ! i ! i) = Some 1"
    using nancorr_pair_diag by simp
  have "length (corr_matrix p ! i) = length (corr_matrix p)" using pc ij by (simp add: length_nancorr_row)
  then show ?thesis using pc sym bnd diag by simp
qed

theorem correlation_bounds_witness:
  "corr_matrix (projr (plot_correlation_matrix
     [(blank_row ''o1'')\<lparr>price := Some 1\<rparr>, (blank_row ''o2'')\<lparr>price := Some 2\<rparr>] 0 False)) ! 0 ! 0 = NaN"
proof -
  let ?t = "[(blank_row ''o1'')\<lparr>price := Some 1\<rparr>, (blank_row ''o2'')\<lparr>price := Some 2\<rparr>]"
  have h: "plot_correlation_matrix ?t 0 False = Inr (projr (plot_correlation_matrix ?t 0 False))"
    by (simp add: plot_correlation_eq)
  have l: "length (corr_matrix (projr (plot_correlation_matrix ?t 0 False))) = 5"
    by (simp add: plot_correlation_eq numeric_columns_def)
  then have i: "0 < length (corr_matrix (projr (plot_correlation_matrix ?t 0 False)))" by simp
  have "corr_matrix (projr (plot_correlation_matrix ?t 0 False)) ! 0 ! 0 = NaN" by code_simp
  then show ?thesis using correlation_bounds [OF h i i] by simp
qed

text \<open>
  The slider's range. With a threshold of at most 0 (the default is 0.0) no cell
  is hidden, and with a threshold of at most 1 (the slider's maximum) no diagonal cell
  is hidden; ticking the price checkbox shows the \<open>'price'\<close> column of the matrix.
\<close>

theorem correlation_threshold_range:
  assumes "plot_correlation_matrix df threshold price_checkbox = Inr p"
    and "i < length (corr_matrix p)" and "j < length (corr_matrix p)"
  shows "(threshold \<le> 0 \<longrightarrow> \<not> corr_mask p ! i ! j) \<and>
    (threshold \<le> 1 \<longrightarrow> \<not> corr_mask p ! i ! i) \<and>
    price_corr p = (if price_checkbox then Some (map (\<lambda>row. row ! 1) (corr_matrix p)) else None)"
proof -
  note pc = plot_correlation_Inr [OF assms(1)]
  let ?mat = "map snd (numeric_columns df)"
  have ij: "i < length ?mat" using assms(2) pc by simp
  have "threshold \<le> 0 \<longrightarrow> \<not> corr_mask p ! i ! j"
    using mask_entry [OF assms] by (simp add: abs_lt_def split: corr_value.splits)
  moreover have "threshold \<le> 1 \<longrightarrow> \<not> corr_mask p ! i ! i"
  proof
    assume t: "threshold \<le> 1"
    have m: "corr_mask p ! i ! i = abs_lt threshold (nancorr_pair (?mat ! i) (?mat ! i))"
      using mask_entry [OF assms(1,2,2)] pc ij by (simp add: nth_nancorr)
    from nancorr_pair_diag [of "?mat ! i"] show "\<not> corr_mask p ! i ! i"
    proof
      assume "nancorr_pair (?mat ! i) (?mat ! i) = NaN"
      then show ?thesis using m by (simp add: abs_lt_def)
    next
      assume one: "pearson (nancorr_pair (?mat ! i) (?mat ! i)) = Some 1"
      then obtain c a b where v: "nancorr_pair (?mat ! i) (?mat ! i) = Corr c a b"
        by (cases "nancorr_pair (?mat ! i) (?mat ! i)") (simp_all add: pearson_def)
      have ab: "0 < a * b" using nancorr_pair_Corr [OF v] by simp
      have "pearson (Corr c a b) = Some 1" using one v by simp
      then have r1: "of_rat c / sqrt (of_rat a * of_rat b) = (1::real)"
        by (simp only: pearson_def corr_value.case option.inject)
      have "abs_lt threshold (Corr c a b) \<longleftrightarrow> \<bar>1::real\<bar> < of_rat threshold"
        using abs_lt_pearson [OF ab, of threshold c] unfolding r1 .
      moreover have "\<not> (1::real) < of_rat threshold" using t by (simp add: of_rat_less_1_iff not_less)
      ultimately show ?thesis using m v by simp
    qed
  qed
  ultimately show ?thesis using pc by simp
qed

theorem correlation_threshold_range_witness:
  "\<not> corr_mask (projr (plot_correlation_matrix
     [(blank_row ''o1'')\<lparr>price := Some 1, payment_value := Some 1\<rparr>,
      (blank_row ''o2'')\<lparr>price := Some 2, payment_value := Some 0\<rparr>,
      (blank_row ''o3'')\<lparr>price := Some 3, payment_value := Some 1\<rparr>] 0 True)) ! 1 ! 2"
proof -
  let ?t = "[(blank_row ''o1'')\<lparr>price := Some 1, payment_value := Some 1\<rparr>,
      (blank_row ''o2'')\<lparr>price := Some 2, payment_value := Some 0\<rparr>,
      (blank_row ''o3'')\<lparr>price := Some 3, payment_value := Some 1\<rparr>]"
  have h: "plot_correlation_matrix ?t 0 True = Inr (projr (plot_correlation_matrix ?t 0 True))"
    by (simp add: plot_correlation_eq)
  have l: "length (corr_matrix (projr (plot_correlation_matrix ?t 0 True))) = 5"
    by (simp add: plot_correlation_eq numeric_columns_def)
  then have i: "1 < length (corr_matrix (projr (plot_correlation_matrix ?t 0 True)))"
    and j: "2 < length (corr_matrix (projr (plot_correlation_matrix ?t 0 True)))" by simp_all
  show ?thesis using correlation_threshold_range [OF h i j] by simp
qed

end
