(* ===== verification/Geolocation.thy ===== *)
theory Geolocation
  imports Orders
begin

text \<open>
  The geolocation map, \<open>plot_geolocation_distribution(geo_df)\<close> of dashboard.py
  lines 362--397.
  \<^item> \<open>zip_bounds\<close> (lines 370--371): the minimum and maximum zip-code prefix, the
    slider's range and its default selection (lines 374--378); the slider returns a
    pair \<open>(lo, hi)\<close> with \<open>lo \<le> hi\<close>.
  \<^item> \<open>plot_geolocation_distribution\<close> (lines 380--390): every row of \<open>geo_df\<close> is drawn
    at \<open>(lng, lat)\<close>; the selection is handed to \<open>gdf.plot\<close> only as \<open>vmin\<close> and
    \<open>vmax\<close> of the colour scale. matplotlib's \<open>Normalize\<close> maps a prefix \<open>z\<close> to
    \<open>(z - vmin) / (vmax - vmin)\<close> (\<open>geo_norm\<close>; 0 when \<open>vmin = vmax\<close>; ValueError when
    \<open>vmin > vmax\<close>), and the colormap draws values below 0 and above 1 in its end
    colours (\<open>colour_level\<close>, the clamp to \<open>[0, 1]\<close>; the 256-entry lookup table is not
    modelled). The world boundary layer read from disk is not modelled.
\<close>

definition zip_bounds :: "geo_row list \<Rightarrow> (int \<times> int) option" where
  "zip_bounds geo_df =
     (case (col_min (map (\<lambda>r. Some (geolocation_zip_code_prefix r)) geo_df),
            col_max (map (\<lambda>r. Some (geolocation_zip_code_prefix r)) geo_df)) of
        (Some min_val, Some max_val) \<Rightarrow> Some (min_val, max_val)
      | _ \<Rightarrow> None)"

definition geo_norm :: "int \<Rightarrow> int \<Rightarrow> int \<Rightarrow> rat" where
  "geo_norm vmin vmax z =
     (if vmin = vmax then 0 else (of_int z - of_int vmin) / (of_int vmax - of_int vmin))"

definition colour_level :: "rat \<Rightarrow> rat" where
  "colour_level x = max 0 (min 1 x)"

record geo_plot =
  geo_points :: "(rat \<times> rat \<times> int) list"
  geo_levels :: "rat list"
  geo_vmin :: int
  geo_vmax :: int

definition plot_geolocation_distribution :: "geo_row list \<Rightarrow> int \<times> int \<Rightarrow> py_error + geo_plot" where
  "plot_geolocation_distribution geo_df threshold =
     (let (vmin, vmax) = threshold in
      if vmax < vmin then Inl ValueError
      else Inr \<lparr>geo_points = map (\<lambda>r. (geolocation_lng r, geolocation_lat r, geolocation_zip_code_prefix r)) geo_df,
                geo_levels = map (\<lambda>r. colour_level (geo_norm vmin vmax (geolocation_zip_code_prefix r))) geo_df,
                geo_vmin = vmin, geo_vmax = vmax\<rparr>)"

lemma plot_geolocation_Inr:
  "plot_geolocation_distribution geo_df (lo, hi) = Inr p \<longleftrightarrow>
   lo \<le> hi \<and>
   p = \<lparr>geo_points = map (\<lambda>r. (geolocation_lng r, geolocation_lat r, geolocation_zip_code_prefix r)) geo_df,
        geo_levels = map (\<lambda>r. colour_level (geo_norm lo hi (geolocation_zip_code_prefix r))) geo_df,
        geo_vmin = lo, geo_vmax = hi\<rparr>"
  by (auto simp: plot_geolocation_distribution_def)

lemma colour_level_bounds: "0 \<le> colour_level x \<and> colour_level x \<le> 1"
  by (simp add: colour_level_def)

lemma geo_norm_le_0: "z \<le> lo \<Longrightarrow> lo \<le> hi \<Longrightarrow> geo_norm lo hi z \<le> 0"
  by (simp add: geo_norm_def divide_nonpos_pos)

lemma geo_norm_ge_1: "lo < hi \<Longrightarrow> hi \<le> z \<Longrightarrow> 1 \<le> geo_norm lo hi z"
  by (simp add: geo_norm_def)

text \<open>
  C38: the selection only moves the colour scale. Every point's colour level lies in
  \<open>[0, 1]\<close>; a prefix at or below the selected minimum gets the lowest colour, one at
  or above the selected maximum the highest, and when both ends of the selection are
  equal (the spec's example \<open>lo = hi = min\<close>) every point gets the lowest colour.
\<close>

theorem geolocation_colour_levels:
  assumes "plot_geolocation_distribution geo_df (lo, hi) = Inr p" and "i < length geo_df"
  shows "0 \<le> geo_levels p ! i \<and> geo_levels p ! i \<le> 1 \<and>
    (geolocation_zip_code_prefix (geo_df ! i) \<le> lo \<longrightarrow> geo_levels p ! i = 0) \<and>
    (lo < hi \<and> hi \<le> geolocation_zip_code_prefix (geo_df ! i) \<longrightarrow> geo_levels p ! i = 1) \<and>
    (lo = hi \<longrightarrow> geo_levels p ! i = 0)"
proof -
  let ?z = "geolocation_zip_code_prefix (geo_df ! i)"
  have le: "lo \<le> hi" and l: "geo_levels p ! i = colour_level (geo_norm lo hi ?z)"
    using assms by (simp_all add: plot_geolocation_Inr)
  have "?z \<le> lo \<longrightarrow> colour_level (geo_norm lo hi ?z) = 0"
    using geo_norm_le_0 [of ?z lo hi] le by (auto simp: colour_level_def)
  moreover have "lo < hi \<and> hi \<le> ?z \<longrightarrow> colour_level (geo_norm lo hi ?z) = 1"
    using geo_norm_ge_1 [of lo hi ?z] by (auto simp: colour_level_def)
  moreover have "lo = hi \<longrightarrow> colour_level (geo_norm lo hi ?z) = 0"
    by (simp add: colour_level_def geo_norm_def)
  ultimately show ?thesis using l colour_level_bounds by simp
qed

theorem geolocation_colour_levels_witness:
  "geo_levels (projr (plot_geolocation_distribution
     [\<lparr>geolocation_zip_code_prefix = 1, geolocation_lat = -23, geolocation_lng = -46\<rparr>,
      \<lparr>geolocation_zip_code_prefix = 5, geolocation_lat = -22, geolocation_lng = -43\<rparr>] (1, 1))) ! 1 = 0"
proof -
  let ?g = "[\<lparr>geolocation_zip_code_prefix = 1, geolocation_lat = -23, geolocation_lng = -46\<rparr>,
      \<lparr>geolocation_zip_code_prefix = 5, geolocation_lat = -22, geolocation_lng = -43\<rparr>] :: geo_row list"
  have h: "plot_geolocation_distribution ?g (1, 1) = Inr (projr (plot_geolocation_distribution ?g (1, 1)))"
    by (simp add: plot_geolocation_distribution_def)
  have i: "1 < length ?g" by simp
  show ?thesis using geolocation_colour_levels [OF h i] by simp
qed

lemma zip_bounds_Some:
  assumes "zip_bounds geo_df = Some (lo, hi)"
  shows "(\<forall>r\<in>set geo_df. lo \<le> geolocation_zip_code_prefix r \<and> geolocation_zip_code_prefix r \<le> hi) \<and>
    (\<exists>r\<in>set geo_df. geolocation_zip_code_prefix r = lo) \<and> (\<exists>r\<in>set geo_df. geolocation_zip_code_prefix r = hi)"
proof -
  let ?zs = "map (\<lambda>r. Some (geolocation_zip_code_prefix r)) geo_df"
  have "col_min ?zs = Some lo" "col_max ?zs = Some hi"
    using assms by (auto simp: zip_bounds_def split: option.splits)
  from col_min_Some [OF this(1)] col_max_Some [OF this(2)] show ?thesis by force
qed

lemma colour_level_unit: "0 \<le> x \<Longrightarrow> x \<le> 1 \<Longrightarrow> colour_level x = x"
  by (simp add: colour_level_def)

lemma geo_norm_unit:
  assumes "lo \<le> z" and "z \<le> hi"
  shows "0 \<le> geo_norm lo hi z \<and> geo_norm lo hi z \<le> 1"
proof (cases "lo = hi")
  case False
  with assms have "(0::rat) < of_int hi - of_int lo" by simp
  with assms show ?thesis by (simp add: geo_norm_def False divide_le_eq_1)
qed (simp add: geo_norm_def)

text \<open>
  C37: the slider's default selection spans the data. \<open>zip_bounds\<close> gives the least
  and the greatest zip-code prefix of \<open>geo_df\<close>, both taken by some row; with that
  default selection the map is drawn, and every point's colour level is its position
  \<open>(z - min) / (max - min)\<close> on the linear scale, unclamped: the minimum gets the
  lowest colour, the maximum the highest.
\<close>

theorem geolocation_default_scale:
  assumes "zip_bounds geo_df = Some (lo, hi)"
  shows "(\<forall>r\<in>set geo_df. lo \<le> geolocation_zip_code_prefix r \<and> geolocation_zip_code_prefix r \<le> hi) \<and>
    (\<exists>r\<in>set geo_df. geolocation_zip_code_prefix r = lo) \<and> (\<exists>r\<in>set geo_df. geolocation_zip_code_prefix r = hi) \<and>
    (\<exists>p. plot_geolocation_distribution geo_df (lo, hi) = Inr p \<and>
         geo_levels p = map (\<lambda>r. geo_norm lo hi (geolocation_zip_code_prefix r)) geo_df)"
proof -
  note b = zip_bounds_Some [OF assms]
  then have le: "lo \<le> hi" by fastforce
  have "map (\<lambda>r. colour_level (geo_norm lo hi (geolocation_zip_code_prefix r))) geo_df =
      map (\<lambda>r. geo_norm lo hi (geolocation_zip_code_prefix r)) geo_df"
    using b by (auto intro!: colour_level_unit dest: geo_norm_unit)
  then show ?thesis using b le by (simp add: plot_geolocation_Inr)
qed

theorem geolocation_default_scale_witness:
  "zip_bounds [\<lparr>geolocation_zip_code_prefix = 1, geolocation_lat = -23, geolocation_lng = -46\<rparr>,
      \<lparr>geolocation_zip_code_prefix = 5, geolocation_lat = -22, geolocation_lng = -43\<rparr>] = Some (1, 5) \<and>
   geo_levels (projr (plot_geolocation_distribution
     [\<lparr>geolocation_zip_code_prefix = 1, geolocation_lat = -23, geolocation_lng = -46\<rparr>,
      \<lparr>geolocation_zip_code_prefix = 5, geolocation_lat = -22, geolocation_lng = -43\<rparr>] (1, 5))) = [0, 1]"
proof -
  let ?g = "[\<lparr>geolocation_zip_code_prefix = 1, geolocation_lat = -23, geolocation_lng = -46\<rparr>,
      \<lparr>geolocation_zip_code_prefix = 5, geolocation_lat = -22, geolocation_lng = -43\<rparr>] :: geo_row list"
  have z: "zip_bounds ?g = Some (1, 5)" by code_simp
  from geolocation_default_scale [OF z] obtain p where
    p: "plot_geolocation_distribution ?g (1, 5) = Inr p"
       "geo_levels p = map (\<lambda>r. geo_norm 1 5 (geolocation_zip_code_prefix r)) ?g" by blast
  show ?thesis using z p by (simp add: geo_norm_def)
qed

end
