(* ===== verification/Spec2Isabelle.thy ===== *)
theory Spec2Isabelle
  imports Timestamps TimeFilter Metrics Daily Ranking Demographics Histogram Correlation Geolocation
begin

text \<open>
  \<^bold>\<open>A verification model of the E-Commerce Marketplace dashboard.\<close>

  The program (\<open>src/dashboard/dashboard.py\<close>, one Streamlit script) loads an orders
  table (one row per order item) and a geolocation table, converts six date columns
  to timestamps, restricts the orders to a date range picked in the sidebar
  (\<open>main_df\<close>), and hands \<open>main_df\<close> to a dozen independent functions that
  aggregate it with pandas and draw one chart or metric each. The components share no
  state: every one is a pure function of \<open>main_df\<close> (or of the raw tables), so the
  model is a set of executable HOL functions, one per source function, composed as
  the script composes them (lines 412--466).

  \<^bold>\<open>Theories and what they model.\<close>
  \<^item> \<open>Prelude\<close>: the pandas vocabulary the script uses. NaN/NaT is \<open>None\<close> in an
    \<open>option\<close> column; \<open>dropna\<close>, \<open>nunique\<close>, \<open>sum_skipna\<close>, \<open>mean_skipna\<close>,
    \<open>col_min\<close>/\<open>col_max\<close> are the Series reductions; \<open>sort_values_desc\<close>/
    \<open>sort_values_asc\<close> sort by one column (ties in stable order, one of the orders
    pandas may produce); \<open>groupby_agg\<close> is \<open>groupby(...).col.agg()\<close> with sorted,
    non-NaN keys. Generic lemmas: group sums and distinct counts add up to the table's
    (\<open>sum_groupby_agg\<close>, \<open>nunique_over_keys\<close>), head(k) of a sorted table dominates
    the rest; the exceptions the script can raise are the datatype \<open>py_error\<close>.
  \<^item> \<open>Orders\<close>: the row records \<open>order_row\<close> (all_df after lines 399--410) and
    \<open>geo_row\<close> (geo_df); timestamps are integer seconds, a sidebar date a day number;
    \<open>midnight\<close> is how pandas reads \<open>str(date)\<close> against a datetime column and
    \<open>day_of\<close> the day bin of \<open>resample('D')\<close>.
  \<^item> \<open>Timestamps\<close>: the conversion loop of lines 399--410 and \<open>str(date)\<close> of
    lines 428--429. \<open>to_datetime\<close> is \<open>pd.to_datetime\<close> on an object column of
    \<open>YYYY-MM-DD HH:MM:SS\<close> strings (\<open>parse_datetime\<close>; NaN becomes NaT; a string
    that is no valid date and time, or one outside the \<open>datetime64[ns]\<close> range
    \<open>ns_bounded\<close>, raises ValueError); \<open>convert_datetime_cols\<close> runs it over
    \<open>datetime_cols\<close> in order on a table of named columns (KeyError for a missing
    column). The proleptic Gregorian calendar is \<open>days_from_civil\<close> and its inverse
    \<open>civil_from_days\<close>, which finds the year by a downward search \<open>year_down\<close>, a
    \<open>function\<close> whose termination is proved with the measure
    \<open>days_before_year y - z\<close>; C4: the two are inverse, a bijection between day
    numbers and valid dates. \<open>str_date\<close>
    prints a day as \<open>YYYY-MM-DD\<close> and \<open>date_operand\<close> is the timestamp pandas
    compares a datetime column with. C5: the converted column keeps its length, NaT
    exactly at NaN, and values in the nanosecond range. C22: \<open>str(d)\<close> is read back
    as \<open>midnight d\<close> for every date of years 1--9999, which is why \<open>TimeFilter\<close>
    compares with \<open>midnight\<close>. C36: the loop raises the error of the first column,
    in \<open>datetime_cols\<close> order, that fails. C40: a timestamp written in the CSV
    layout (\<open>format_datetime\<close>, which models the data file, not code) is parsed back
    unchanged.
    \<open>load_all_df\<close> is lines 399--410 as a whole: the loop, then each converted column
    written back into the rows of \<open>all_df\<close> (\<open>set_date_column\<close>, index-aligned as a
    pandas column assignment, NaN where the column is short; \<open>date_field\<close> reads a
    column by name). The frame \<open>read_csv\<close> returns is a list of rows holding the other
    columns together with the six date columns as strings.
  \<^item> \<open>TimeFilter\<close>: lines 412--430, \<open>min_date\<close>, \<open>max_date\<close>, the date_input
    default, the unpacking of its selection (ValueError unless two dates) and
    \<open>main_df\<close>. Claims C1--C3: in calendar days the filter keeps the days from the
    start date to the day before the end date and, of the end date, only rows approved
    exactly at midnight; so the end date's own rows after midnight are dropped and the
    default view loses the latest orders. The unpacking fails on a one-date selection
    (\<open>select_main_df_cases\<close>, and C39 at page level).
  \<^item> \<open>Currency\<close>: Babel's \<open>format_currency(v, 'BRL', locale='pt_BR')\<close> (half-even
    quantization to centavos, \<open>.\<close> grouping, \<open>,\<close> decimals, \<open>R$\<close> and a no-break
    space) and numpy's \<open>round(2)\<close>, on exact rationals. C6 is the round trip through a
    parser of the display; \<open>round2_error_bound\<close> bounds the rounding error.
  \<^item> \<open>Metrics\<close>: \<open>display_dataframe\<close> (lines 16--57), the category selection with
    \<open>isin\<close> and the three metrics of each branch. C8, C10, C11: a selection covering
    every label is the unfiltered view, the empty-table panel shows the NaN marker, and
    the mean review stays in [1, 5]; the spec's worked example is
    \<open>display_dataframe_example\<close>.
  \<^item> \<open>Daily\<close>: \<open>create_daily_orders_df\<close> (resample by day, lines 59--74),
    \<open>plot_total_orders_and_revenue\<close> (76--81) and the data of \<open>plot_daily_orders\<close>
    (83--113). C12--C14: the series is zero-filled between the first and last day, it
    loses no revenue and no item, and its order counts add up to the distinct orders
    when approval is per order.
  \<^item> \<open>Ranking\<close>: \<open>plot_best_worst_performing_product\<close> (lines 115--178). C17--C20:
    the best chart is the top five of the descending ranking, the worst chart the head
    of the ascending one, the ranking drops only NaN categories, and "Number of
    Sales" sums item sequence numbers (\<open>n (n + 1) / 2\<close> for an order of \<open>n\<close> items).
  \<^item> \<open>Reviews\<close>: \<open>plot_review_scores_distribution\<close> (lines 180--241). C21, C23, C24:
    one bar per score with its count, the pie's percentages add up to 100, and the
    pie's dict lookup raises KeyError exactly on a score outside 1..5. The pie's wedge
    labels and \<open>autopct\<close> texts are the scores and their percentages to one decimal
    (\<open>review_pie_texts\<close>, \<open>format_pct1_value\<close>: within 1/20 of the exact share).
  \<^item> \<open>Demographics\<close>: \<open>plot_demographic_characteristics\<close> (lines 256--333).
    C25--C28: \<open>idxmax\<close> raises ValueError exactly when no row has a state, the
    first state bar alone is highlighted and is maximal, the city chart cycles the
    state palette (city \<open>i\<close> highlighted iff \<open>i\<close> is a multiple of the number of
    states), and the state counts add up to the distinct orders with a state. The
    \<open>str(value)\<close> bar labels sit on their bars (\<open>demographics_labels\<close>).
  \<^item> \<open>Histogram\<close>: \<open>plot_delivery_times_distribution\<close> (lines 242--253) as numpy's
    uniform-bin histogram with 20 bins. C29--C32: numpy's truncated-offset bin index
    equals the reference definition by edges, the bars count every non-NaN delivery
    time once, bar \<open>j\<close> counts the values of its half-open interval (the last one
    closed), and a constant column lands in the middle bar of a range widened by 0.5.
  \<^item> \<open>Correlation\<close>: \<open>plot_correlation_matrix\<close> (lines 335--360), pandas'
    \<open>nancorr\<close> with Welford's update. C33--C35: the one-pass update equals the
    two-pass statistics, a cell is hidden exactly when \<open>|r| < threshold\<close> for the
    real Pearson value, and the matrix is square (one row and column per numeric
    column), symmetric, with values in \<open>[-1, 1]\<close> and diagonal 1 or NaN; with the slider's range \<open>\<le> 0\<close> nothing is hidden and with
    \<open>\<le> 1\<close> never the diagonal (\<open>correlation_threshold_range\<close>).
  \<^item> \<open>Geolocation\<close>: \<open>plot_geolocation_distribution\<close> (lines 362--397). C37--C38:
    the slider's default selection is the least and greatest prefix, under which each
    point's colour is its unclamped linear position; any selection only sets the colour
    scale, clamped to \<open>[0, 1]\<close>, and every row is drawn whatever is selected.
  \<^item> This theory: \<open>dashboard\<close>, the script body (lines 412--466) calling the
    sections in order and stopping at the first exception, \<open>dashboard_script\<close>, the
    same preceded by the loading of lines 399--410, and the properties across
    components. C7: for a CSV whose date cells are the ISO strings of in-range
    timestamps, \<open>dashboard_script\<close> is \<open>dashboard\<close> on the rows they denote, so
    every page property carries over to the script as loaded. C15--C16: the daily section's totals refine the detail panel's
    metrics on the same \<open>main_df\<close>. C9: \<open>main_df_code\<close>, the filter with the
    string operands \<open>str(start_date)\<close> and \<open>str(end_date)\<close> as the code writes it,
    refines \<open>main_df\<close> for every date of Python's range. C39: which error stops the page, in script
    order.

  \<^bold>\<open>Modelling choices.\<close> Money, means, delivery times and correlations are
  rationals: the model computes exactly what the float64 code approximates, and the
  currency display is modelled on the decimal value Babel quantizes. A Pearson value
  involves a square root, so a correlation cell keeps pandas' three statistics and
  \<open>pearson\<close> gives its real value; the mask is decided exactly on the statistics.
  Sorting fixes the stable order among ties. Every function is structural
  recursion, a fold, or a \<open>map\<close>/\<open>filter\<close> over a table, except the year search of
  \<open>civil_from_days\<close>, whose termination is proved; no fuel is needed and every
  operation is total. Timestamps are whole seconds (the data has no fractions); the
  nanosecond range of \<open>datetime64[ns]\<close> is checked as \<open>ns_bounded\<close>. An exception is a value of \<open>py_error\<close>
  (ValueError, KeyError) in a sum type. Streamlit widgets are inputs of the model:
  the date selection (a list of days), the category multiselect, the correlation
  threshold and checkbox, and the zip-code range.

  \<^bold>\<open>Not modelled.\<close> Rendering (matplotlib, seaborn, geopandas, Streamlit layout,
  fonts and styling; the texts written on the charts are modelled), the KDE curve of the histogram, the world boundary file, the CSV
  download and \<open>read_csv\<close>'s tokenizing (lines 13--14) are I/O or drawing and stay
  outside the model; the model starts from the cells they give. Of the many string
  layouts \<open>pd.to_datetime\<close> accepts, only the ISO one of the data and of
  \<open>str(date)\<close> is modelled; other strings count as unparseable. When a section raises, the sections drawn before it stay
  on the page; the model returns only the error. What seaborn draws for a delivery
  column without values, and what Streamlit does with an empty geolocation table, are
  library behaviours the model leaves open (\<open>None\<close>, no claim).
  The script runs once per interaction, top to bottom: it has no loop that could fail
  to end and nothing that waits for an event, so the development states no
  termination or liveness property of the code; the one recursion that is not
  structural, the year search of \<open>civil_from_days\<close>, has its termination proved where
  it is defined.
\<close>

record dashboard_page =
  page_metrics :: metric_panel
  page_totals :: totals_panel
  page_daily :: daily_plot
  page_ranking :: ranking_plot
  page_reviews :: review_plot
  page_delivery :: "(rat list \<times> nat list) option"
  page_demographics :: demographics_plot
  page_correlation :: corr_plot
  page_geolocation :: geo_plot

definition dashboard ::
  "orders_table \<Rightarrow> geo_row list \<Rightarrow> day list \<Rightarrow> string option list \<Rightarrow> rat \<Rightarrow> bool \<Rightarrow> int \<times> int \<Rightarrow>
   py_error + dashboard_page" where
  "dashboard all_df geo_df date_selection option threshold price_checkbox zip_threshold =
     (case select_main_df all_df date_selection of
        Inl err \<Rightarrow> Inl err
      | Inr main \<Rightarrow>
          (let daily_orders_df = create_daily_orders_df main;
               reviews = plot_review_scores_distribution main
           in case score_pie reviews of
                Inl err \<Rightarrow> Inl err
              | Inr _ \<Rightarrow>
                  (case plot_demographic_characteristics main of
                     Inl err \<Rightarrow> Inl err
                   | Inr demographics \<Rightarrow>
                       (case plot_correlation_matrix main threshold price_checkbox of
                          Inl err \<Rightarrow> Inl err
                        | Inr correlation \<Rightarrow>
                            (case plot_geolocation_distribution geo_df zip_threshold of
                               Inl err \<Rightarrow> Inl err
                             | Inr geolocation \<Rightarrow>
                                 Inr \<lparr>page_metrics = display_dataframe main option,
                                      page_totals = plot_total_orders_and_revenue daily_orders_df,
                                      page_daily = plot_daily_orders daily_orders_df (min_date all_df),
                                      page_ranking = plot_best_worst_performing_product main,
                                      page_reviews = reviews,
                                      page_delivery = plot_delivery_times_distribution main,
                                      page_demographics = demographics,
                                      page_correlation = correlation,
                                      page_geolocation = geolocation\<rparr>)))))"

definition main_df_code :: "orders_table \<Rightarrow> day \<Rightarrow> day \<Rightarrow> py_error + orders_table" where
  "main_df_code all_df start_date end_date =
     (case (date_operand (str_date start_date), date_operand (str_date end_date)) of
        (Some a, Some b) \<Rightarrow>
          Inr (filter (\<lambda>r. ts_ge (order_approved_at r) a \<and> ts_le (order_approved_at r) b) all_df)
      | _ \<Rightarrow> Inl TypeError)"


definition dashboard_script ::
  "order_row list \<Rightarrow> (string \<rightharpoonup> string option list) \<Rightarrow> geo_row list \<Rightarrow> day list \<Rightarrow>
   string option list \<Rightarrow> rat \<Rightarrow> bool \<Rightarrow> int \<times> int \<Rightarrow> py_error + dashboard_page" where
  "dashboard_script rows raw geo_df date_selection option threshold price_checkbox zip_threshold =
     (case load_all_df rows raw of
        Inl err \<Rightarrow> Inl err
      | Inr all_df \<Rightarrow> dashboard all_df geo_df date_selection option threshold price_checkbox zip_threshold)"

lemma main_df_order_level_approval:
  assumes "\<forall>r1\<in>set all_df. \<forall>r2\<in>set all_df.
             order_id r1 = order_id r2 \<longrightarrow> order_approved_at r1 = order_approved_at r2"
  shows "\<forall>r1\<in>set (main_df all_df s e). \<forall>r2\<in>set (main_df all_df s e).
          order_id r1 = order_id r2 \<longrightarrow> approved_day r1 = approved_day r2"
proof (intro ballI impI)
  fix r1 r2
  assume "r1 \<in> set (main_df all_df s e)" "r2 \<in> set (main_df all_df s e)" "order_id r1 = order_id r2"
  with assms have "order_approved_at r1 = order_approved_at r2"
    unfolding mem_main_df_iff by blast
  then show "approved_day r1 = approved_day r2" by (simp add: approved_day_def)
qed

lemma main_df_approved: "filter (\<lambda>r. order_approved_at r \<noteq> None) (main_df all_df s e) = main_df all_df s e"
  by (rule filter_True) (auto simp: mem_main_df_iff)

lemma daily_revenue_main_df:
  "sum_list (map revenue (create_daily_orders_df (main_df all_df s e))) =
   sum_skipna (map payment_value (main_df all_df s e))"
proof -
  have "sum_list (map revenue (create_daily_orders_df (main_df all_df s e))) =
     sum_skipna (map payment_value (filter (\<lambda>r. order_approved_at r \<noteq> None) (main_df all_df s e)))"
    using daily_bin_sums [of "main_df all_df s e"] by (rule conjunct1)
  then show ?thesis by (simp only: main_df_approved)
qed

text \<open>
  C15: the two revenue figures of the page agree. On the working table \<open>main_df\<close>, the
  \<open>#Total Revenue\<close> of the daily section (the sum of the daily series) displays the same
  string as the \<open>#Revenue\<close> of the detail panel with no category selected.
\<close>

theorem total_revenue_refines_metric:
  "total_revenue (plot_total_orders_and_revenue (create_daily_orders_df (main_df all_df s e))) =
   metric_revenue (display_dataframe (main_df all_df s e) [])"
  using daily_revenue_main_df
  by (simp add: plot_total_orders_and_revenue_def display_dataframe_def metric_panel_of_def)

text \<open>
  C16: the two order counts of the page agree when approval is per order: if all items
  of an order carry the same approval timestamp, \<open>#Total Orders\<close> of the daily section
  equals \<open>#Orders\<close> of the detail panel with no category selected.
\<close>

theorem total_orders_refines_metric:
  assumes "\<forall>r1\<in>set all_df. \<forall>r2\<in>set all_df.
             order_id r1 = order_id r2 \<longrightarrow> order_approved_at r1 = order_approved_at r2"
  shows "total_orders (plot_total_orders_and_revenue (create_daily_orders_df (main_df all_df s e))) =
         metric_orders (display_dataframe (main_df all_df s e) [])"
proof -
  from main_df_order_level_approval [OF assms]
  have "sum_list (map order_count (create_daily_orders_df (main_df all_df s e))) =
      nunique (map order_id (filter (\<lambda>r. order_approved_at r \<noteq> None) (main_df all_df s e)))"
    by (rule daily_order_counts_nunique)
  then have "sum_list (map order_count (create_daily_orders_df (main_df all_df s e))) =
      nunique (map order_id (main_df all_df s e))"
    by (simp only: main_df_approved)
  then show ?thesis
    by (simp add: plot_total_orders_and_revenue_def display_dataframe_def metric_panel_of_def)
qed

theorem total_orders_refines_metric_witness:
  "total_orders (plot_total_orders_and_revenue (create_daily_orders_df (main_df
      [(blank_row ''o1'')\<lparr>order_approved_at := Some 3600\<rparr>,
       (blank_row ''o1'')\<lparr>order_item_id := 2, order_approved_at := Some 3600\<rparr>] 0 1))) =
   metric_orders (display_dataframe (main_df
      [(blank_row ''o1'')\<lparr>order_approved_at := Some 3600\<rparr>,
       (blank_row ''o1'')\<lparr>order_item_id := 2, order_approved_at := Some 3600\<rparr>] 0 1) [])"
proof -
  have fd: "\<forall>r1\<in>set [(blank_row ''o1'')\<lparr>order_approved_at := Some 3600\<rparr>,
       (blank_row ''o1'')\<lparr>order_item_id := 2, order_approved_at := Some 3600\<rparr>].
      \<forall>r2\<in>set [(blank_row ''o1'')\<lparr>order_approved_at := Some 3600\<rparr>,
       (blank_row ''o1'')\<lparr>order_item_id := 2, order_approved_at := Some 3600\<rparr>].
      order_id r1 = order_id r2 \<longrightarrow> order_approved_at r1 = order_approved_at r2"
    by simp
  show ?thesis by (rule total_orders_refines_metric [OF fd])
qed

text \<open>
  C39: how the page fails, in script order. The run stops with ValueError when the
  date selection is not two dates; otherwise with KeyError when the working table has
  a review score outside 1..5 (the pie, line 228), before anything below it is drawn;
  otherwise with ValueError when no row of the working table has a customer state
  (\<open>idxmax\<close>, line 262) or the zip-code selection is reversed. The correlation
  section never fails.
\<close>

theorem dashboard_errors:
  "dashboard all_df geo_df sel option threshold price_checkbox (lo, hi) = Inl e \<longleftrightarrow>
   (length sel \<noteq> 2 \<and> e = ValueError) \<or>
   (length sel = 2 \<and>
     ((\<exists>r s. r \<in> set (main_df all_df (sel ! 0) (sel ! 1)) \<and> review_score r = Some s \<and> (s < 1 \<or> 5 < s)) \<and>
        e = KeyError \<or>
      \<not> (\<exists>r s. r \<in> set (main_df all_df (sel ! 0) (sel ! 1)) \<and> review_score r = Some s \<and> (s < 1 \<or> 5 < s)) \<and>
        ((\<forall>r\<in>set (main_df all_df (sel ! 0) (sel ! 1)). customer_state r = None) \<or> hi < lo) \<and>
        e = ValueError))"
proof (cases "length sel = 2")
  case False
  then show ?thesis by (auto simp: dashboard_def select_main_df_cases)
next
  case True
  let ?m = "main_df all_df (sel ! 0) (sel ! 1)"
  have sel: "select_main_df all_df sel = Inr ?m" using True by (simp add: select_main_df_cases)
  show ?thesis using True sel plot_correlation_eq [of ?m threshold price_checkbox]
    score_pie_Inl_iff [of ?m] plot_demographic_Inl_iff [of ?m]
    by (auto simp: dashboard_def Let_def plot_geolocation_distribution_def split: sum.splits)
qed

theorem dashboard_errors_witness:
  "dashboard [blank_row ''o1''] [] [0] [] 0 False (0, 0) = Inl ValueError"
  using dashboard_errors [of "[blank_row ''o1'']" "[]" "[0]" "[]" 0 False 0 0 ValueError] by simp

text \<open>
  C9: the filter of lines 427--430 compares \<open>order_approved_at\<close> with the strings
  \<open>str(start_date)\<close> and \<open>str(end_date)\<close>. For any two dates of Python's range it
  computes exactly \<open>main_df\<close>, the filter with the two midnights that the time-filter
  claims C1--C3 and every section of the page are stated over; the TypeError branch
  of a string pandas cannot read as a date is never taken.
\<close>

theorem main_df_code_refines:
  assumes "1 \<le> year_of_day s" and "year_of_day s \<le> 9999"
    and "1 \<le> year_of_day e" and "year_of_day e \<le> 9999"
  shows "main_df_code all_df s e = Inr (main_df all_df s e)"
proof -
  have "date_operand (str_date s) = Some (midnight s)" "date_operand (str_date e) = Some (midnight e)"
    using str_date_parse [OF assms(1,2)] str_date_parse [OF assms(3,4)] by (simp_all add: date_operand_def)
  then show ?thesis by (simp add: main_df_code_def main_df_def)
qed

theorem main_df_code_refines_witness:
  "main_df_code [(blank_row ''o1'')\<lparr>order_approved_at := Some 1506941793\<rparr>] 17441 17442 =
   Inr [(blank_row ''o1'')\<lparr>order_approved_at := Some 1506941793\<rparr>]"
proof -
  have y: "1 \<le> year_of_day 17441" "year_of_day 17441 \<le> 9999" "1 \<le> year_of_day 17442" "year_of_day 17442 \<le> 9999"
    by code_simp+
  show ?thesis using main_df_code_refines [OF y] by (simp add: main_df_def ts_ge_def ts_le_def midnight_def seconds_per_day_def)
qed

text \<open>
  C7: loading composes with the page. When every date cell of the CSV is the
  \<open>YYYY-MM-DD HH:MM:SS\<close> string of a timestamp in the \<open>datetime64[ns]\<close> range (or
  NaN), the script from line 399 on, which converts the six columns, writes them back
  into \<open>all_df\<close> and draws the page, computes exactly the page of the rows those strings
  denote: the conversion loses, shifts and swaps no timestamp, so every property of
  \<open>dashboard\<close> holds of the script.
\<close>

theorem dashboard_script_csv:
  assumes "\<forall>c\<in>set datetime_cols. raw c = Some (map (map_option format_datetime \<circ> date_field c) all_df)"
    and "\<forall>r\<in>set all_df. \<forall>c\<in>set datetime_cols. pred_option ns_bounded (date_field c r)"
  shows "dashboard_script all_df raw geo_df sel option threshold price_checkbox zip_threshold =
    dashboard all_df geo_df sel option threshold price_checkbox zip_threshold"
  using load_all_df_csv [OF assms] by (simp add: dashboard_script_def)

theorem dashboard_script_csv_witness:
  "dashboard_script [(blank_row ''o1'')\<lparr>order_approved_at := Some 1506941793\<rparr>]
     [''order_approved_at'' \<mapsto> [Some ''2017-10-02 10:56:33''],
      ''order_delivered_carrier_date'' \<mapsto> [None], ''order_delivered_customer_date'' \<mapsto> [None],
      ''order_estimated_delivery_date'' \<mapsto> [None], ''order_purchase_timestamp'' \<mapsto> [None],
      ''shipping_limit_date'' \<mapsto> [None]] [] [17441, 17442] [] 0 False (0, 0) =
   dashboard [(blank_row ''o1'')\<lparr>order_approved_at := Some 1506941793\<rparr>] [] [17441, 17442] [] 0 False (0, 0)"
proof -
  let ?rows = "[(blank_row ''o1'')\<lparr>order_approved_at := Some 1506941793\<rparr>]"
  let ?raw = "[''order_approved_at'' \<mapsto> [Some ''2017-10-02 10:56:33''],
      ''order_delivered_carrier_date'' \<mapsto> [None], ''order_delivered_customer_date'' \<mapsto> [None],
      ''order_estimated_delivery_date'' \<mapsto> [None], ''order_purchase_timestamp'' \<mapsto> [None],
      ''shipping_limit_date'' \<mapsto> [None]] :: string \<rightharpoonup> string option list"
  have h1: "\<forall>c\<in>set datetime_cols. ?raw c = Some (map (map_option format_datetime \<circ> date_field c) ?rows)"
    by code_simp
  have h2: "\<forall>r\<in>set ?rows. \<forall>c\<in>set datetime_cols. pred_option ns_bounded (date_field c r)"
    by (simp add: datetime_cols_def date_field_def blank_row_def ns_bounded_def)
  show ?thesis by (rule dashboard_script_csv [OF h1 h2])
qed

end
